(* ===== verification/Go_Strings.thy ===== *)
theory Go_Strings
  imports Main "HOL-Library.Word" "HOL-Library.Code_Target_Numeral"
begin

text \<open>
  Go strings as byte lists, and the parts of the Go standard library the code applies to them:
  UTF-8 decoding and encoding, \<open>strings.TrimSpace\<close>, \<open>strings.Trim\<close>, byte-wise comparison, and
  the lexical path functions \<open>filepath.Clean\<close>, \<open>filepath.Base\<close> and \<open>filepath.IsAbs\<close> (Unix).
  The lemmas say that segmentation loses no byte, that encoding then decoding a rune gives the rune
  back, and how truncating a string at a byte offset changes its runes.
\<close>

named_theorems go_string "equations that evaluate the Go string functions on literals"

section \<open>Bytes, runes and UTF-8\<close>

text \<open>A Go string is a byte sequence; \<open>char\<close> is a byte. A rune is a code point number.\<close>

type_synonym rune = nat
type_synonym time = int

definition zeroTime :: time where
  "zeroTime = 0"

definition timeIsZero :: "time \<Rightarrow> bool" where
  "timeIsZero t \<longleftrightarrow> t = zeroTime"

definition byte :: "char \<Rightarrow> nat" where
  "byte c = of_char c"

definition runeError :: rune where
  "runeError = 65533"

definition between :: "nat \<Rightarrow> nat \<Rightarrow> char \<Rightarrow> bool" where
  "between lo hi c \<longleftrightarrow> lo \<le> byte c \<and> byte c \<le> hi"

text \<open>
  \<open>utf8.DecodeRuneInString\<close>: the first rune and its width. Every malformed prefix is
  \<open>RuneError\<close> of width one, which is what \<open>for range\<close> over a string yields too.
\<close>

definition decode2 :: "nat \<Rightarrow> string \<Rightarrow> rune \<times> nat" where
  "decode2 x rest = (case rest of
     b # _ \<Rightarrow> if between 128 191 b then ((x - 192) * 64 + (byte b - 128), 2) else (runeError, 1)
   | [] \<Rightarrow> (runeError, 1))"

definition decode3 :: "nat \<Rightarrow> string \<Rightarrow> rune \<times> nat" where
  "decode3 x rest = (case rest of
     b # c # _ \<Rightarrow>
       if between (if x = 224 then 160 else 128) (if x = 237 then 159 else 191) b
          \<and> between 128 191 c
       then ((x - 224) * 4096 + (byte b - 128) * 64 + (byte c - 128), 3) else (runeError, 1)
   | _ \<Rightarrow> (runeError, 1))"

definition decode4 :: "nat \<Rightarrow> string \<Rightarrow> rune \<times> nat" where
  "decode4 x rest = (case rest of
     b # c # d # _ \<Rightarrow>
       if between (if x = 240 then 144 else 128) (if x = 244 then 143 else 191) b
          \<and> between 128 191 c \<and> between 128 191 d
       then ((x - 240) * 262144 + (byte b - 128) * 4096 + (byte c - 128) * 64 + (byte d - 128), 4)
       else (runeError, 1)
   | _ \<Rightarrow> (runeError, 1))"

definition decodeRune :: "char \<Rightarrow> string \<Rightarrow> rune \<times> nat" where
  "decodeRune a rest = (let x = byte a in
     if x < 128 then (x, 1)
     else if 194 \<le> x \<and> x \<le> 223 then decode2 x rest
     else if 224 \<le> x \<and> x \<le> 239 then decode3 x rest
     else if 240 \<le> x \<and> x \<le> 244 then decode4 x rest
     else (runeError, 1))"

text \<open>The runes of a string, each with the bytes it was decoded from.\<close>

fun utf8Segments :: "string \<Rightarrow> (rune \<times> string) list" where
  "utf8Segments [] = []"
| "utf8Segments (a # rest) =
     (let (r, k) = decodeRune a rest
      in (r, a # take (k - 1) rest) # utf8Segments (drop (k - 1) rest))"

definition runesOf :: "string \<Rightarrow> rune list" where
  "runesOf s = map fst (utf8Segments s)"

text \<open>\<open>utf8.ValidString\<close>: no byte decodes as an error of width one.\<close>

definition utf8Valid :: "string \<Rightarrow> bool" where
  "utf8Valid s \<longleftrightarrow> list_all (\<lambda>(r, bs). \<not> (r = runeError \<and> length bs = 1)) (utf8Segments s)"

text \<open>\<open>utf8.AppendRune\<close>, as \<open>strings.Builder.WriteRune\<close> uses it.\<close>

definition encodeRune :: "rune \<Rightarrow> string" where
  "encodeRune r =
     (if r < 128 then [char_of r]
      else if r < 2048 then [char_of (192 + r div 64), char_of (128 + r mod 64)]
      else if (55296 \<le> r \<and> r \<le> 57343) \<or> 1114111 < r then [char_of (239::nat), char_of (191::nat), char_of (189::nat)]
      else if r < 65536 then
        [char_of (224 + r div 4096), char_of (128 + r div 64 mod 64), char_of (128 + r mod 64)]
      else [char_of (240 + r div 262144), char_of (128 + r div 4096 mod 64),
            char_of (128 + r div 64 mod 64), char_of (128 + r mod 64)])"

text \<open>\<open>unicode.IsSpace\<close> and \<open>unicode.IsControl\<close>.\<close>

definition isSpaceRune :: "rune \<Rightarrow> bool" where
  "isSpaceRune r \<longleftrightarrow>
     r \<in> {9, 10, 11, 12, 13, 32, 133, 160, 5760, 8232, 8233, 8239, 8287, 12288}
     \<or> (8192 \<le> r \<and> r \<le> 8202)"

definition isControlRune :: "rune \<Rightarrow> bool" where
  "isControlRune r \<longleftrightarrow> r < 32 \<or> (127 \<le> r \<and> r \<le> 159)"

section \<open>Trimming and comparing\<close>

text \<open>
  \<open>strings.TrimSpace\<close> drops leading and trailing white-space runes. Trailing runes are decoded
  backwards in Go; a white-space rune is a complete encoding whose lead byte is never a
  continuation byte, so forward segmentation ends with the same runes.
\<close>

definition trimWhile :: "('a \<Rightarrow> bool) \<Rightarrow> 'a list \<Rightarrow> 'a list" where
  "trimWhile p xs = rev (dropWhile p (rev (dropWhile p xs)))"

definition trimSpace :: "string \<Rightarrow> string" where
  "trimSpace s = concat (map snd (trimWhile (\<lambda>(r, _). isSpaceRune r) (utf8Segments s)))"

text \<open>\<open>strings.Trim\<close> with an ASCII cutset works byte by byte.\<close>

definition trimBytes :: "string \<Rightarrow> string \<Rightarrow> string" where
  "trimBytes cutset s = trimWhile (\<lambda>c. c \<in> set cutset) s"

text \<open>Byte-wise string order, the \<open><\<close> on Go strings.\<close>

fun stringLess :: "string \<Rightarrow> string \<Rightarrow> bool" where
  "stringLess _ [] \<longleftrightarrow> False"
| "stringLess [] (_ # _) \<longleftrightarrow> True"
| "stringLess (a # as) (b # bs) \<longleftrightarrow> byte a < byte b \<or> (byte a = byte b \<and> stringLess as bs)"

definition stringCompare :: "string \<Rightarrow> string \<Rightarrow> int" where
  "stringCompare a b = (if a = b then 0 else if stringLess a b then -1 else 1)"

lemma byte_inject [simp]: "byte a = byte b \<longleftrightarrow> a = b"
  by (simp add: byte_def)

lemma byte_less: "byte c < 256"
  by (simp add: byte_def)

lemma byte_char_of [simp]: "n < 256 \<Longrightarrow> byte (char_of n) = n"
  by (simp add: byte_def)

lemma eq_char_of [simp]: "n < 256 \<Longrightarrow> c = char_of n \<longleftrightarrow> byte c = n"
  by (metis byte_char_of byte_inject)

lemma char_of_eq [simp]: "n < 256 \<Longrightarrow> char_of n = c \<longleftrightarrow> byte c = n"
  by (metis eq_char_of)

lemma stringLess_irrefl [simp]: "\<not> stringLess a a"
  by (induction a) auto

lemma stringLess_trans: "stringLess a b \<Longrightarrow> stringLess b c \<Longrightarrow> stringLess a c"
proof (induction a b arbitrary: c rule: stringLess.induct)
  case (2 b bs)
  then show ?case by (cases c) auto
next
  case (3 a as b bs)
  then show ?case by (cases c) auto
qed simp

lemma stringLess_total: "a \<noteq> b \<Longrightarrow> stringLess a b \<or> stringLess b a"
proof (induction a b rule: stringLess.induct)
  case (1 a)
  then show ?case by (cases a) auto
next
  case (3 a as b bs)
  then show ?case by (cases rule: linorder_cases [of "byte a" "byte b"]) auto
qed simp

lemma stringLess_asym: "stringLess a b \<Longrightarrow> \<not> stringLess b a"
  using stringLess_trans stringLess_irrefl by blast

subsection \<open>Lemmas on segmentation\<close>

text \<open>What a successful multi-byte decoding says about the bytes.\<close>

lemma decodeRune_ascii: "byte a < 128 \<Longrightarrow> decodeRune a rest = (byte a, 1)"
  by (simp add: decodeRune_def)

lemma decodeRune_lead2: "194 \<le> byte a \<Longrightarrow> byte a \<le> 223 \<Longrightarrow> decodeRune a rest = decode2 (byte a) rest"
  by (simp add: decodeRune_def)

lemma decodeRune_lead3: "224 \<le> byte a \<Longrightarrow> byte a \<le> 239 \<Longrightarrow> decodeRune a rest = decode3 (byte a) rest"
  by (simp add: decodeRune_def)

lemma decodeRune_lead4: "240 \<le> byte a \<Longrightarrow> byte a \<le> 244 \<Longrightarrow> decodeRune a rest = decode4 (byte a) rest"
  by (simp add: decodeRune_def)

lemma decodeRune_bad:
  "128 \<le> byte a \<Longrightarrow> byte a < 194 \<or> 244 < byte a \<Longrightarrow> decodeRune a rest = (runeError, 1)"
  by (auto simp: decodeRune_def Let_def)

lemmas decodeRune_lead = decodeRune_lead2 decodeRune_lead3 decodeRune_lead4

lemma decode2_shape:
  "decode2 x rest = (r, k) \<Longrightarrow> k = 1 \<and> r = runeError \<or> k = 2 \<and> (\<exists>b bs. rest = b # bs \<and> between 128 191 b)"
  by (auto simp: decode2_def split: list.splits if_splits)

lemma decode3_shape:
  "decode3 x rest = (r, k) \<Longrightarrow> k = 1 \<and> r = runeError
    \<or> k = 3 \<and> (\<exists>b c bs. rest = b # c # bs \<and> between 128 191 b \<and> between 128 191 c)"
  by (auto simp: decode3_def between_def split: list.splits if_splits)

lemma decode4_shape:
  "decode4 x rest = (r, k) \<Longrightarrow> k = 1 \<and> r = runeError
    \<or> k = 4 \<and> (\<exists>b c d bs. rest = b # c # d # bs
          \<and> between 128 191 b \<and> between 128 191 c \<and> between 128 191 d)"
  by (auto simp: decode4_def between_def split: list.splits if_splits)

lemma decodeRune_shape:
  assumes "decodeRune a rest = (r, k)"
  shows "k = 1 \<and> (r = runeError \<or> byte a < 128 \<and> r = byte a)
    \<or> k = 2 \<and> (194 \<le> byte a \<and> byte a \<le> 223) \<and> (\<exists>b bs. rest = b # bs \<and> between 128 191 b)
    \<or> k = 3 \<and> (224 \<le> byte a \<and> byte a \<le> 239) \<and>
        (\<exists>b c bs. rest = b # c # bs \<and> between 128 191 b \<and> between 128 191 c)
    \<or> k = 4 \<and> (240 \<le> byte a \<and> byte a \<le> 244) \<and>
        (\<exists>b c d bs. rest = b # c # d # bs \<and> between 128 191 b \<and> between 128 191 c \<and> between 128 191 d)"
proof -
  consider "byte a < 128" | "194 \<le> byte a" "byte a \<le> 223" | "224 \<le> byte a" "byte a \<le> 239"
    | "240 \<le> byte a" "byte a \<le> 244" | "128 \<le> byte a" "byte a < 194 \<or> 244 < byte a" by linarith
  then show ?thesis
  proof cases
    case 1
    with assms show ?thesis by (simp add: decodeRune_ascii)
  next
    case 2
    with assms decode2_shape show ?thesis by (metis decodeRune_lead2)
  next
    case 3
    with assms decode3_shape show ?thesis by (metis decodeRune_lead3)
  next
    case 4
    with assms decode4_shape show ?thesis by (metis decodeRune_lead4)
  next
    case 5
    with assms show ?thesis by (simp add: decodeRune_bad)
  qed
qed

lemma decodeRune_width: "snd (decodeRune a rest) \<in> {1, 2, 3, 4}"
  using decodeRune_shape [of a rest] by (cases "decodeRune a rest") auto

lemma decodeRune_width_le: "snd (decodeRune a rest) - 1 \<le> length rest"
  using decodeRune_shape [of a rest] by (cases "decodeRune a rest") auto

lemma concat_utf8Segments [simp]: "concat (map snd (utf8Segments s)) = s"
proof (induction s rule: utf8Segments.induct)
  case (2 a rest)
  obtain r k where rk: "decodeRune a rest = (r, k)" by fastforce
  with 2 [of "(r, k)" r k] show ?case by (simp add: rk)
qed simp

lemma utf8Segments_Nil_iff [simp]: "utf8Segments s = [] \<longleftrightarrow> s = []"
  by (cases s) (auto split: prod.splits)

lemma utf8Segments_nonempty: "seg \<in> set (utf8Segments s) \<Longrightarrow> snd seg \<noteq> []"
  by (induction s rule: utf8Segments.induct) (auto split: prod.splits)

lemma dropWhile_none: "\<forall>x \<in> set xs. \<not> p x \<Longrightarrow> dropWhile p xs = xs"
  by (cases xs) auto

lemma trimWhile_none: "\<forall>x \<in> set xs. \<not> p x \<Longrightarrow> trimWhile p xs = xs"
  by (simp add: trimWhile_def dropWhile_none)

lemma set_trimWhile: "set (trimWhile p xs) \<subseteq> set xs"
  by (auto simp: trimWhile_def dest!: set_dropWhileD)

lemma length_trimWhile: "length (trimWhile p xs) \<le> length xs"
  by (metis length_dropWhile_le length_rev order_trans trimWhile_def)

lemma trimWhile_hd: "trimWhile p xs \<noteq> [] \<Longrightarrow> \<not> p (hd (trimWhile p xs)) \<and> \<not> p (last (trimWhile p xs))"
proof -
  let ?ys = "dropWhile p xs"
  assume ne: "trimWhile p xs \<noteq> []"
  then have ne': "dropWhile p (rev ?ys) \<noteq> []" by (simp add: trimWhile_def)
  then have l: "\<not> p (last (trimWhile p xs))"
    by (simp add: trimWhile_def last_rev hd_dropWhile)
  from ne' have ys: "?ys \<noteq> []" by (cases ?ys) auto
  obtain us where us: "rev ?ys = us @ dropWhile p (rev ?ys)"
    by (metis takeWhile_dropWhile_id)
  have "?ys = rev (dropWhile p (rev ?ys)) @ rev us"
    by (metis us rev_append rev_rev_ident)
  then have "hd ?ys = hd (trimWhile p xs)"
    using ne by (metis hd_append2 trimWhile_def)
  with ys l show ?thesis by (metis hd_dropWhile)
qed

lemma trimSpace_Nil [simp, go_string]: "trimSpace [] = []"
  by (simp add: trimSpace_def trimWhile_def)

lemma trimSpace_no_space:
  assumes "\<forall>r \<in> set (runesOf s). \<not> isSpaceRune r"
  shows "trimSpace s = s"
proof -
  have "\<forall>x \<in> set (utf8Segments s). \<not> (case x of (r, _) \<Rightarrow> isSpaceRune r)"
    using assms by (auto simp: runesOf_def)
  from trimWhile_none [OF this] show ?thesis by (simp add: trimSpace_def)
qed

text \<open>A well-formed segment decodes the same bytes whatever follows it.\<close>

lemma decodeRune_append:
  assumes "decodeRune a rest = (r, k)" and "k \<noteq> 1"
  shows "decodeRune a (take (k - 1) rest @ more) = (r, k)"
  using decodeRune_shape [OF assms(1)] assms
  by (elim disjE conjE exE)
    (simp_all add: decodeRune_lead decode2_def decode3_def decode4_def numeral_2_eq_2 split: if_splits)

text \<open>A proper truncation of a multi-byte sequence decodes as error runes only.\<close>

lemma byte_cont_decode: "between 128 191 a \<Longrightarrow> decodeRune a rest = (runeError, 1)"
  by (simp add: between_def decodeRune_bad)

lemma utf8Segments_conts:
  "\<forall>c \<in> set cs. between 128 191 c \<Longrightarrow> fst ` set (utf8Segments cs) \<subseteq> {runeError}"
  by (induction cs rule: utf8Segments.induct) (auto simp: byte_cont_decode)

lemma decodeRune_take:
  assumes "decodeRune a rest = (r, k)" and "n < k - 1"
  shows "decodeRune a (take n rest) = (runeError, 1)
    \<and> (\<forall>c \<in> set (take n rest). between 128 191 c)"
proof -
  have "n = 0 \<or> n = 1 \<or> n = 2"
    using assms decodeRune_width [of a rest] by auto
  then show ?thesis
    using decodeRune_shape [OF assms(1)] assms(2)
    by (elim disjE conjE exE)
      (simp_all add: decodeRune_lead decode2_def decode3_def decode4_def numeral_2_eq_2)
qed

lemma decodeRune_narrow:
  assumes "decodeRune a rest = (r, 1)"
  shows "fst (decodeRune a (take n rest)) \<in> {r, runeError} \<and> snd (decodeRune a (take n rest)) = 1"
proof (cases "byte a < 128")
  case True
  with assms show ?thesis by (simp add: decodeRune_ascii)
next
  case False
  with decodeRune_shape [OF assms] have r: "r = runeError" by auto
  obtain r' k' where d: "decodeRune a (take n rest) = (r', k')" by fastforce
  have "k' = 1"
  proof (rule ccontr)
    assume "k' \<noteq> 1"
    have "decodeRune a ((take (k' - 1) (take n rest) @ drop (k' - 1) (take n rest)) @ drop n rest) = (r', k')"
      using decodeRune_append [OF d \<open>k' \<noteq> 1\<close>, of "drop (k' - 1) (take n rest) @ drop n rest"]
      by (simp only: append_assoc)
    then have "decodeRune a rest = (r', k')" by (simp only: append_take_drop_id)
    with assms \<open>k' \<noteq> 1\<close> show False by simp
  qed
  with decodeRune_shape [OF d] False r d show ?thesis by auto
qed

text \<open>Truncating a string keeps its runes or adds error runes.\<close>

lemma runes_take: "set (runesOf (take n s)) \<subseteq> set (runesOf s) \<union> {runeError}"
proof (induction s arbitrary: n rule: utf8Segments.induct)
  case (2 a rest)
  show ?case
  proof (cases n)
    case (Suc m)
    obtain r k where rk: "decodeRune a rest = (r, k)" by fastforce
    show ?thesis
    proof (cases "m < k - 1")
      case True
      from decodeRune_take [OF rk True] utf8Segments_conts [of "take m rest"]
      show ?thesis by (auto simp: runesOf_def Suc)
    next
      case False
      have eq: "take m rest = take (k - 1) rest @ take (m - (k - 1)) (drop (k - 1) rest)"
        using False by (metis le_add_diff_inverse linorder_not_less take_add)
      have dec: "fst (decodeRune a (take m rest)) \<in> {r, runeError}
          \<and> snd (decodeRune a (take m rest)) = k"
      proof (cases "k = 1")
        case True
        with decodeRune_narrow [of a rest r m] rk show ?thesis by auto
      next
        case False
        from decodeRune_append [OF rk False] show ?thesis by (metis eq fst_conv snd_conv insertI1)
      qed
      have rec: "set (runesOf (take (m - (k - 1)) (drop (k - 1) rest)))
          \<subseteq> set (runesOf (drop (k - 1) rest)) \<union> {runeError}"
        using "2.IH" rk by auto
      obtain r' where r': "decodeRune a (take m rest) = (r', k)" "r' = r \<or> r' = runeError"
        using dec by (cases "decodeRune a (take m rest)") auto
      have "drop (k - 1) (take m rest) = take (m - (k - 1)) (drop (k - 1) rest)"
        by (simp add: drop_take)
      with rec r' rk show ?thesis by (auto simp: runesOf_def Suc)
    qed
  qed (simp add: runesOf_def)
qed (simp add: runesOf_def)

text \<open>
  The segments of a well-formed string are self-delimiting: any selection of them, concatenated,
  decodes to exactly that selection.
\<close>

definition wellSegment :: "rune \<times> string \<Rightarrow> bool" where
  "wellSegment seg \<longleftrightarrow> \<not> (fst seg = runeError \<and> length (snd seg) = 1)
     \<and> (\<exists>a cs. snd seg = a # cs \<and> length cs \<le> 3
          \<and> (\<forall>more. decodeRune a (cs @ more) = (fst seg, Suc (length cs))))"

lemma utf8Valid_segments: "utf8Valid s \<Longrightarrow> \<forall>seg \<in> set (utf8Segments s). wellSegment seg"
proof (induction s rule: utf8Segments.induct)
  case (2 a rest)
  obtain r k where rk: "decodeRune a rest = (r, k)" by fastforce
  have k: "k \<in> {1, 2, 3, 4}" and le: "k - 1 \<le> length rest"
    using decodeRune_width [of a rest] decodeRune_width_le [of a rest] rk by auto
  have rest: "utf8Valid (drop (k - 1) rest)" and bad: "\<not> (r = runeError \<and> k = 1)"
    using "2.prems" rk k le by (auto simp: utf8Valid_def)
  have "decodeRune a (take (k - 1) rest @ more) = (r, k)" for more
  proof (cases "k = 1")
    case True
    then have "byte a < 128" using decodeRune_shape [OF rk] bad by auto
    with rk True show ?thesis by (simp add: decodeRune_ascii)
  qed (rule decodeRune_append [OF rk])
  then have "wellSegment (r, a # take (k - 1) rest)"
    using k le bad by (auto simp: wellSegment_def)
  with "2.IH" rk rest show ?case by auto
qed simp

lemma utf8Segments_concat:
  "\<forall>seg \<in> set segs. wellSegment seg \<Longrightarrow> utf8Segments (concat (map snd segs)) = segs"
proof (induction segs)
  case (Cons seg segs)
  then obtain a cs where s: "snd seg = a # cs"
    and d: "decodeRune a (cs @ concat (map snd segs)) = (fst seg, Suc (length cs))"
    by (auto simp: wellSegment_def)
  have "seg = (fst seg, a # cs)" by (simp flip: s)
  with Cons s d show ?case by simp
qed simp

lemma wellSegments_valid: "\<forall>seg \<in> set segs. wellSegment seg \<Longrightarrow> utf8Valid (concat (map snd segs))"
  by (auto simp: utf8Valid_def utf8Segments_concat list_all_iff wellSegment_def)

lemma utf8Valid_trimSpace: "utf8Valid s \<Longrightarrow> utf8Valid (trimSpace s)"
  unfolding trimSpace_def
  by (rule wellSegments_valid) (meson set_trimWhile subsetD utf8Valid_segments)

text \<open>Cutting a well-formed string anywhere is at most three bytes past a rune boundary.\<close>

lemma utf8_cut_segments:
  assumes "\<forall>seg \<in> set segs. wellSegment seg" and "n \<le> length (concat (map snd segs))"
  shows "\<exists>k m. k \<le> 3 \<and> k \<le> n \<and> take (n - k) (concat (map snd segs)) = concat (map snd (take m segs))"
  using assms
proof (induction segs arbitrary: n)
  case Nil
  then show ?case by (intro exI [of _ 0]) simp
next
  case (Cons seg segs)
  then obtain a cs where s: "snd seg = a # cs" "length cs \<le> 3" by (auto simp: wellSegment_def)
  show ?case
  proof (cases "n < length (snd seg)")
    case True
    with s show ?thesis by (intro exI [of _ n] exI [of _ 0]) simp
  next
    case False
    then have "n - length (snd seg) \<le> length (concat (map snd segs))" using Cons.prems(2) by simp
    from Cons.IH [OF _ this] Cons.prems(1) obtain k m
      where *: "k \<le> 3" "k \<le> n - length (snd seg)"
        "take (n - length (snd seg) - k) (concat (map snd segs)) = concat (map snd (take m segs))"
      by auto
    have "n - k - length (snd seg) = n - length (snd seg) - k" by simp
    with * False show ?thesis by (intro exI [of _ k] exI [of _ "Suc m"]) simp
  qed
qed

lemma utf8_cut:
  assumes "utf8Valid s" and "n \<le> length s"
  shows "\<exists>k \<le> 3. k \<le> n \<and> utf8Valid (take (n - k) s)"
proof -
  have w: "\<forall>seg \<in> set (utf8Segments s). wellSegment seg" by (rule utf8Valid_segments [OF assms(1)])
  obtain k m where k: "k \<le> 3" "k \<le> n"
      "take (n - k) (concat (map snd (utf8Segments s))) = concat (map snd (take m (utf8Segments s)))"
    using utf8_cut_segments [OF w, of n] assms(2) by auto
  have "utf8Valid (concat (map snd (take m (utf8Segments s))))"
    using w by (intro wellSegments_valid) (auto dest: in_set_takeD)
  with k show ?thesis by auto
qed

text \<open>An ASCII byte of a string is one of its runes.\<close>

lemma ascii_byte_rune: "c \<in> set s \<Longrightarrow> byte c < 128 \<Longrightarrow> byte c \<in> set (runesOf s)"
proof (induction s rule: utf8Segments.induct)
  case (2 a rest)
  obtain r k where rk: "decodeRune a rest = (r, k)" by fastforce
  show ?case
  proof (cases "c = a")
    case True
    with 2 show ?thesis by (simp add: runesOf_def decodeRune_ascii)
  next
    case False
    have "\<forall>x \<in> set (take (k - 1) rest). 128 \<le> byte x"
      using decodeRune_shape [OF rk] by (elim disjE conjE exE) (auto simp: between_def)
    with False 2(2,3) have "c \<in> set (drop (k - 1) rest)"
      by (metis append_take_drop_id linorder_not_less set_ConsD set_append UnE)
    with "2.IH" rk 2(3) show ?thesis by (auto simp: runesOf_def)
  qed
qed simp

subsection \<open>Encoding a rune and decoding it again\<close>

definition validRune :: "rune \<Rightarrow> bool" where
  "validRune r \<longleftrightarrow> r < 55296 \<or> (57344 \<le> r \<and> r \<le> 1114111)"

lemma decode_encode_2:
  fixes r :: nat
  assumes "128 \<le> r" "r < 2048"
  shows "decode2 (192 + r div 64) (char_of (128 + r mod 64) # more) = (r, 2)"
proof -
  have "r div 64 < 32" "r mod 64 < 64" "64 * (r div 64) + r mod 64 = r" using assms by simp_all
  then show ?thesis by (simp add: decode2_def between_def)
qed

lemma decode_encode_3:
  fixes r :: nat
  assumes "2048 \<le> r" "r < 65536" "\<not> (55296 \<le> r \<and> r \<le> 57343)"
  shows "decode3 (224 + r div 4096) (char_of (128 + r div 64 mod 64) # char_of (128 + r mod 64) # more)
    = (r, 3)"
proof -
  let ?a = "r div 4096" and ?b = "r div 64 mod 64" and ?c = "r mod 64"
  have d: "?a = r div 64 div 64" by (simp flip: div_mult2_eq)
  have "64 * (r div 64) + ?c = r" "64 * ?a + ?b = r div 64"
    unfolding d by simp_all
  then have eq: "4096 * ?a + 64 * ?b + ?c = r" by linarith
  have bnd: "?a < 16" "?b < 64" "?c < 64" using assms by simp_all
  have lo: "?a = 0 \<Longrightarrow> 32 \<le> ?b" using eq bnd assms(1) by linarith
  have hi: "?a = 13 \<Longrightarrow> ?b < 32" using eq bnd assms(3) by linarith
  show ?thesis using bnd lo hi eq by (auto simp: decode3_def between_def)
qed

lemma decode4_digits:
  fixes a b c d :: nat
  assumes "a < 5" "b < 64" "c < 64" "d < 64" "a = 0 \<Longrightarrow> 16 \<le> b" "a = 4 \<Longrightarrow> b < 16"
  shows "decode4 (240 + a) (char_of (128 + b) # char_of (128 + c) # char_of (128 + d) # more)
    = (262144 * a + 4096 * b + 64 * c + d, 4)"
  using assms by (cases "a = 4"; cases "a = 0"; simp add: decode4_def between_def)

lemma decode_encode_4:
  fixes r :: nat
  assumes "65536 \<le> r" "r \<le> 1114111"
  shows "decode4 (240 + r div 262144) (char_of (128 + r div 4096 mod 64) #
    char_of (128 + r div 64 mod 64) # char_of (128 + r mod 64) # more) = (r, 4)"
proof -
  let ?a = "r div 262144" and ?b = "r div 4096 mod 64" and ?c = "r div 64 mod 64" and ?d = "r mod 64"
  have eq1: "64 * (r div 64) + ?d = r" by simp
  have d: "r div 4096 = r div 64 div 64" "?a = r div 64 div 64 div 64" by (simp_all flip: div_mult2_eq)
  have eq2: "64 * (r div 4096) + ?c = r div 64" unfolding d by simp
  have eq3: "64 * ?a + ?b = r div 4096" unfolding d by simp
  have eq: "262144 * ?a + 4096 * ?b + 64 * ?c + ?d = r" using eq1 eq2 eq3 by linarith
  have bnd: "?a < 5" "?b < 64" "?c < 64" "?d < 64" using assms by simp_all
  have lo: "?a = 0 \<Longrightarrow> 16 \<le> ?b" using eq bnd assms(1) by linarith
  have hi: "?a = 4 \<Longrightarrow> ?b < 16" using eq bnd assms(2) by linarith
  show ?thesis using decode4_digits [OF bnd lo hi] eq by simp
qed


lemma byte_lead [simp]:
  fixes r :: nat
  shows "r < 2048 \<Longrightarrow> byte (char_of (192 + r div 64)) = 192 + r div 64"
    and "r < 65536 \<Longrightarrow> byte (char_of (224 + r div 4096)) = 224 + r div 4096"
    and "r \<le> 1114111 \<Longrightarrow> byte (char_of (240 + r div 262144)) = 240 + r div 262144"
proof -
  have "r < 2048 \<Longrightarrow> r div 64 < 32" "r < 65536 \<Longrightarrow> r div 4096 < 16"
    "r \<le> 1114111 \<Longrightarrow> r div 262144 < 5" by simp_all
  then show "r < 2048 \<Longrightarrow> byte (char_of (192 + r div 64)) = 192 + r div 64"
    "r < 65536 \<Longrightarrow> byte (char_of (224 + r div 4096)) = 224 + r div 4096"
    "r \<le> 1114111 \<Longrightarrow> byte (char_of (240 + r div 262144)) = 240 + r div 262144"
    by simp_all
qed

lemma encodeRune_Cons: "encodeRune r = hd (encodeRune r) # tl (encodeRune r)"
  by (simp add: encodeRune_def)

lemma decode_encodeRune:
  assumes "validRune r"
  shows "decodeRune (hd (encodeRune r)) (tl (encodeRune r) @ more) = (r, length (encodeRune r))"
proof -
  consider "r < 128" | "128 \<le> r" "r < 2048" | "2048 \<le> r" "r < 65536" | "65536 \<le> r" "r \<le> 1114111"
    using assms unfolding validRune_def by linarith
  then show ?thesis
  proof cases
    case 1
    then show ?thesis by (simp add: encodeRune_def decodeRune_ascii)
  next
    case 2
    then have "192 + r div 64 \<ge> 194" "r div 64 < 32" by simp_all
    with 2 show ?thesis by (simp add: encodeRune_def decodeRune_lead2 decode_encode_2)
  next
    case 3
    then have "r div 4096 < 16" by simp
    with 3 assms show ?thesis
      by (auto simp: encodeRune_def decodeRune_lead3 decode_encode_3 validRune_def)
  next
    case 4
    then have "r div 262144 < 5" by simp
    with 4 show ?thesis by (simp add: encodeRune_def decodeRune_lead4 decode_encode_4)
  qed
qed

lemma utf8Segments_encode:
  "validRune r \<Longrightarrow> utf8Segments (encodeRune r @ s) = (r, encodeRune r) # utf8Segments s"
  using decode_encodeRune [of r s] encodeRune_Cons [of r]
  by (metis (no_types, lifting) append_Cons append_eq_conv_conj case_prod_conv diff_Suc_1
      length_Cons utf8Segments.simps(2))

lemma runesOf_encode:
  "\<forall>r \<in> set rs. validRune r \<Longrightarrow> runesOf (concat (map encodeRune rs)) = rs"
  by (induction rs) (auto simp: runesOf_def utf8Segments_encode)

lemma decodeRune_valid: "validRune (fst (decodeRune a rest))"
proof (cases "decodeRune a rest")
  case (Pair r k)
  have err: "validRune runeError" by (simp add: validRune_def runeError_def)
  consider "byte a < 128" | "194 \<le> byte a" "byte a \<le> 223" | "224 \<le> byte a" "byte a \<le> 239"
    | "240 \<le> byte a" "byte a \<le> 244" | "128 \<le> byte a" "byte a < 194 \<or> 244 < byte a" by linarith
  then show ?thesis
  proof cases
    case 1
    then show ?thesis by (simp add: decodeRune_ascii validRune_def)
  next
    case 2
    with err show ?thesis
      by (auto simp: decodeRune_lead2 decode2_def validRune_def between_def split: list.splits)
  next
    case 3
    with err show ?thesis
      by (auto simp: decodeRune_lead3 decode3_def validRune_def between_def split: list.splits)
  next
    case 4
    with err show ?thesis
      by (auto simp: decodeRune_lead4 decode4_def validRune_def between_def split: list.splits)
  next
    case 5
    with err show ?thesis by (simp add: decodeRune_bad)
  qed
qed

lemma runesOf_valid: "r \<in> set (runesOf s) \<Longrightarrow> validRune r"
proof (induction s rule: utf8Segments.induct)
  case (2 a rest)
  obtain r' k where d: "decodeRune a rest = (r', k)" by fastforce
  with 2 decodeRune_valid [of a rest] show ?case by (auto simp: runesOf_def)
qed (simp add: runesOf_def)

section \<open>Lexical paths\<close>

text \<open>\<open>filepath.Clean\<close>, \<open>filepath.Base\<close> and \<open>filepath.IsAbs\<close> on a Unix host.\<close>

fun splitSlash :: "string \<Rightarrow> string list" where
  "splitSlash [] = [[]]"
| "splitSlash (c # cs) =
     (if c = CHR ''/'' then [] # splitSlash cs
      else (case splitSlash cs of [] \<Rightarrow> [[c]] | w # ws \<Rightarrow> (c # w) # ws))"

fun joinSlash :: "string list \<Rightarrow> string" where
  "joinSlash [] = []"
| "joinSlash [w] = w"
| "joinSlash (w # ws) = w @ CHR ''/'' # joinSlash ws"

fun cleanElems :: "bool \<Rightarrow> string list \<Rightarrow> string list \<Rightarrow> string list" where
  "cleanElems rooted acc [] = rev acc"
| "cleanElems rooted acc (e # es) =
     (if e = [] \<or> e = ''.'' then cleanElems rooted acc es
      else if e = ''..'' then
        (case acc of
           [] \<Rightarrow> if rooted then cleanElems rooted [] es else cleanElems rooted [e] es
         | t # ts \<Rightarrow> if t = ''..'' then cleanElems rooted (e # acc) es else cleanElems rooted ts es)
      else cleanElems rooted (e # acc) es)"

definition pathIsAbs :: "string \<Rightarrow> bool" where
  "pathIsAbs p \<longleftrightarrow> (case p of [] \<Rightarrow> False | c # _ \<Rightarrow> c = CHR ''/'')"

definition pathClean :: "string \<Rightarrow> string" where
  "pathClean p = (let body = joinSlash (cleanElems (pathIsAbs p) [] (splitSlash p))
     in if pathIsAbs p then CHR ''/'' # body else if body = [] then ''.'' else body)"

definition pathBase :: "string \<Rightarrow> string" where
  "pathBase p =
     (if p = [] then ''.''
      else (let q = rev (dropWhile (\<lambda>c. c = CHR ''/'') (rev p))
            in if q = [] then ''/'' else rev (takeWhile (\<lambda>c. c \<noteq> CHR ''/'') (rev q))))"

lemma pathClean_nonempty [simp]: "pathClean p \<noteq> []"
  by (auto simp: pathClean_def Let_def)

end
