(* ===== verification/Prelude.thy ===== *)
theory Prelude
  imports Go_Strings
begin

text \<open>
  Shared vocabulary of the development: the error values of
  \<^verbatim>\<open>internal/core/metadata/errors.go\<close>, the composition of operations that thread a state and may
  fail, and lemmas on "first element with this key" updates of lists, which is what writing through
  a pointer into a Go slice is. The human-readable \<open>Detail\<close> of an error is not modelled: an error is
  its kind (input or state), its operation and its sentinel cause.
\<close>

named_theorems preserve "an operation preserves a state predicate"
named_theorems frame "what an operation leaves unchanged"

section \<open>Errors\<close>

datatype cause =
    ErrNameConflict | ErrNameExhausted | ErrExplicitNameCardinality | ErrInvalidName
  | ErrInvalidRoot | ErrRootConflict | ErrNotFound | ErrInvalidPhase | ErrInvalidLabel
  | ErrInvalidRegistry | ErrSchemaTooNew | ErrSchemaUnsupported

text \<open>
  \<open>EnvError\<close> is an error an injected dependency returned or a plain \<open>fmt.Errorf\<close>; \<open>Panic\<close> is a nil
  dereference or an index out of range, so that its absence can be stated.
\<close>

datatype error = InputError string cause | StateError string cause | EnvError string | Panic string

definition inputErr :: "string \<Rightarrow> cause \<Rightarrow> error" where
  "inputErr op c = InputError op c"

definition stateErr :: "string \<Rightarrow> cause \<Rightarrow> error" where
  "stateErr op c = StateError op c"

definition IsUsageError :: "error \<Rightarrow> bool" where
  "IsUsageError e = (case e of InputError _ _ \<Rightarrow> True | _ \<Rightarrow> False)"

text \<open>A check that succeeds with no value.\<close>

type_synonym check = "error + unit"

definition ok :: check where
  "ok = Inr ()"

definition guardErr :: "bool \<Rightarrow> error \<Rightarrow> check" where
  "guardErr b e = (if b then Inl e else ok)"

definition thenCheck :: "check \<Rightarrow> check \<Rightarrow> check" where
  "thenCheck a b = (case a of Inl e \<Rightarrow> Inl e | Inr _ \<Rightarrow> b)"

fun allChecks :: "check list \<Rightarrow> check" where
  "allChecks [] = ok"
| "allChecks (c # cs) = thenCheck c (allChecks cs)"

lemma thenCheck_ok [simp]: "thenCheck a b = ok \<longleftrightarrow> a = ok \<and> b = ok"
  by (auto simp: thenCheck_def ok_def split: sum.splits)

lemma thenCheck_Inr [simp]: "thenCheck a b = Inr u \<longleftrightarrow> a = ok \<and> b = ok"
  by (auto simp: thenCheck_def ok_def split: sum.splits)

lemma guardErr_ok [simp]: "guardErr b e = ok \<longleftrightarrow> \<not> b"
  by (simp add: guardErr_def ok_def)

lemma allChecks_ok: "allChecks cs = ok \<longleftrightarrow> (\<forall>c \<in> set cs. c = ok)"
  by (induction cs) auto

lemma thenCheck_left [simp]: "thenCheck ok b = b"
  by (simp add: thenCheck_def ok_def)

section \<open>Operations that thread a state and may fail\<close>

text \<open>
  An operation takes the state and returns the error or the value together with the state it left:
  Go code that fails half way leaves its partial writes behind, so the state is part of both results.
\<close>

type_synonym ('s, 'a) comp = "'s \<Rightarrow> (error + 'a) \<times> 's"

definition return :: "'a \<Rightarrow> ('s, 'a) comp" where
  "return x s = (Inr x, s)"

definition throw :: "error \<Rightarrow> ('s, 'a) comp" where
  "throw e s = (Inl e, s)"

definition andThen :: "('s, 'a) comp \<Rightarrow> ('a \<Rightarrow> ('s, 'b) comp) \<Rightarrow> ('s, 'b) comp" where
  "andThen m f s = (case m s of (Inl e, s') \<Rightarrow> (Inl e, s') | (Inr x, s') \<Rightarrow> f x s')"

fun forEach :: "('a \<Rightarrow> ('s, 'b) comp) \<Rightarrow> 'a list \<Rightarrow> ('s, 'b list) comp" where
  "forEach f [] = return []"
| "forEach f (x # xs) = andThen (f x) (\<lambda>y. andThen (forEach f xs) (\<lambda>ys. return (y # ys)))"

lemmas comp_defs = return_def throw_def andThen_def

lemma andThen_Inr:
  "andThen m f s = (Inr y, s') \<longleftrightarrow> (\<exists>x t. m s = (Inr x, t) \<and> f x t = (Inr y, s'))"
  by (auto simp: andThen_def split: prod.splits sum.splits)

lemma andThen_Inl:
  "andThen m f s = (Inl e, s') \<longleftrightarrow>
     m s = (Inl e, s') \<or> (\<exists>x t. m s = (Inr x, t) \<and> f x t = (Inl e, s'))"
  by (auto simp: andThen_def split: prod.splits sum.splits)

text \<open>
  \<open>keeps P m\<close>: wherever \<open>P\<close> holds before \<open>m\<close>, it holds after, whether \<open>m\<close> failed or not.
\<close>

definition keeps :: "('s \<Rightarrow> bool) \<Rightarrow> ('s, 'a) comp \<Rightarrow> bool" where
  "keeps P m \<longleftrightarrow> (\<forall>s. P s \<longrightarrow> P (snd (m s)))"

lemma keeps_return [preserve, intro]: "keeps P (return x)"
  by (simp add: keeps_def return_def)

lemma keeps_throw [preserve, intro]: "keeps P (throw e)"
  by (simp add: keeps_def throw_def)

lemma keeps_andThen [preserve, intro]:
  "keeps P m \<Longrightarrow> (\<And>x. keeps P (f x)) \<Longrightarrow> keeps P (andThen m f)"
  unfolding keeps_def andThen_def
  by (auto split: prod.splits sum.splits)

text \<open>Lifting a result, reading a failure, and a loop that only needs the state.\<close>

definition liftE :: "error + 'a \<Rightarrow> ('s, 'a) comp" where
  "liftE e = (case e of Inl x \<Rightarrow> throw x | Inr y \<Rightarrow> return y)"

definition onError :: "('s, 'a) comp \<Rightarrow> ('s \<Rightarrow> 's) \<Rightarrow> ('s, 'a) comp" where
  "onError m h s = (case m s of (Inl e, s') \<Rightarrow> (Inl e, h s') | (Inr x, s') \<Rightarrow> (Inr x, s'))"

lemma keeps_liftE [preserve, intro]: "keeps P (liftE e)"
  by (auto simp: liftE_def split: sum.splits)

lemma keeps_onError: "keeps P m \<Longrightarrow> (\<And>s. P s \<Longrightarrow> P (h s)) \<Longrightarrow> keeps P (onError m h)"
  by (auto simp: keeps_def onError_def split: prod.splits sum.splits)

lemma keeps_forEach [preserve, intro]: "(\<And>x. keeps P (f x)) \<Longrightarrow> keeps P (forEach f xs)"
  by (induction xs) auto

section \<open>The first element with a key\<close>

fun updFirst :: "('a \<Rightarrow> bool) \<Rightarrow> ('a \<Rightarrow> 'a) \<Rightarrow> 'a list \<Rightarrow> 'a list" where
  "updFirst p f [] = []"
| "updFirst p f (x # xs) = (if p x then f x # xs else x # updFirst p f xs)"

fun delFirst :: "('a \<Rightarrow> bool) \<Rightarrow> 'a list \<Rightarrow> 'a list" where
  "delFirst p [] = []"
| "delFirst p (x # xs) = (if p x then xs else x # delFirst p xs)"

lemma map_updFirst: "(\<And>x. p x \<Longrightarrow> g (f x) = g x) \<Longrightarrow> map g (updFirst p f xs) = map g xs"
  by (induction xs) auto

lemma length_updFirst [simp]: "length (updFirst p f xs) = length xs"
  by (induction xs) auto

lemma updFirst_id: "find p xs = None \<Longrightarrow> updFirst p f xs = xs"
  by (induction xs) (auto split: if_splits)

lemma updFirst_Nil_iff [simp]: "updFirst p f xs = [] \<longleftrightarrow> xs = []"
  by (cases xs) auto

lemma find_updFirst_same:
  "(\<And>x. p x \<Longrightarrow> p (f x)) \<Longrightarrow> find p (updFirst p f xs) = map_option f (find p xs)"
  by (induction xs) auto

lemma find_updFirst_other:
  "(\<And>x. p x \<Longrightarrow> \<not> q x \<and> \<not> q (f x)) \<Longrightarrow> find q (updFirst p f xs) = find q xs"
  by (induction xs) auto

lemma find_SomeD: "find p xs = Some x \<Longrightarrow> x \<in> set xs \<and> p x"
  by (metis find_Some_iff nth_mem)

lemma find_NoneD: "find p xs = None \<Longrightarrow> x \<in> set xs \<Longrightarrow> \<not> p x"
  by (simp add: find_None_iff)

lemma find_append: "find p (xs @ ys) = (case find p xs of Some x \<Rightarrow> Some x | None \<Rightarrow> find p ys)"
  by (induction xs) auto

lemma find_key_distinct:
  "distinct (map k xs) \<Longrightarrow> x \<in> set xs \<Longrightarrow> find (\<lambda>y. k y = k x) xs = Some x"
  by (induction xs) (auto simp: rev_image_eqI)

lemma delFirst_append_last: "find p xs = None \<Longrightarrow> p x \<Longrightarrow> delFirst p (xs @ [x]) = xs"
  by (induction xs) (auto split: if_splits)

lemma delFirst_id: "find p xs = None \<Longrightarrow> delFirst p xs = xs"
  by (induction xs) (auto split: if_splits)

lemma set_delFirst_subset: "set (delFirst p xs) \<subseteq> set xs"
  by (induction xs) auto

lemma set_delFirst_distinct:
  "distinct (map k xs) \<Longrightarrow> set (delFirst (\<lambda>y. k y = u) xs) = {x \<in> set xs. k x \<noteq> u}"
  by (induction xs) (force simp: image_iff)+

lemma distinct_map_delFirst: "distinct (map k xs) \<Longrightarrow> distinct (map k (delFirst p xs))"
  by (induction xs) (auto dest: set_delFirst_subset [THEN subsetD])

lemma distinct_map_filter_key: "distinct (map k xs) \<Longrightarrow> distinct (map k (filter p xs))"
  by (simp add: distinct_map_filter)

lemma set_updFirst_subset: "set (updFirst p f xs) \<subseteq> set xs \<union> f ` {x \<in> set xs. p x}"
  by (induction xs) auto

end
