(* ===== verification/Reducers.thy ===== *)
theory Reducers
  imports Prelude
begin

text \<open>
  The contract of a terminal-once event reducer: a function from a state and an event to the next state
  and a changed flag. Terminal states absorb every event, an unchanged step returns its input, and a
  changed step makes progress. Both delivery reducers of the program are instances.
\<close>

locale terminal_reducer =
  fixes reduce :: "'d \<Rightarrow> 'e \<Rightarrow> 'd \<times> bool"
    and terminal :: "'d \<Rightarrow> bool"
    and rank :: "'d \<Rightarrow> nat"
  assumes absorb: "terminal d \<Longrightarrow> reduce d e = (d, False)"
    and unchanged: "\<not> snd (reduce d e) \<Longrightarrow> fst (reduce d e) = d"
    and progress: "snd (reduce d e) \<Longrightarrow> rank (fst (reduce d e)) < rank d"
begin

text \<open>The states an event sequence goes through, and how often the flag is raised.\<close>

definition runAll :: "'d \<Rightarrow> 'e list \<Rightarrow> 'd" where
  "runAll d es = foldl (\<lambda>d e. fst (reduce d e)) d es"

fun changes :: "'d \<Rightarrow> 'e list \<Rightarrow> nat" where
  "changes d [] = 0"
| "changes d (e # es) = (if snd (reduce d e) then 1 else 0) + changes (fst (reduce d e)) es"

lemma runAll_Nil [simp]: "runAll d [] = d"
  by (simp add: runAll_def)

lemma runAll_Cons [simp]: "runAll d (e # es) = runAll (fst (reduce d e)) es"
  by (simp add: runAll_def)

lemma runAll_append: "runAll d (es @ fs) = runAll (runAll d es) fs"
  by (simp add: runAll_def)

lemma terminal_stays: "terminal d \<Longrightarrow> runAll d es = d"
  by (induction es) (simp_all add: absorb)

lemma terminal_once: "terminal (runAll d es) \<Longrightarrow> runAll d (es @ fs) = runAll d es"
  by (simp add: runAll_append terminal_stays)

lemma changes_rank: "changes d es + rank (runAll d es) \<le> rank d"
proof (induction es arbitrary: d)
  case (Cons e es)
  have "rank (fst (reduce d e)) \<le> rank d"
    using progress [of d e] unchanged [of d e] by (cases "snd (reduce d e)") auto
  with Cons [of "fst (reduce d e)"] progress [of d e] show ?case by auto
qed simp

lemma changes_bounded: "changes d es \<le> rank d"
  using changes_rank [of d es] by simp

lemma invariant_runAll:
  "P d \<Longrightarrow> (\<And>d e. P d \<Longrightarrow> P (fst (reduce d e))) \<Longrightarrow> P (runAll d es)"
  by (induction es arbitrary: d) auto

end

end
