(* ===== verification/Messages.thy ===== *)
theory Messages
  imports Reducers
begin

text \<open>
  \<^verbatim>\<open>internal/core/agentmessage\<close>: the coordination envelope between Agents, its validation, replies and
  retries, the peer-authority matrix and the public delivery reducer; and
  \<^verbatim>\<open>internal/core/operatorclient\<close>, the name rule of operator clients.
\<close>

section \<open>Refs, clients and authority\<close>

definition MaxRefBytes :: nat where "MaxRefBytes = 160"
definition MaxPayloadBytes :: nat where "MaxPayloadBytes = 4096"

text \<open>24 hours in nanoseconds.\<close>
definition MaxTTL :: int where "MaxTTL = 86400000000000"

definition ValidRef :: "string \<Rightarrow> bool" where
  "ValidRef value =
     (if value \<noteq> trimSpace value \<or> value = '''' \<or> length value > MaxRefBytes \<or> \<not> utf8Valid value then False
      else \<not> list_ex isControlRune (runesOf value))"

definition lowerLetter :: "char \<Rightarrow> bool" where
  "lowerLetter c \<longleftrightarrow> between 97 122 c"

definition clientTail :: "char \<Rightarrow> bool" where
  "clientTail c \<longleftrightarrow> lowerLetter c \<or> between 48 57 c \<or> c = CHR ''-''"

definition ValidClient :: "string \<Rightarrow> bool" where
  "ValidClient name = (case name of
     [] \<Rightarrow> False
   | c # cs \<Rightarrow> length name \<le> 32 \<and> lowerLetter c \<and> list_all clientTail cs)"

definition validProvider :: "string \<Rightarrow> bool" where
  "validProvider value \<longleftrightarrow> value = ''codex'' \<or> value = ''claude'' \<or> value = ''antigravity''"

record msg_authority =
  au_kind :: string
  au_trust :: string
  au_permission :: string

definition PeerAuthority :: msg_authority where
  "PeerAuthority = \<lparr>au_kind = ''peer'', au_trust = ''untrusted'', au_permission = ''coordination-only''\<rparr>"

definition OperatorAuthority :: msg_authority where
  "OperatorAuthority = \<lparr>au_kind = ''operator'', au_trust = ''untrusted'', au_permission = ''coordination-only''\<rparr>"

record origin =
  og_kind :: string
  og_client :: string

definition zeroOrigin :: origin where
  "zeroOrigin = \<lparr>og_kind = '''', og_client = ''''\<rparr>"

definition OperatorOrigin :: "string \<Rightarrow> error + origin" where
  "OperatorOrigin client = (if ValidClient client then Inr \<lparr>og_kind = ''operator'', og_client = client\<rparr>
     else Inl (EnvError ''operator-client-invalid''))"

definition IsOperatorOrigin :: "string \<Rightarrow> string \<Rightarrow> bool" where
  "IsOperatorOrigin k client \<longleftrightarrow> k = ''operator'' \<and> ValidClient client"

definition originOperator :: "origin \<Rightarrow> bool" where
  "originOperator o' = IsOperatorOrigin (og_kind o') (og_client o')"

datatype principal =
    PrincipalHuman | PrincipalPeer | PrincipalOperator | PrincipalProviderRuntime
  | PrincipalApprovalReviewer | PrincipalOther string

datatype msg_action =
    ActionCoordinationSend | ActionCoordinationRead | ActionCoordinationReply | ActionTurnStart
  | ActionTurnSteer | ActionTurnInterrupt | ActionApprovalReview | ActionConfigWrite
  | ActionToolOrConnector | ActionModelHistoryWrite | ActionOther string

definition Principals :: "principal list" where
  "Principals = [PrincipalHuman, PrincipalPeer, PrincipalOperator, PrincipalProviderRuntime,
     PrincipalApprovalReviewer]"

definition Actions :: "msg_action list" where
  "Actions = [ActionCoordinationSend, ActionCoordinationRead, ActionCoordinationReply, ActionTurnStart,
     ActionTurnSteer, ActionTurnInterrupt, ActionApprovalReview, ActionConfigWrite,
     ActionToolOrConnector, ActionModelHistoryWrite]"

definition AuthorizeMessage :: "principal \<Rightarrow> msg_action \<Rightarrow> bool" where
  "AuthorizeMessage p a =
     (if p \<notin> set Principals \<or> a \<notin> set Actions then False
      else case p of
        PrincipalHuman \<Rightarrow> a \<in> {ActionCoordinationSend, ActionCoordinationRead, ActionCoordinationReply,
          ActionTurnStart, ActionTurnSteer, ActionTurnInterrupt, ActionConfigWrite}
      | PrincipalPeer \<Rightarrow> a \<in> {ActionCoordinationSend, ActionCoordinationRead, ActionCoordinationReply}
      | PrincipalOperator \<Rightarrow> a = ActionCoordinationSend
      | PrincipalProviderRuntime \<Rightarrow> a \<in> {ActionToolOrConnector, ActionModelHistoryWrite}
      | PrincipalApprovalReviewer \<Rightarrow> a = ActionApprovalReview
      | PrincipalOther _ \<Rightarrow> False)"

section \<open>Routes and envelopes\<close>

record route =
  rt_agent :: string
  rt_pane :: string
  rt_generation :: string
  rt_provider :: string
  rt_incarnation :: string

definition zeroRoute :: route where
  "zeroRoute = \<lparr>rt_agent = '''', rt_pane = '''', rt_generation = '''', rt_provider = '''', rt_incarnation = ''''\<rparr>"

definition routeValid :: "route \<Rightarrow> bool" where
  "routeValid r \<longleftrightarrow> ValidRef (rt_agent r) \<and> ValidRef (rt_pane r) \<and> ValidRef (rt_generation r)
     \<and> validProvider (rt_provider r) \<and> ValidRef (rt_incarnation r)"

definition routeSame :: "route \<Rightarrow> route \<Rightarrow> bool" where
  "routeSame r other \<longleftrightarrow> routeValid r \<and> r = other"

definition sameAgent :: "route \<Rightarrow> route \<Rightarrow> bool" where
  "sameAgent r other \<longleftrightarrow> routeValid r \<and> routeValid other \<and> rt_agent r = rt_agent other
     \<and> rt_provider r = rt_provider other"

record envelope =
  en_version :: int
  en_message :: string
  en_conversation :: string
  en_reply_to :: string
  en_origin :: origin
  en_source :: route
  en_target :: route
  en_authority :: msg_authority
  en_payload :: string
  en_accepted :: time
  en_deadline :: time

text \<open>Refusal classes; \<open>None\<close> is the nil error.\<close>

datatype envelope_error =
    PayloadTooLarge | PayloadInvalid | RouteInvalid | CorrelationInvalid | QualificationInvalid
  | ErrOperatorOriginReply | ErrOperatorOriginTargetNotClaude | ErrReplyConversationChanged

definition envelopeOperator :: "envelope \<Rightarrow> bool" where
  "envelopeOperator e = originOperator (en_origin e)"

definition payloadRefusal :: "string \<Rightarrow> envelope_error option" where
  "payloadRefusal value =
     (if value = '''' then Some PayloadInvalid
      else if length value > MaxPayloadBytes then Some PayloadTooLarge
      else if \<not> utf8Valid value then Some PayloadInvalid
      else if list_ex (\<lambda>r. r = 0) (runesOf value) then Some PayloadInvalid
      else None)"

definition validateLifetime :: "envelope \<Rightarrow> envelope_error option" where
  "validateLifetime e =
     (if timeIsZero (en_accepted e) then Some QualificationInvalid
      else if timeIsZero (en_deadline e) then Some QualificationInvalid
      else if \<not> en_deadline e > en_accepted e then Some QualificationInvalid
      else if en_deadline e - en_accepted e > MaxTTL then Some QualificationInvalid
      else None)"

definition validateShape :: "envelope \<Rightarrow> envelope_error option" where
  "validateShape e =
     (if en_version e \<noteq> 2 then Some QualificationInvalid
      else if \<not> ValidRef (en_message e) then Some CorrelationInvalid
      else if \<not> ValidRef (en_conversation e) then Some CorrelationInvalid
      else if en_reply_to e \<noteq> '''' \<and> \<not> ValidRef (en_reply_to e) then Some CorrelationInvalid
      else if \<not> routeValid (en_target e) then Some RouteInvalid
      else case payloadRefusal (en_payload e) of
        Some err \<Rightarrow> Some err
      | None \<Rightarrow> validateLifetime e)"

definition ValidateEnvelope :: "envelope \<Rightarrow> envelope_error option" where
  "ValidateEnvelope e = (case validateShape e of
     Some err \<Rightarrow> Some err
   | None \<Rightarrow>
       (if en_origin e = zeroOrigin then
          (if \<not> routeValid (en_source e) then Some RouteInvalid
           else if en_authority e \<noteq> PeerAuthority then Some QualificationInvalid
           else None)
        else if \<not> originOperator (en_origin e) then Some QualificationInvalid
        else if en_source e \<noteq> zeroRoute then Some RouteInvalid
        else if en_reply_to e \<noteq> '''' then Some CorrelationInvalid
        else if en_authority e \<noteq> OperatorAuthority then Some QualificationInvalid
        else if rt_provider (en_target e) \<noteq> ''claude'' then Some ErrOperatorOriginTargetNotClaude
        else None))"

definition sameSender :: "envelope \<Rightarrow> envelope \<Rightarrow> bool" where
  "sameSender e other =
     (if en_origin e = zeroOrigin \<or> en_origin other = zeroOrigin
      then en_origin e = en_origin other \<and> routeSame (en_source e) (en_source other)
      else originOperator (en_origin e) \<and> en_origin e = en_origin other
        \<and> en_source e = zeroRoute \<and> en_source other = zeroRoute)"

definition SameRetry :: "envelope \<Rightarrow> envelope \<Rightarrow> bool" where
  "SameRetry e candidate \<longleftrightarrow> en_version e = en_version candidate \<and> en_message e = en_message candidate
     \<and> en_conversation e = en_conversation candidate \<and> en_reply_to e = en_reply_to candidate
     \<and> sameSender e candidate \<and> routeSame (en_target e) (en_target candidate)
     \<and> en_authority e = en_authority candidate \<and> en_payload e = en_payload candidate
     \<and> en_deadline e - en_accepted e = en_deadline candidate - en_accepted candidate"

definition ReplyRoutes :: "envelope \<Rightarrow> envelope \<Rightarrow> envelope_error option" where
  "ReplyRoutes original reply = (let back = en_source reply; forth = en_target reply in
     if \<not> sameAgent back (en_target original) \<or> \<not> sameAgent forth (en_source original)
     then Some CorrelationInvalid
     else if rt_incarnation back \<noteq> rt_incarnation (en_target original)
       \<or> rt_incarnation forth \<noteq> rt_incarnation (en_source original)
     then Some ErrReplyConversationChanged
     else None)"

definition ValidateReply :: "envelope \<Rightarrow> envelope \<Rightarrow> envelope_error option" where
  "ValidateReply original reply = (case ValidateEnvelope original of
     Some err \<Rightarrow> Some err
   | None \<Rightarrow> if envelopeOperator original then Some ErrOperatorOriginReply
       else (case ValidateEnvelope reply of
          Some err \<Rightarrow> Some err
        | None \<Rightarrow> if en_reply_to reply \<noteq> en_message original \<or> en_conversation reply \<noteq> en_conversation original
              \<or> en_message reply = en_message original
            then Some CorrelationInvalid
            else ReplyRoutes original reply))"

section \<open>The public delivery reducer\<close>

datatype msg_state =
    MsgUnset | MsgAccepted | MsgHeld | MsgDelivered | MsgRefused | MsgExpired | MsgStale | MsgFailed
  | MsgStateOther string

fun msgTerminal :: "msg_state \<Rightarrow> bool" where
  "msgTerminal MsgDelivered = True"
| "msgTerminal MsgRefused = True"
| "msgTerminal MsgExpired = True"
| "msgTerminal MsgStale = True"
| "msgTerminal MsgFailed = True"
| "msgTerminal _ = False"

record msg_delivery =
  md_message :: string
  md_conversation :: string
  md_state :: msg_state
  md_reason :: string
  md_unknown :: bool
  md_accepted :: time
  md_terminal :: time

datatype msg_event_kind =
    MsgEventAccept | MsgEventHold | MsgEventDeliver | MsgEventRefuse | MsgEventExpire | MsgEventStale
  | MsgEventFail | MsgEventOther string

record msg_event =
  me_kind :: msg_event_kind
  me_message :: string
  me_conversation :: string
  me_target :: route
  me_reason :: string
  me_observed :: time
  me_unknown :: bool

text \<open>The trimming loop of \<open>boundedReason\<close>: drop bytes from the end until the rest is valid UTF-8.\<close>

function shrinkValid :: "string \<Rightarrow> string" where
  "shrinkValid value = (if utf8Valid value then value else shrinkValid (butlast value))"
  by auto
termination
proof (relation "measure length")
  fix v :: string
  assume "\<not> utf8Valid v"
  then have "v \<noteq> []" by (auto simp: utf8Valid_def)
  then show "(butlast v, v) \<in> measure length" by simp
qed simp

declare shrinkValid.simps [simp del]

definition boundedMsgReason :: "string \<Rightarrow> string" where
  "boundedMsgReason value0 = (let value = trimSpace value0 in
     if value = '''' then ''unspecified''
     else if length value > MaxRefBytes then shrinkValid (take MaxRefBytes value)
     else value)"

fun finalState :: "msg_event_kind \<Rightarrow> msg_state" where
  "finalState MsgEventDeliver = MsgDelivered"
| "finalState MsgEventRefuse = MsgRefused"
| "finalState MsgEventExpire = MsgExpired"
| "finalState MsgEventStale = MsgStale"
| "finalState MsgEventFail = MsgFailed"
| "finalState _ = MsgUnset"

definition ReduceMessage :: "msg_delivery \<Rightarrow> envelope \<Rightarrow> msg_event \<Rightarrow> msg_delivery \<times> bool" where
  "ReduceMessage current e ev =
     (if ValidateEnvelope e \<noteq> None \<or> me_message ev \<noteq> en_message e \<or> me_conversation ev \<noteq> en_conversation e
         \<or> \<not> routeSame (me_target ev) (en_target e) \<or> me_observed ev < en_accepted e
         \<or> (md_state current \<noteq> MsgUnset
             \<and> (md_message current \<noteq> en_message e \<or> md_conversation current \<noteq> en_conversation e))
         \<or> msgTerminal (md_state current)
      then (current, False)
      else if md_state current = MsgUnset then
        (if me_kind ev \<noteq> MsgEventAccept then (current, False)
         else (\<lparr>md_message = en_message e, md_conversation = en_conversation e, md_state = MsgAccepted,
                md_reason = '''', md_unknown = False, md_accepted = en_accepted e, md_terminal = zeroTime\<rparr>, True))
      else if me_kind ev = MsgEventHold then
        (if md_state current \<noteq> MsgAccepted then (current, False)
         else (current\<lparr>md_state := MsgHeld, md_reason := boundedMsgReason (me_reason ev)\<rparr>, True))
      else if me_kind ev \<in> {MsgEventDeliver, MsgEventRefuse, MsgEventExpire, MsgEventStale, MsgEventFail} then
        (if md_state current \<noteq> MsgAccepted \<and> md_state current \<noteq> MsgHeld then (current, False)
         else (current\<lparr>md_state := finalState (me_kind ev), md_reason := boundedMsgReason (me_reason ev),
                 md_unknown := (me_kind ev = MsgEventFail \<and> me_unknown ev),
                 md_terminal := me_observed ev\<rparr>, True))
      else (current, False))"

section \<open>The terminal-once contract\<close>

text \<open>How many state changes a delivery has left.\<close>

fun msgRank :: "msg_state \<Rightarrow> nat" where
  "msgRank MsgUnset = 3"
| "msgRank MsgAccepted = 2"
| "msgRank MsgHeld = 1"
| "msgRank _ = 0"

lemma finalState_terminal:
  "k \<in> {MsgEventDeliver, MsgEventRefuse, MsgEventExpire, MsgEventStale, MsgEventFail} \<Longrightarrow>
   msgTerminal (finalState k) \<and> msgRank (finalState k) = 0"
  by auto

lemma msgRank_live: "\<not> msgTerminal s \<Longrightarrow> s = MsgUnset \<or> s = MsgAccepted \<or> s = MsgHeld \<or> msgRank s = 0"
  by (cases s) auto

lemma ReduceMessage_terminal: "msgTerminal (md_state d) \<Longrightarrow> ReduceMessage d e ev = (d, False)"
  by (simp add: ReduceMessage_def)

lemma ReduceMessage_unchanged: "\<not> snd (ReduceMessage d e ev) \<Longrightarrow> fst (ReduceMessage d e ev) = d"
  by (auto simp: ReduceMessage_def split: if_splits)

lemma ReduceMessage_progress:
  "snd (ReduceMessage d e ev) \<Longrightarrow> msgRank (md_state (fst (ReduceMessage d e ev))) < msgRank (md_state d)"
  by (auto simp: ReduceMessage_def finalState_terminal split: if_splits)

interpretation messages: terminal_reducer
  "\<lambda>d ev. ReduceMessage d e ev" "\<lambda>d. msgTerminal (md_state d)" "\<lambda>d. msgRank (md_state d)" for e
  by unfold_locales (simp_all add: ReduceMessage_terminal ReduceMessage_unchanged ReduceMessage_progress)

definition initialMessage :: msg_delivery where
  "initialMessage = \<lparr>md_message = '''', md_conversation = '''', md_state = MsgUnset, md_reason = '''',
     md_unknown = False, md_accepted = zeroTime, md_terminal = zeroTime\<rparr>"

text \<open>What the reducer keeps: correlation and acceptance once accepted, and honest outcomes.\<close>

definition messageInv :: "envelope \<Rightarrow> msg_delivery \<Rightarrow> bool" where
  "messageInv e d \<longleftrightarrow>
     (md_state d = MsgUnset \<longrightarrow> d = initialMessage)
   \<and> (md_state d \<noteq> MsgUnset \<longrightarrow> ValidateEnvelope e = None \<and> md_message d = en_message e
        \<and> md_conversation d = en_conversation e \<and> md_accepted d = en_accepted e)
   \<and> (md_unknown d \<longrightarrow> md_state d = MsgFailed)
   \<and> (msgTerminal (md_state d) \<longrightarrow> md_accepted d \<le> md_terminal d)
   \<and> length (md_reason d) \<le> MaxRefBytes"

text \<open>The bound on reasons.\<close>

lemma shrinkValid_valid: "utf8Valid (shrinkValid v)"
  by (induction v rule: shrinkValid.induct) (subst shrinkValid.simps, simp)

lemma shrinkValid_take: "\<exists>n. shrinkValid v = take n v"
proof (induction v rule: shrinkValid.induct)
  case (1 v)
  show ?case
  proof (cases "utf8Valid v")
    case True
    then show ?thesis by (intro exI [of _ "length v"]) (simp add: shrinkValid.simps [of v])
  next
    case False
    with 1 obtain n where "shrinkValid (butlast v) = take n (butlast v)" by auto
    with False show ?thesis
      by (intro exI [of _ "min n (length v - 1)"]) (simp add: shrinkValid.simps [of v] butlast_conv_take)
  qed
qed

lemma shrinkValid_longest:
  "utf8Valid (take n v) \<Longrightarrow> n \<le> length v \<Longrightarrow> n \<le> length (shrinkValid v)"
proof (induction v rule: shrinkValid.induct)
  case (1 v)
  show ?case
  proof (cases "utf8Valid v")
    case True
    with 1 show ?thesis by (simp add: shrinkValid.simps [of v])
  next
    case False
    with 1 have "n < length v" by (metis le_neq_implies_less order_refl take_all)
    with 1 False show ?thesis by (simp add: shrinkValid.simps [of v] take_butlast)
  qed
qed

lemma boundedMsgReason_length: "length (boundedMsgReason v) \<le> MaxRefBytes"
proof -
  obtain n where "shrinkValid (take MaxRefBytes (trimSpace v)) = take n (take MaxRefBytes (trimSpace v))"
    using shrinkValid_take by blast
  then show ?thesis by (auto simp: boundedMsgReason_def Let_def MaxRefBytes_def)
qed

lemma ReduceMessage_inv:
  assumes "messageInv e d"
  shows "messageInv e (fst (ReduceMessage d e ev))"
proof (cases "snd (ReduceMessage d e ev)")
  case False
  with assms show ?thesis by (simp add: ReduceMessage_unchanged)
next
  case True
  with assms show ?thesis
    by (cases "me_kind ev")
      (auto simp: ReduceMessage_def messageInv_def initialMessage_def boundedMsgReason_length split: if_splits)
qed

text \<open>The delivery of one envelope after a sequence of events, from nothing.\<close>

definition runMessages :: "envelope \<Rightarrow> msg_event list \<Rightarrow> msg_delivery" where
  "runMessages e evs = foldl (\<lambda>d ev. fst (ReduceMessage d e ev)) initialMessage evs"

lemma runMessages_runAll: "runMessages e evs = messages.runAll e initialMessage evs"
  by (simp add: runMessages_def messages.runAll_def)

lemma runMessages_inv: "messageInv e (runMessages e evs)"
  unfolding runMessages_runAll
  by (rule messages.invariant_runAll)
    (simp_all add: ReduceMessage_inv, simp add: messageInv_def initialMessage_def)

section \<open>Properties\<close>

text \<open>A sample exchange between two Agents.\<close>

definition demoRoute :: "string \<Rightarrow> route" where
  "demoRoute agent = \<lparr>rt_agent = agent, rt_pane = agent @ ''-pane'', rt_generation = ''g1'',
     rt_provider = ''claude'', rt_incarnation = ''i1''\<rparr>"

definition demoEnvelope :: envelope where
  "demoEnvelope = \<lparr>en_version = 2, en_message = ''m1'', en_conversation = ''c1'', en_reply_to = '''',
     en_origin = zeroOrigin, en_source = demoRoute ''alice'', en_target = demoRoute ''bob'',
     en_authority = PeerAuthority, en_payload = ''hello'', en_accepted = 10, en_deadline = 100\<rparr>"

definition demoReply :: envelope where
  "demoReply = demoEnvelope\<lparr>en_message := ''m2'', en_reply_to := ''m1'',
     en_source := demoRoute ''bob'', en_target := demoRoute ''alice''\<rparr>"

definition demoEvent :: "msg_event_kind \<Rightarrow> msg_event" where
  "demoEvent k = \<lparr>me_kind = k, me_message = ''m1'', me_conversation = ''c1'', me_target = demoRoute ''bob'',
     me_reason = '' ok '', me_observed = 20, me_unknown = True\<rparr>"

text \<open>C19: A message delivery settles once: whatever events arrive, in any order and any number, the state
  changes at most three times, and from the first terminal state on no event changes the record.\<close>

theorem message_delivery_settles_once:
  "messages.changes e initialMessage evs \<le> 3
   \<and> (msgTerminal (md_state (runMessages e evs)) \<longrightarrow> runMessages e (evs @ later) = runMessages e evs)"
  using messages.changes_bounded [of e initialMessage evs] messages.terminal_once [of e initialMessage evs later]
  by (simp add: runMessages_runAll) (simp add: initialMessage_def)

theorem message_delivery_settles_once_witness:
  "msgTerminal (md_state (runMessages demoEnvelope (map demoEvent [MsgEventAccept, MsgEventFail])))
   \<and> runMessages demoEnvelope (map demoEvent [MsgEventAccept, MsgEventFail] @ map demoEvent [MsgEventDeliver])
     = runMessages demoEnvelope (map demoEvent [MsgEventAccept, MsgEventFail])"
proof -
  have "msgTerminal (md_state (runMessages demoEnvelope (map demoEvent [MsgEventAccept, MsgEventFail])))"
    by code_simp
  with message_delivery_settles_once [of demoEnvelope "map demoEvent [MsgEventAccept, MsgEventFail]"
      "map demoEvent [MsgEventDeliver]"]
  show ?thesis by blast
qed

text \<open>Whatever events arrive, a delivery that left the unset state belongs to a valid envelope and carries
  its message, conversation and acceptance time; only a failed delivery may say its outcome is
  unknown; a terminal one is stamped at or after the acceptance; and the reason is at most 160 bytes.\<close>

theorem message_delivery_is_honest:
  "messageInv e (runMessages e evs)"
  by (rule runMessages_inv)

text \<open>C26: A truncated refusal reason of well-formed text is well-formed again, and loses at most three bytes
  of the 160 it is allowed.\<close>

theorem message_reason_bound:
  assumes "utf8Valid v"
  shows "utf8Valid (boundedMsgReason v) \<and> length (boundedMsgReason v) \<le> 160
    \<and> (length (trimSpace v) > 160 \<longrightarrow> length (boundedMsgReason v) \<ge> 157)"
proof (intro conjI impI)
  have trim: "utf8Valid (trimSpace v)" by (rule utf8Valid_trimSpace [OF assms])
  show "utf8Valid (boundedMsgReason v)"
    using trim by (auto simp: boundedMsgReason_def Let_def shrinkValid_valid) (code_simp)
  show "length (boundedMsgReason v) \<le> 160"
    using boundedMsgReason_length [of v] by (simp add: MaxRefBytes_def)
  assume long: "length (trimSpace v) > 160"
  from utf8_cut [OF trim, of 160] long obtain k where
    k: "k \<le> 3" "utf8Valid (take (160 - k) (trimSpace v))" by auto
  then have "utf8Valid (take (160 - k) (take 160 (trimSpace v)))" by (simp add: min_def)
  moreover have "trimSpace v \<noteq> []" using long by auto
  ultimately show "length (boundedMsgReason v) \<ge> 157"
    using shrinkValid_longest [of "160 - k" "take 160 (trimSpace v)"] k(1) long
    by (simp add: boundedMsgReason_def Let_def MaxRefBytes_def)
qed

text \<open>160 bytes end in the middle of the last letter of this reason.\<close>

definition demoLongReason :: string where
  "demoLongReason = replicate 159 CHR ''a'' @ [CHR 0xC3, CHR 0xA9]"

theorem message_reason_bound_witness:
  "utf8Valid demoLongReason \<and> utf8Valid (boundedMsgReason demoLongReason)
   \<and> boundedMsgReason demoLongReason = replicate 159 CHR ''a''"
proof -
  have v: "utf8Valid demoLongReason" by code_simp
  have "boundedMsgReason demoLongReason = replicate 159 CHR ''a''" by code_simp
  with v message_reason_bound [OF v] show ?thesis by blast
qed

text \<open>What an accepted envelope is.\<close>

lemma ValidRef_nonempty [simp]: "\<not> ValidRef ''''"
  by (simp add: ValidRef_def)

lemma zeroRoute_invalid [simp]: "\<not> routeValid zeroRoute"
  by (simp add: routeValid_def zeroRoute_def)

lemma ValidateEnvelope_shape:
  "ValidateEnvelope e = None \<Longrightarrow> validateShape e = None"
  by (simp add: ValidateEnvelope_def split: option.splits)

lemma validateShape_ref:
  "validateShape e = None \<Longrightarrow> ValidRef (en_message e) \<and> routeValid (en_target e) \<and> validateLifetime e = None
     \<and> payloadRefusal (en_payload e) = None"
  by (simp add: validateShape_def split: if_splits option.splits)

lemma ValidateEnvelope_sender:
  assumes "ValidateEnvelope e = None"
  shows "en_origin e = zeroOrigin \<and> routeValid (en_source e) \<and> en_authority e = PeerAuthority
    \<or> envelopeOperator e \<and> en_origin e \<noteq> zeroOrigin \<and> en_source e = zeroRoute \<and> en_reply_to e = ''''
      \<and> en_authority e = OperatorAuthority \<and> rt_provider (en_target e) = ''claude''"
  using assms by (simp add: ValidateEnvelope_def envelopeOperator_def split: option.splits if_splits)

text \<open>C18: An accepted envelope, whoever sent it, grants coordination only: its authority is untrusted, its
  lifetime is positive and at most a day, its payload is 1 to 4096 bytes of well-formed text without
  NUL, and what its kind of sender is allowed by the authority matrix is sending, reading and replying
  to coordination messages and nothing else.\<close>

theorem accepted_envelope_is_coordination_only:
  assumes "ValidateEnvelope e = None"
  shows "au_trust (en_authority e) = ''untrusted'' \<and> au_permission (en_authority e) = ''coordination-only''
    \<and> 0 < en_deadline e - en_accepted e \<and> en_deadline e - en_accepted e \<le> MaxTTL
    \<and> 0 < length (en_payload e) \<and> length (en_payload e) \<le> MaxPayloadBytes \<and> utf8Valid (en_payload e)
    \<and> 0 \<notin> set (runesOf (en_payload e))
    \<and> {a. AuthorizeMessage (if envelopeOperator e then PrincipalOperator else PrincipalPeer) a}
        \<subseteq> {ActionCoordinationSend, ActionCoordinationRead, ActionCoordinationReply}"
proof -
  from validateShape_ref [OF ValidateEnvelope_shape [OF assms]]
  have l: "validateLifetime e = None" and p: "payloadRefusal (en_payload e) = None" by auto
  have a: "en_authority e \<in> {PeerAuthority, OperatorAuthority}"
    using ValidateEnvelope_sender [OF assms] by auto
  from a have "au_trust (en_authority e) = ''untrusted'' \<and> au_permission (en_authority e) = ''coordination-only''"
    by (auto simp: PeerAuthority_def OperatorAuthority_def)
  moreover from l have "0 < en_deadline e - en_accepted e \<and> en_deadline e - en_accepted e \<le> MaxTTL"
    by (simp add: validateLifetime_def split: if_splits)
  moreover from p have "0 < length (en_payload e) \<and> length (en_payload e) \<le> MaxPayloadBytes
      \<and> utf8Valid (en_payload e) \<and> 0 \<notin> set (runesOf (en_payload e))"
    by (auto simp: payloadRefusal_def list_ex_iff split: if_splits)
  moreover have "{a. AuthorizeMessage (if envelopeOperator e then PrincipalOperator else PrincipalPeer) a}
        \<subseteq> {ActionCoordinationSend, ActionCoordinationRead, ActionCoordinationReply}"
    by (auto simp: AuthorizeMessage_def split: if_splits)
  ultimately show ?thesis by blast
qed

theorem accepted_envelope_is_coordination_only_witness:
  "ValidateEnvelope demoEnvelope = None \<and> en_deadline demoEnvelope - en_accepted demoEnvelope \<le> MaxTTL"
proof -
  have "ValidateEnvelope demoEnvelope = None" by code_simp
  with accepted_envelope_is_coordination_only [OF this] show ?thesis by blast
qed



text \<open>C24: A retry of an accepted envelope is the same message: the relation is reflexive on accepted envelopes,
  symmetric and transitive, and a retry with set times is itself accepted.\<close>

theorem retry_is_an_equivalence:
  "(ValidateEnvelope e = None \<longrightarrow> SameRetry e e)
   \<and> (SameRetry e f \<longrightarrow> SameRetry f e)
   \<and> (SameRetry e f \<longrightarrow> SameRetry f g \<longrightarrow> SameRetry e g)
   \<and> (SameRetry e f \<longrightarrow> ValidateEnvelope e = None \<longrightarrow> \<not> timeIsZero (en_accepted f) \<longrightarrow>
        \<not> timeIsZero (en_deadline f) \<longrightarrow> ValidateEnvelope f = None)"
proof (intro conjI impI)
  show "SameRetry e e" if "ValidateEnvelope e = None"
    using ValidateEnvelope_sender [OF that] validateShape_ref [OF ValidateEnvelope_shape [OF that]]
    by (auto simp: SameRetry_def sameSender_def routeSame_def envelopeOperator_def)
  show "SameRetry f e" if "SameRetry e f"
    using that by (auto simp: SameRetry_def sameSender_def routeSame_def split: if_splits)
  show "SameRetry e g" if "SameRetry e f" "SameRetry f g"
    using that by (auto simp: SameRetry_def sameSender_def routeSame_def split: if_splits)
  assume same: "SameRetry e f" and valid: "ValidateEnvelope e = None"
    and times: "\<not> timeIsZero (en_accepted f)" "\<not> timeIsZero (en_deadline f)"
  from same have eqs: "en_version f = en_version e" "en_message f = en_message e"
      "en_conversation f = en_conversation e" "en_reply_to f = en_reply_to e" "en_target f = en_target e"
      "en_authority f = en_authority e" "en_payload f = en_payload e" "en_origin f = en_origin e"
      "en_source f = en_source e" "en_deadline e - en_accepted e = en_deadline f - en_accepted f"
    by (auto simp: SameRetry_def sameSender_def routeSame_def split: if_splits)
  have "validateLifetime e = None"
    using validateShape_ref [OF ValidateEnvelope_shape [OF valid]] by simp
  with eqs(10) times have "validateLifetime f = None"
    by (simp add: validateLifetime_def split: if_splits)
  with \<open>validateLifetime e = None\<close> eqs have "validateShape f = validateShape e"
    by (simp add: validateShape_def split: option.split)
  with eqs have "ValidateEnvelope f = ValidateEnvelope e" unfolding ValidateEnvelope_def by (simp only:)
  with valid show "ValidateEnvelope f = None" by simp
qed

theorem retry_is_an_equivalence_witness:
  "ValidateEnvelope demoEnvelope = None \<and> SameRetry demoEnvelope demoEnvelope
   \<and> SameRetry demoEnvelope (demoEnvelope\<lparr>en_accepted := 20, en_deadline := 110\<rparr>)
   \<and> ValidateEnvelope (demoEnvelope\<lparr>en_accepted := 20, en_deadline := 110\<rparr>) = None"
proof -
  let ?f = "demoEnvelope\<lparr>en_accepted := 20, en_deadline := 110\<rparr>"
  have v: "ValidateEnvelope demoEnvelope = None" by code_simp
  have s: "SameRetry demoEnvelope ?f" by code_simp
  have t: "\<not> timeIsZero (en_accepted ?f)" "\<not> timeIsZero (en_deadline ?f)" by code_simp+
  from retry_is_an_equivalence [of demoEnvelope ?f demoEnvelope] v s t show ?thesis by blast
qed

text \<open>No principal holds another's authority: a peer and an operator hold nothing a human does not, only
  the approval reviewer reviews approvals, only the provider runtime uses tools or writes model
  history, the two share nothing with anyone, every action of the vocabulary is granted to somebody,
  and an unlisted principal or action is refused.\<close>

theorem authority_domains_are_disjoint:
  "{a. AuthorizeMessage PrincipalOperator a} \<subseteq> {a. AuthorizeMessage PrincipalPeer a}
   \<and> {a. AuthorizeMessage PrincipalPeer a} \<subseteq> {a. AuthorizeMessage PrincipalHuman a}
   \<and> {p. AuthorizeMessage p ActionApprovalReview} = {PrincipalApprovalReviewer}
   \<and> {p. AuthorizeMessage p ActionToolOrConnector} = {PrincipalProviderRuntime}
   \<and> {p. AuthorizeMessage p ActionModelHistoryWrite} = {PrincipalProviderRuntime}
   \<and> {a. AuthorizeMessage PrincipalHuman a} \<inter> {a. AuthorizeMessage PrincipalProviderRuntime a} = {}
   \<and> (\<Union>p. {a. AuthorizeMessage p a}) = set Actions
   \<and> {p. \<exists>a. AuthorizeMessage p a} = set Principals"
proof (intro conjI)
  show "(\<Union>p. {a. AuthorizeMessage p a}) = set Actions" (is "?l = ?r")
  proof
    show "?l \<subseteq> ?r" by (auto simp: AuthorizeMessage_def)
    have "\<exists>p. AuthorizeMessage p a" if "a \<in> set Actions" for a
      using that by (intro exI [of _ "if a = ActionApprovalReview then PrincipalApprovalReviewer
          else if a \<in> {ActionToolOrConnector, ActionModelHistoryWrite} then PrincipalProviderRuntime
          else PrincipalHuman"])
        (auto simp: AuthorizeMessage_def Actions_def Principals_def)
    then show "?r \<subseteq> ?l" by auto
  qed
  have "\<exists>a. AuthorizeMessage p a" if "p \<in> set Principals" for p
    using that by (intro exI [of _ "if p = PrincipalApprovalReviewer then ActionApprovalReview
        else if p = PrincipalProviderRuntime then ActionToolOrConnector else ActionCoordinationSend"])
      (auto simp: AuthorizeMessage_def Actions_def Principals_def)
  moreover have "p \<in> set Principals" if "AuthorizeMessage p a" for p a
    using that by (auto simp: AuthorizeMessage_def split: if_splits)
  ultimately show "{p. \<exists>a. AuthorizeMessage p a} = set Principals" by blast
qed (auto simp: AuthorizeMessage_def Principals_def Actions_def split: if_splits principal.splits)

end
