(* ===== verification/Delivery.thy ===== *)
theory Delivery
  imports Messages
begin

text \<open>
  \<^verbatim>\<open>internal/core/agentdelivery/reducer.go\<close>: the private provider-final-hop lifecycle of one message, from
  the queue through the handoff to a provider pipe. It instantiates the \<open>terminal_reducer\<close> contract.
\<close>

section \<open>States and events\<close>

text \<open>\<open>StUnset\<close> is the empty string of a zero \<open>Delivery\<close>, \<open>StOther\<close> any string outside the vocabulary.\<close>

datatype delivery_state =
    StUnset | StQueued | StHeld | StHandoff | StDelivered | StRefused | StExpired | StStale | StFailed
  | StOther string

fun stateTerminal :: "delivery_state \<Rightarrow> bool" where
  "stateTerminal StDelivered = True"
| "stateTerminal StRefused = True"
| "stateTerminal StExpired = True"
| "stateTerminal StStale = True"
| "stateTerminal StFailed = True"
| "stateTerminal _ = False"

datatype delivery_event_kind =
    EventQueue | EventHold | EventBeginHandoff | EventDeliver | EventRefuse | EventExpire | EventStale
  | EventFail | EventOther string

record delivery =
  dl_message :: string
  dl_state :: delivery_state
  dl_waiter :: string
  dl_reason :: string
  dl_ambiguous :: bool

record delivery_event =
  de_kind :: delivery_event_kind
  de_message :: string
  de_waiter :: string
  de_reason :: string
  de_full_frame :: bool
  de_receipt :: bool
  de_outcome_known :: bool

definition zeroDelivery :: delivery where
  "zeroDelivery = \<lparr>dl_message = '''', dl_state = StUnset, dl_waiter = '''', dl_reason = '''', dl_ambiguous = False\<rparr>"

definition boundedReason :: "string \<Rightarrow> string" where
  "boundedReason value0 = (let value = trimSpace value0 in
     if value = '''' then ''unspecified''
     else if length value > 160 then take 160 value
     else value)"

section \<open>The reducer\<close>

text \<open>\<open>waiting\<close> is the test "queued or held" that four events share.\<close>

definition waiting :: "delivery \<Rightarrow> bool" where
  "waiting d \<longleftrightarrow> dl_state d = StQueued \<or> dl_state d = StHeld"

definition applyEvent :: "delivery \<Rightarrow> delivery_event \<Rightarrow> delivery \<times> bool" where
  "applyEvent current ev = (case de_kind ev of
     EventHold \<Rightarrow>
       if dl_state current \<noteq> StQueued then (current, False)
       else (current\<lparr>dl_state := StHeld, dl_reason := boundedReason (de_reason ev)\<rparr>, True)
   | EventBeginHandoff \<Rightarrow>
       if \<not> waiting current \<or> \<not> ValidRef (de_waiter ev) then (current, False)
       else (current\<lparr>dl_state := StHandoff, dl_waiter := de_waiter ev, dl_reason := ''''\<rparr>, True)
   | EventDeliver \<Rightarrow>
       if dl_state current \<noteq> StHandoff \<or> de_waiter ev \<noteq> dl_waiter current
         \<or> \<not> de_full_frame ev \<or> \<not> de_receipt ev then (current, False)
       else (current\<lparr>dl_state := StDelivered, dl_reason := ''provider-pipe-full-frame''\<rparr>, True)
   | EventRefuse \<Rightarrow>
       if \<not> waiting current then (current, False)
       else (current\<lparr>dl_state := StRefused, dl_reason := boundedReason (de_reason ev)\<rparr>, True)
   | EventExpire \<Rightarrow>
       if dl_state current = StHandoff
       then (current\<lparr>dl_state := StFailed, dl_reason := ''observation-timeout'', dl_ambiguous := True\<rparr>, True)
       else if waiting current
       then (current\<lparr>dl_state := StExpired, dl_reason := boundedReason (de_reason ev)\<rparr>, True)
       else (current, False)
   | EventStale \<Rightarrow>
       if dl_state current = StHandoff
       then (current\<lparr>dl_state := StFailed, dl_reason := ''delivery-outcome-unknown'', dl_ambiguous := True\<rparr>, True)
       else if waiting current
       then (current\<lparr>dl_state := StStale, dl_reason := boundedReason (de_reason ev)\<rparr>, True)
       else (current, False)
   | EventFail \<Rightarrow>
       if \<not> waiting current \<and> dl_state current \<noteq> StHandoff then (current, False)
       else (current\<lparr>dl_state := StFailed, dl_reason := boundedReason (de_reason ev),
                dl_ambiguous := (dl_state current = StHandoff \<and> \<not> de_outcome_known ev)\<rparr>, True)
   | _ \<Rightarrow> (current, False))"

definition Reduce :: "delivery \<Rightarrow> delivery_event \<Rightarrow> delivery \<times> bool" where
  "Reduce current ev =
     (if \<not> ValidRef (de_message ev) \<or> (dl_message current \<noteq> '''' \<and> de_message ev \<noteq> dl_message current)
         \<or> stateTerminal (dl_state current)
      then (current, False)
      else if dl_message current = '''' then
        (if de_kind ev \<noteq> EventQueue then (current, False)
         else (zeroDelivery\<lparr>dl_message := de_message ev, dl_state := StQueued\<rparr>, True))
      else applyEvent current ev)"

section \<open>The contract\<close>

text \<open>The changes a delivery has left: 4 while it names no message.\<close>

definition deliveryRank :: "delivery \<Rightarrow> nat" where
  "deliveryRank d =
     (if stateTerminal (dl_state d) then 0
      else if dl_message d = '''' then 4
      else case dl_state d of StQueued \<Rightarrow> 3 | StHeld \<Rightarrow> 2 | StHandoff \<Rightarrow> 1 | _ \<Rightarrow> 0)"

lemma applyEvent_unchanged: "\<not> snd (applyEvent d ev) \<Longrightarrow> fst (applyEvent d ev) = d"
  by (auto simp: applyEvent_def split: delivery_event_kind.splits if_splits)

lemma applyEvent_progress:
  "snd (applyEvent d ev) \<Longrightarrow> dl_message d \<noteq> '''' \<Longrightarrow> deliveryRank (fst (applyEvent d ev)) < deliveryRank d"
  by (auto simp: applyEvent_def deliveryRank_def waiting_def split: delivery_event_kind.splits if_splits)

lemma applyEvent_message [simp]: "dl_message (fst (applyEvent d ev)) = dl_message d"
  by (auto simp: applyEvent_def split: delivery_event_kind.splits)

lemma Reduce_terminal: "stateTerminal (dl_state d) \<Longrightarrow> Reduce d ev = (d, False)"
  by (simp add: Reduce_def)

lemma Reduce_unchanged: "\<not> snd (Reduce d ev) \<Longrightarrow> fst (Reduce d ev) = d"
  by (auto simp: Reduce_def applyEvent_unchanged split: if_splits)

lemma Reduce_progress: "snd (Reduce d ev) \<Longrightarrow> deliveryRank (fst (Reduce d ev)) < deliveryRank d"
  by (auto simp: Reduce_def applyEvent_progress split: if_splits)
    (auto simp: deliveryRank_def)

interpretation deliveries: terminal_reducer Reduce "\<lambda>d. stateTerminal (dl_state d)" deliveryRank
  by unfold_locales (simp_all add: Reduce_terminal Reduce_unchanged Reduce_progress)

section \<open>What a delivery is evidence of\<close>

text \<open>
  \<open>provenWrite evs m w\<close>: some event of the sequence is a delivery of message \<open>m\<close> by waiter \<open>w\<close> with the
  full frame written and the helper's receipt, after an event that handed \<open>m\<close> to \<open>w\<close>.
\<close>

definition handedTo :: "delivery_event \<Rightarrow> string \<Rightarrow> string \<Rightarrow> bool" where
  "handedTo ev m w \<longleftrightarrow> de_kind ev = EventBeginHandoff \<and> de_message ev = m \<and> de_waiter ev = w"

definition receiptFor :: "delivery_event \<Rightarrow> string \<Rightarrow> string \<Rightarrow> bool" where
  "receiptFor ev m w \<longleftrightarrow> de_kind ev = EventDeliver \<and> de_message ev = m \<and> de_waiter ev = w
     \<and> de_full_frame ev \<and> de_receipt ev"

fun handed :: "delivery_event list \<Rightarrow> string \<Rightarrow> string \<Rightarrow> bool" where
  "handed [] m w = False"
| "handed (ev # evs) m w \<longleftrightarrow> handedTo ev m w \<or> handed evs m w"

fun provenWrite :: "delivery_event list \<Rightarrow> string \<Rightarrow> string \<Rightarrow> bool" where
  "provenWrite [] m w = False"
| "provenWrite (ev # evs) m w \<longleftrightarrow>
     (handedTo ev m w \<and> list_ex (\<lambda>e. receiptFor e m w) evs) \<or> provenWrite evs m w"

definition queuedIn :: "delivery_event list \<Rightarrow> string \<Rightarrow> bool" where
  "queuedIn evs m \<longleftrightarrow> (\<exists>ev \<in> set evs. de_kind ev = EventQueue \<and> de_message ev = m)"

definition failedKnown :: "delivery_event list \<Rightarrow> string \<Rightarrow> bool" where
  "failedKnown evs m \<longleftrightarrow> (\<exists>ev \<in> set evs. de_kind ev = EventFail \<and> de_message ev = m \<and> de_outcome_known ev)"

lemma queuedIn_append [simp]: "queuedIn (evs @ [ev]) m \<longleftrightarrow> queuedIn evs m \<or> de_kind ev = EventQueue \<and> de_message ev = m"
  by (auto simp: queuedIn_def)

lemma failedKnown_append [simp]:
  "failedKnown (evs @ [ev]) m \<longleftrightarrow> failedKnown evs m \<or> de_kind ev = EventFail \<and> de_message ev = m \<and> de_outcome_known ev"
  by (auto simp: failedKnown_def)

lemma handed_append [simp]: "handed (evs @ fs) m w \<longleftrightarrow> handed evs m w \<or> handed fs m w"
  by (induction evs) auto

lemma provenWrite_append [simp]:
  "provenWrite (evs @ [ev]) m w \<longleftrightarrow> provenWrite evs m w \<or> handed evs m w \<and> receiptFor ev m w"
  by (induction evs) auto

text \<open>The invariant ties a record to the events that led to it.\<close>

definition deliveryInv :: "delivery_event list \<Rightarrow> delivery \<Rightarrow> bool" where
  "deliveryInv evs d \<longleftrightarrow>
     (dl_message d = '''' \<longrightarrow> d = zeroDelivery)
   \<and> (dl_message d \<noteq> '''' \<longrightarrow> dl_state d \<noteq> StUnset \<and> ValidRef (dl_message d)
        \<and> queuedIn evs (dl_message d) \<and> (\<forall>s. dl_state d \<noteq> StOther s))
   \<and> (dl_waiter d \<noteq> '''' \<longrightarrow> handed evs (dl_message d) (dl_waiter d))
   \<and> (dl_state d = StHandoff \<longrightarrow> dl_waiter d \<noteq> '''')
   \<and> (dl_state d \<in> {StQueued, StHeld, StRefused, StExpired, StStale} \<longrightarrow> dl_waiter d = '''')
   \<and> (dl_state d = StDelivered \<longrightarrow> provenWrite evs (dl_message d) (dl_waiter d))
   \<and> (dl_ambiguous d \<longrightarrow> dl_state d = StFailed \<and> dl_waiter d \<noteq> '''')
   \<and> (dl_state d = StFailed \<longrightarrow> dl_waiter d \<noteq> '''' \<longrightarrow> \<not> dl_ambiguous d \<longrightarrow>
        failedKnown evs (dl_message d))
   \<and> length (dl_reason d) \<le> 160"

definition runDelivery :: "delivery_event list \<Rightarrow> delivery" where
  "runDelivery evs = foldl (\<lambda>d ev. fst (Reduce d ev)) zeroDelivery evs"

lemma runDelivery_runAll: "runDelivery evs = deliveries.runAll zeroDelivery evs"
  by (simp add: runDelivery_def deliveries.runAll_def)

lemma boundedReason_length: "length (boundedReason v) \<le> 160"
  by (simp add: boundedReason_def Let_def)

lemma applyEvent_inv:
  assumes "deliveryInv evs d" and "dl_message d \<noteq> ''''" and "de_message ev = dl_message d"
  shows "deliveryInv (evs @ [ev]) (fst (applyEvent d ev))"
  using assms unfolding deliveryInv_def
  by (cases "de_kind ev"; cases "dl_state d")
    (auto simp: applyEvent_def waiting_def boundedReason_length handedTo_def receiptFor_def)

lemma deliveryInv_more: "deliveryInv evs d \<Longrightarrow> deliveryInv (evs @ [ev]) d"
  by (auto simp: deliveryInv_def)

lemma Reduce_first:
  "snd (Reduce d ev) \<Longrightarrow> dl_message d = '''' \<Longrightarrow>
   fst (Reduce d ev) = zeroDelivery\<lparr>dl_message := de_message ev, dl_state := StQueued\<rparr>
     \<and> de_kind ev = EventQueue \<and> ValidRef (de_message ev)"
  by (simp add: Reduce_def split: if_splits)

lemma Reduce_inv:
  assumes "deliveryInv evs d"
  shows "deliveryInv (evs @ [ev]) (fst (Reduce d ev))"
proof (cases "snd (Reduce d ev) \<and> dl_message d \<noteq> ''''")
  case True
  then have "Reduce d ev = applyEvent d ev" "de_message ev = dl_message d"
    by (auto simp: Reduce_def split: if_splits)
  with applyEvent_inv [OF assms] True show ?thesis by auto
next
  case False
  then show ?thesis
  proof (cases "snd (Reduce d ev)")
    case True
    with False have "dl_message d = ''''" by simp
    from Reduce_first [OF True this]
    have "fst (Reduce d ev) = zeroDelivery\<lparr>dl_message := de_message ev, dl_state := StQueued\<rparr>"
      "de_kind ev = EventQueue" "ValidRef (de_message ev)" by blast+
    moreover have "deliveryInv (evs @ [ev]) (zeroDelivery\<lparr>dl_message := de_message ev, dl_state := StQueued\<rparr>)"
      if "de_kind ev = EventQueue" "ValidRef (de_message ev)"
      unfolding deliveryInv_def using that by (auto simp: zeroDelivery_def)
    ultimately show ?thesis by simp
  qed (simp add: Reduce_unchanged deliveryInv_more assms)
qed

lemma runDelivery_inv: "deliveryInv evs (runDelivery evs)"
proof (induction evs rule: rev_induct)
  case Nil
  then show ?case by (simp add: runDelivery_def deliveryInv_def zeroDelivery_def)
next
  case (snoc ev evs)
  with Reduce_inv [OF snoc, of ev] show ?case by (simp add: runDelivery_def)
qed

section \<open>Properties\<close>

definition demoDelivery :: "delivery_event_kind \<Rightarrow> delivery_event" where
  "demoDelivery k = \<lparr>de_kind = k, de_message = ''m1'', de_waiter = ''w1'', de_reason = ''late'',
     de_full_frame = True, de_receipt = True, de_outcome_known = False\<rparr>"

definition demoDelivered :: "delivery_event list" where
  "demoDelivered = map demoDelivery [EventQueue, EventHold, EventBeginHandoff, EventDeliver]"

text \<open>C20: A provider delivery settles once: over any sequence of events the state changes at most four times,
  and from the first terminal state on no event changes the record.\<close>

theorem provider_delivery_settles_once:
  "deliveries.changes zeroDelivery evs \<le> 4
   \<and> (stateTerminal (dl_state (runDelivery evs)) \<longrightarrow> runDelivery (evs @ later) = runDelivery evs)"
  using deliveries.changes_bounded [of zeroDelivery evs] deliveries.terminal_once [of zeroDelivery evs later]
  by (simp add: runDelivery_runAll) (simp add: deliveryRank_def zeroDelivery_def)

theorem provider_delivery_settles_once_witness:
  "stateTerminal (dl_state (runDelivery demoDelivered))
   \<and> runDelivery (demoDelivered @ [demoDelivery EventFail]) = runDelivery demoDelivered"
proof -
  have "stateTerminal (dl_state (runDelivery demoDelivered))" by code_simp
  with provider_delivery_settles_once [of demoDelivered "[demoDelivery EventFail]"] show ?thesis by blast
qed

text \<open>C12: Delivered is proof: a delivery ends delivered only if its message was queued, was handed to its waiter,
  and after that handoff the same waiter reported the full frame written with the helper's receipt.\<close>

theorem delivered_means_written:
  assumes "dl_state (runDelivery evs) = StDelivered"
  shows "provenWrite evs (dl_message (runDelivery evs)) (dl_waiter (runDelivery evs))
    \<and> queuedIn evs (dl_message (runDelivery evs)) \<and> \<not> dl_ambiguous (runDelivery evs)"
  using runDelivery_inv [of evs] assms by (auto simp: deliveryInv_def zeroDelivery_def)

theorem delivered_means_written_witness:
  "dl_state (runDelivery demoDelivered) = StDelivered \<and> provenWrite demoDelivered ''m1'' ''w1''"
proof -
  have s: "dl_state (runDelivery demoDelivered) = StDelivered \<and> dl_message (runDelivery demoDelivered) = ''m1''
      \<and> dl_waiter (runDelivery demoDelivered) = ''w1''" by code_simp
  with delivered_means_written [of demoDelivered] show ?thesis by auto
qed

text \<open>C13: Once a delivery was handed to a waiter it is never reported refused, expired or stale, the outcomes
  that say nothing was written: it is in handoff, delivered, or failed, and a failure is marked
  ambiguous unless a failure event of that message stated a known outcome. Without a handoff nothing
  is ever ambiguous.\<close>

theorem handed_off_outcomes_are_honest:
  "(dl_waiter (runDelivery evs) \<noteq> '''' \<longrightarrow>
      dl_state (runDelivery evs) \<in> {StHandoff, StDelivered, StFailed})
   \<and> (dl_waiter (runDelivery evs) = '''' \<longrightarrow> \<not> dl_ambiguous (runDelivery evs))
   \<and> (dl_state (runDelivery evs) = StFailed \<longrightarrow> dl_waiter (runDelivery evs) \<noteq> '''' \<longrightarrow>
        dl_ambiguous (runDelivery evs)
        \<or> failedKnown evs (dl_message (runDelivery evs)))"
  using runDelivery_inv [of evs]
  by (cases "dl_state (runDelivery evs)") (auto simp: deliveryInv_def zeroDelivery_def)

definition demoAmbiguous :: "delivery_event list" where
  "demoAmbiguous = map demoDelivery [EventQueue, EventBeginHandoff, EventExpire]"

theorem handed_off_outcomes_are_honest_witness:
  "dl_waiter (runDelivery demoAmbiguous) \<noteq> '''' \<and> dl_state (runDelivery demoAmbiguous) = StFailed
   \<and> dl_ambiguous (runDelivery demoAmbiguous)"
proof -
  have s: "dl_waiter (runDelivery demoAmbiguous) \<noteq> ''''" "dl_state (runDelivery demoAmbiguous) = StFailed"
    "\<not> failedKnown demoAmbiguous (dl_message (runDelivery demoAmbiguous))" by code_simp+
  with handed_off_outcomes_are_honest [of demoAmbiguous] show ?thesis by blast
qed

text \<open>The reason of a delivery is cut at 160 bytes without regard for rune boundaries: a well-formed reason
  can leave a record that is not well-formed UTF-8, where the message reducer keeps it well-formed.\<close>

theorem delivery_reason_may_split_a_rune:
  "utf8Valid demoLongReason \<and> \<not> utf8Valid (boundedReason demoLongReason)
   \<and> utf8Valid (boundedMsgReason demoLongReason)"
  by code_simp

end
