(* ===== verification/Model.thy ===== *)
theory Model
  imports Prelude "HOL-Library.Finite_Map"
begin

text \<open>
  The resource model of \<^verbatim>\<open>internal/core/metadata\<close>: the Registry, its Projects, ControlSessions,
  Windows, Panes and Agents with every stored field, and the lookups by uid, root, session and name.
  A Go struct is a record, a closed string vocabulary a datatype with a constructor for a value
  outside the vocabulary, a pointer an option, \<open>time.Time\<close> an instant (an \<open>int\<close>, the zero Time is 0),
  a sized integer a word, and a string map a finite map. \<open>Clone\<close> has no counterpart: values are not shared here.
\<close>

section \<open>Closed vocabularies\<close>

datatype kind = KindProject | KindWindow | KindPane | KindAgent | KindControlSession | KindOther string

definition Kinds :: "kind list" where
  "Kinds = [KindProject, KindWindow, KindPane, KindAgent, KindControlSession]"

fun kindString :: "kind \<Rightarrow> string" where
  "kindString KindProject = ''Project''"
| "kindString KindWindow = ''Window''"
| "kindString KindPane = ''Pane''"
| "kindString KindAgent = ''Agent''"
| "kindString KindControlSession = ''ControlSession''"
| "kindString (KindOther s) = s"

datatype pane_role = PaneRoleShell | PaneRoleAgent | PaneRoleOther string

datatype agent_phase = PhasePending | PhaseRunning | PhaseOffline | PhaseFailed | PhaseOther string

definition AgentPhases :: "agent_phase list" where
  "AgentPhases = [PhasePending, PhaseRunning, PhaseOffline, PhaseFailed]"

datatype interaction_kind =
    InteractionUnset | InteractionUnknown | InteractionIdle | InteractionInProgress
  | InteractionApprovalRequired | InteractionInputRequired | InteractionResponseComplete
  | InteractionOther string

definition AgentInteractionKinds :: "interaction_kind list" where
  "AgentInteractionKinds = [InteractionUnknown, InteractionIdle, InteractionInProgress,
     InteractionApprovalRequired, InteractionInputRequired, InteractionResponseComplete]"

definition AgentInteractionSources :: "string list" where
  "AgentInteractionSources = [''manual'', ''compatibility-ai'', ''provider-hook'',
     ''provider-control-plane'', ''lifecycle'']"

datatype progress_activity =
    ProgressNone | ProgressPlanning | ProgressCommand | ProgressFileChange | ProgressTool
  | ProgressWebSearch | ProgressDelegation | ProgressImage | ProgressReview | ProgressCompaction
  | ProgressMisc | ProgressInvalid string

definition AgentProgressActivities :: "progress_activity list" where
  "AgentProgressActivities = [ProgressPlanning, ProgressCommand, ProgressFileChange, ProgressTool,
     ProgressWebSearch, ProgressDelegation, ProgressImage, ProgressReview, ProgressCompaction,
     ProgressMisc]"

datatype activation_state =
    ActivationUnset | ActivationNotRequested | ActivationPending | ActivationAcknowledged
  | ActivationUnconfirmed | ActivationOther string

datatype termination_source =
    TerminationSourceSupervisor | TerminationSourceControlAction | TerminationSourceReconcile
  | TerminationSourceUnset | TerminationSourceOther string

datatype termination_class =
    TerminationIntentional | TerminationInterrupted | TerminationNormal | TerminationKilled
  | TerminationAbnormal | TerminationUnknown | TerminationClassUnset | TerminationClassOther string

datatype runtime_kind = RuntimeUnset | RuntimeTmux | RuntimeProcess | RuntimeOther string

datatype resume_state = ProcessResumeUnknown | ProcessResumable | ProcessResumeOther string

datatype generation_state =
    StatePreparing | StateCurrent | StateDraining | StateHandoverPending | StateRetired
  | StateRecovering | StateBlocked | StateNone | StateOther string

section \<open>Shared metadata\<close>

record owner_ref =
  or_kind :: kind
  or_uid :: string

type_synonym labels = "(string, string) fmap"

text \<open>A decode-only presentation field: whether the removed key was present, and its value.\<close>

record removed_presentation =
  rp_present :: bool
  rp_value :: string

record object_meta =
  om_uid :: string
  om_name :: string
  om_labels :: labels
  om_annotations :: labels
  om_owner :: "owner_ref option"
  om_created :: time
  om_removed :: removed_presentation

definition noRemoved :: removed_presentation where
  "noRemoved = \<lparr>rp_present = False, rp_value = ''''\<rparr>"

definition OwnerUID :: "object_meta \<Rightarrow> string" where
  "OwnerUID m = (case om_owner m of None \<Rightarrow> '''' | Some r \<Rightarrow> or_uid r)"

record condition =
  c_type :: string
  c_status :: string
  c_reason :: string
  c_message :: string
  c_first :: time
  c_last :: time

definition APIVersion :: string where
  "APIVersion = ''projmux.io/v1alpha1''"

definition SchemaVersion :: int where
  "SchemaVersion = 5"

definition ConditionMissingRoot :: string where
  "ConditionMissingRoot = ''MissingRoot''"

definition ConditionMissingRuntime :: string where
  "ConditionMissingRuntime = ''MissingRuntime''"

section \<open>Projects, control sessions and windows\<close>

record session_projection =
  sp_name :: string
  sp_live :: bool
  sp_socket :: string

record project_spec =
  ps_root :: string
  ps_primary :: string

record project_status =
  pst_session :: "session_projection option"
  pst_conditions :: "condition list"

record project =
  p_api :: string
  p_kind :: kind
  p_meta :: object_meta
  p_spec :: project_spec
  p_status :: project_status

record control_session =
  cs_api :: string
  cs_kind :: kind
  cs_meta :: object_meta
  cs_session :: string
  cs_conditions :: "condition list"

datatype source_shape = SourceTyped | SourceLegacy | SourceFinal | SourceMixed | SourceUnknown

record window_spec =
  ws_anchor :: string
  ws_shell :: string
  ws_shape :: source_shape
  ws_legacy :: string

record window_status =
  wst_conditions :: "condition list"
  wst_session :: string
  wst_runtime :: string

record window =
  w_api :: string
  w_kind :: kind
  w_meta :: object_meta
  w_spec :: window_spec
  w_status :: window_status

section \<open>Provider and process identities\<close>

record codex_endpoint =
  ce_domain :: string
  ce_generation :: string

record codex_authority =
  ca_domain :: string
  ca_generation :: string
  ca_broker :: string
  ca_connection :: "64 word"
  ca_binding :: "64 word"

record process_identity =
  pi_pid :: int
  pi_owner :: "32 word"
  pi_start :: string

record claude_authority =
  cla_session :: string
  cla_process :: process_identity
  cla_registration :: string
  cla_lease :: process_identity

record claude_registration =
  cr_authority :: claude_authority
  cr_ready :: bool

record claude_binding =
  cb_process :: process_identity
  cb_session :: string
  cb_generation :: string
  cb_registration :: "claude_registration option"

record codex_binding =
  cxb_thread :: string
  cxb_turn :: string
  cxb_authority :: "codex_authority option"

record process_binding =
  pb_host :: string
  pb_project :: string
  pb_window :: string
  pb_agent :: string
  pb_pane :: string
  pb_generation :: string
  pb_operation :: string

record process_activation =
  pa_binding :: process_binding
  pa_host :: process_identity
  pa_child :: process_identity

record process_control =
  pc_id :: string
  pc_kind :: string
  pc_connection :: string
  pc_session :: string
  pc_turn :: string

record process_history =
  ph_binding :: process_binding
  ph_session :: string
  ph_turn :: string
  ph_expired :: "process_control list"

record process_session =
  pss_provider :: string
  pss_binding :: process_binding
  pss_session :: string
  pss_thread :: string
  pss_connection :: string
  pss_turn :: string
  pss_resume :: resume_state
  pss_stop :: bool
  pss_pending :: "process_control list"
  pss_history :: "process_history option"

section \<open>Panes\<close>

record pane_activation =
  act_kind :: runtime_kind
  act_process :: "process_activation option"
  act_generation :: string
  act_runtime :: string
  act_agent :: string
  act_operation :: string
  act_started :: time
  act_codex :: "codex_binding option"
  act_claude :: "claude_binding option"

definition emptyActivation :: pane_activation where
  "emptyActivation = \<lparr>act_kind = RuntimeUnset, act_process = None, act_generation = '''',
     act_runtime = '''', act_agent = '''', act_operation = '''', act_started = zeroTime,
     act_codex = None, act_claude = None\<rparr>"

definition activationIsZero :: "pane_activation \<Rightarrow> bool" where
  "activationIsZero a \<longleftrightarrow> act_kind a = RuntimeUnset \<and> act_process a = None \<and> act_generation a = ''''
     \<and> act_runtime a = '''' \<and> act_agent a = '''' \<and> act_operation a = '''' \<and> timeIsZero (act_started a)
     \<and> act_codex a = None \<and> act_claude a = None"

record termination_record =
  t_source :: termination_source
  t_class :: termination_class
  t_observed :: time
  t_pane :: string
  t_agent :: string
  t_generation :: string
  t_exit :: "int option"
  t_signal :: string
  t_operation :: string

record teardown =
  td_socket :: string
  td_session :: string
  td_pane :: string
  td_window_handle :: string
  td_window :: string
  td_root_kind :: kind
  td_root :: string
  td_generation :: string
  td_class :: termination_class
  td_observed :: time

record pane_spec =
  pns_runtime :: runtime_kind
  pns_role :: pane_role
  pns_cwd :: string
  pns_command :: string

record pane_status =
  pnst_process :: "process_session option"
  pnst_conditions :: "condition list"
  pnst_activation :: pane_activation
  pnst_termination :: "termination_record option"
  pnst_teardown :: "teardown option"
  pnst_removed :: removed_presentation

record pane =
  pn_api :: string
  pn_kind :: kind
  pn_meta :: object_meta
  pn_spec :: pane_spec
  pn_status :: pane_status

definition emptyPaneStatus :: pane_status where
  "emptyPaneStatus = \<lparr>pnst_process = None, pnst_conditions = [], pnst_activation = emptyActivation,
     pnst_termination = None, pnst_teardown = None, pnst_removed = noRemoved\<rparr>"

definition EffectiveKind :: "runtime_kind \<Rightarrow> runtime_kind" where
  "EffectiveKind k = (if k = RuntimeUnset then RuntimeTmux else k)"

section \<open>Agents\<close>

record workspace =
  wk_cwd :: string
  wk_roots :: "string list"

definition workspaceIsZero :: "workspace \<Rightarrow> bool" where
  "workspaceIsZero w \<longleftrightarrow> wk_cwd w = '''' \<and> wk_roots w = []"

record agent_spec =
  as_provider :: string
  as_workspace :: workspace

record interaction =
  i_kind :: interaction_kind
  i_observed :: time
  i_source :: string

record activation =
  av_state :: activation_state
  av_observed :: time
  av_source :: string
  av_reason :: string

record progress =
  pg_turn :: string
  pg_activity :: progress_activity
  pg_completed :: "8 word"
  pg_in_progress :: "8 word"
  pg_total :: "8 word"
  pg_plan_truncated :: bool
  pg_files :: "16 word"
  pg_files_truncated :: bool
  pg_active_items :: "8 word"
  pg_started :: time
  pg_observed :: time
  pg_source :: string

definition emptyProgress :: progress where
  "emptyProgress = \<lparr>pg_turn = '''', pg_activity = ProgressNone, pg_completed = 0, pg_in_progress = 0,
     pg_total = 0, pg_plan_truncated = False, pg_files = 0, pg_files_truncated = False,
     pg_active_items = 0, pg_started = zeroTime, pg_observed = zeroTime, pg_source = ''''\<rparr>"

definition progressIsZero :: "progress \<Rightarrow> bool" where
  "progressIsZero p \<longleftrightarrow> pg_turn p = '''' \<and> pg_activity p = ProgressNone \<and> pg_completed p = 0
     \<and> pg_in_progress p = 0 \<and> pg_total p = 0 \<and> \<not> pg_plan_truncated p \<and> pg_files p = 0
     \<and> \<not> pg_files_truncated p \<and> pg_active_items p = 0 \<and> timeIsZero (pg_started p)
     \<and> timeIsZero (pg_observed p) \<and> pg_source p = ''''"

lemma progressIsZero_iff [simp]: "progressIsZero p \<longleftrightarrow> p = emptyProgress"
  by (cases p) (auto simp: progressIsZero_def emptyProgress_def timeIsZero_def)

lemma activationIsZero_iff [simp]: "activationIsZero a \<longleftrightarrow> a = emptyActivation"
  by (cases a) (auto simp: activationIsZero_def emptyActivation_def timeIsZero_def)

record claude_session =
  cls_session :: string
  cls_transcript :: string

record codex_operation =
  co_id :: string
  co_endpoint :: codex_endpoint

record codex_lifecycle =
  cl_state :: generation_state
  cl_operation :: "codex_operation option"

record codex_receipt =
  crr_operation :: string
  crr_successor :: codex_endpoint
  crr_agent :: string
  crr_pane :: string
  crr_runtime :: string
  crr_generation :: string
  crr_thread :: string

record codex_session =
  cxs_thread :: string
  cxs_session :: string
  cxs_started :: bool
  cxs_endpoint :: "codex_endpoint option"
  cxs_lifecycle :: "codex_lifecycle option"
  cxs_handover :: "codex_receipt option"

record antigravity_session =
  ag_conversation :: string
  ag_transcript :: string

record session_ref =
  sr_provider :: string
  sr_observed :: time
  sr_claude :: "claude_session option"
  sr_codex :: "codex_session option"
  sr_antigravity :: "antigravity_session option"

record agent_status =
  ast_phase :: agent_phase
  ast_pane :: string
  ast_session :: "session_ref option"
  ast_interaction :: interaction
  ast_activation :: activation
  ast_progress :: progress
  ast_reason :: string
  ast_termination :: "termination_record option"
  ast_transition :: time

record agent =
  a_api :: string
  a_kind :: kind
  a_meta :: object_meta
  a_spec :: agent_spec
  a_status :: agent_status

section \<open>The Registry\<close>

record reservation =
  nr_scope :: string
  nr_kind :: kind
  nr_name :: string
  nr_uid :: string

record registry =
  r_api :: string
  r_schema :: int
  r_updated :: time
  r_projects :: "project list"
  r_controls :: "control_session list"
  r_windows :: "window list"
  r_panes :: "pane list"
  r_agents :: "agent list"
  r_names :: "reservation list"

definition NewRegistry :: registry where
  "NewRegistry = \<lparr>r_api = APIVersion, r_schema = SchemaVersion, r_updated = zeroTime, r_projects = [],
     r_controls = [], r_windows = [], r_panes = [], r_agents = [], r_names = []\<rparr>"

abbreviation p_uid :: "project \<Rightarrow> string" where "p_uid p \<equiv> om_uid (p_meta p)"
abbreviation cs_uid :: "control_session \<Rightarrow> string" where "cs_uid c \<equiv> om_uid (cs_meta c)"
abbreviation w_uid :: "window \<Rightarrow> string" where "w_uid w \<equiv> om_uid (w_meta w)"
abbreviation pn_uid :: "pane \<Rightarrow> string" where "pn_uid p \<equiv> om_uid (pn_meta p)"
abbreviation a_uid :: "agent \<Rightarrow> string" where "a_uid a \<equiv> om_uid (a_meta a)"

section \<open>Lookups\<close>

definition lookupProject :: "registry \<Rightarrow> string \<Rightarrow> project option" where
  "lookupProject r uid = find (\<lambda>p. p_uid p = uid) (r_projects r)"

definition lookupControlSession :: "registry \<Rightarrow> string \<Rightarrow> control_session option" where
  "lookupControlSession r uid = find (\<lambda>c. cs_uid c = uid) (r_controls r)"

definition lookupWindow :: "registry \<Rightarrow> string \<Rightarrow> window option" where
  "lookupWindow r uid = find (\<lambda>w. w_uid w = uid) (r_windows r)"

definition lookupPane :: "registry \<Rightarrow> string \<Rightarrow> pane option" where
  "lookupPane r uid = find (\<lambda>p. pn_uid p = uid) (r_panes r)"

definition lookupAgent :: "registry \<Rightarrow> string \<Rightarrow> agent option" where
  "lookupAgent r uid = find (\<lambda>a. a_uid a = uid) (r_agents r)"

lemmas lookup_defs = lookupProject_def lookupControlSession_def lookupWindow_def lookupPane_def
  lookupAgent_def

definition ControlSessionBySession :: "registry \<Rightarrow> string \<Rightarrow> control_session option" where
  "ControlSessionBySession r session = (let s = trimSpace session in
     if s = '''' then None else find (\<lambda>c. cs_session c = s) (r_controls r))"

definition cleanRoot :: "string \<Rightarrow> string" where
  "cleanRoot root = (let t = trimSpace root in if t = '''' then '''' else pathClean t)"

definition ProjectByRoot :: "registry \<Rightarrow> string \<Rightarrow> project option" where
  "ProjectByRoot r root = (let c = cleanRoot root in
     if c = '''' then None else find (\<lambda>p. ps_root (p_spec p) = c) (r_projects r))"

definition ProjectByName :: "registry \<Rightarrow> string \<Rightarrow> project option" where
  "ProjectByName r name = find (\<lambda>p. om_name (p_meta p) = name) (r_projects r)"

text \<open>The sole Project carrying a session projection; more than one is an error.\<close>

definition ProjectBySession :: "registry \<Rightarrow> string \<Rightarrow> error + project option" where
  "ProjectBySession r session = (let s = trimSpace session in
     case filter (\<lambda>p. case pst_session (p_status p) of None \<Rightarrow> False
                        | Some sp \<Rightarrow> trimSpace (sp_name sp) = s) (r_projects r) of
       [] \<Rightarrow> Inr None
     | [p] \<Rightarrow> Inr (Some p)
     | _ \<Rightarrow> Inl (EnvError ''session is claimed by more than one Project''))"

definition WindowsOf :: "registry \<Rightarrow> string \<Rightarrow> window list" where
  "WindowsOf r uid = filter (\<lambda>w. OwnerUID (w_meta w) = uid) (r_windows r)"

definition PanesOf :: "registry \<Rightarrow> string \<Rightarrow> pane list" where
  "PanesOf r uid = filter (\<lambda>p. OwnerUID (pn_meta p) = uid) (r_panes r)"

definition AgentsOf :: "registry \<Rightarrow> string \<Rightarrow> agent list" where
  "AgentsOf r uid = filter (\<lambda>a. OwnerUID (a_meta a) = uid) (r_agents r)"

definition registryHasUID :: "registry \<Rightarrow> string \<Rightarrow> bool" where
  "registryHasUID r uid \<longleftrightarrow> lookupProject r uid \<noteq> None \<or> lookupControlSession r uid \<noteq> None
     \<or> lookupWindow r uid \<noteq> None \<or> lookupPane r uid \<noteq> None \<or> lookupAgent r uid \<noteq> None"

section \<open>Writing through a pointer returned by a lookup\<close>

definition updProject :: "string \<Rightarrow> (project \<Rightarrow> project) \<Rightarrow> registry \<Rightarrow> registry" where
  "updProject uid f r = r\<lparr>r_projects := updFirst (\<lambda>p. p_uid p = uid) f (r_projects r)\<rparr>"

definition updWindow :: "string \<Rightarrow> (window \<Rightarrow> window) \<Rightarrow> registry \<Rightarrow> registry" where
  "updWindow uid f r = r\<lparr>r_windows := updFirst (\<lambda>w. w_uid w = uid) f (r_windows r)\<rparr>"

definition updPane :: "string \<Rightarrow> (pane \<Rightarrow> pane) \<Rightarrow> registry \<Rightarrow> registry" where
  "updPane uid f r = r\<lparr>r_panes := updFirst (\<lambda>p. pn_uid p = uid) f (r_panes r)\<rparr>"

definition updAgent :: "string \<Rightarrow> (agent \<Rightarrow> agent) \<Rightarrow> registry \<Rightarrow> registry" where
  "updAgent uid f r = r\<lparr>r_agents := updFirst (\<lambda>a. a_uid a = uid) f (r_agents r)\<rparr>"

lemmas upd_defs = updProject_def updWindow_def updPane_def updAgent_def

section \<open>Every uid of a Registry\<close>

definition allUids :: "registry \<Rightarrow> string list" where
  "allUids r = map p_uid (r_projects r) @ map cs_uid (r_controls r) @ map w_uid (r_windows r)
     @ map pn_uid (r_panes r) @ map a_uid (r_agents r)"

lemma find_none_map: "find (\<lambda>x. f x = u) xs = None \<longleftrightarrow> u \<notin> f ` set xs"
  by (auto simp: find_None_iff)

lemma registryHasUID_iff: "registryHasUID r uid \<longleftrightarrow> uid \<in> set (allUids r)"
  by (simp add: registryHasUID_def allUids_def lookup_defs find_none_map image_Un Un_iff)

lemma lookup_None:
  "lookupProject r uid = None \<longleftrightarrow> uid \<notin> p_uid ` set (r_projects r)"
  "lookupControlSession r uid = None \<longleftrightarrow> uid \<notin> cs_uid ` set (r_controls r)"
  "lookupWindow r uid = None \<longleftrightarrow> uid \<notin> w_uid ` set (r_windows r)"
  "lookupPane r uid = None \<longleftrightarrow> uid \<notin> pn_uid ` set (r_panes r)"
  "lookupAgent r uid = None \<longleftrightarrow> uid \<notin> a_uid ` set (r_agents r)"
  by (simp_all add: lookup_defs find_none_map)

lemma lookup_Some:
  "lookupProject r uid = Some p \<Longrightarrow> p \<in> set (r_projects r) \<and> p_uid p = uid"
  "lookupControlSession r uid = Some c \<Longrightarrow> c \<in> set (r_controls r) \<and> cs_uid c = uid"
  "lookupWindow r uid = Some w \<Longrightarrow> w \<in> set (r_windows r) \<and> w_uid w = uid"
  "lookupPane r uid = Some q \<Longrightarrow> q \<in> set (r_panes r) \<and> pn_uid q = uid"
  "lookupAgent r uid = Some a \<Longrightarrow> a \<in> set (r_agents r) \<and> a_uid a = uid"
  unfolding lookup_defs by (blast dest: find_SomeD)+

text \<open>With distinct uids a lookup finds exactly the resources of the Registry.\<close>

lemma lookup_distinct:
  assumes "distinct (allUids r)"
  shows "p \<in> set (r_projects r) \<Longrightarrow> lookupProject r (p_uid p) = Some p"
    and "c \<in> set (r_controls r) \<Longrightarrow> lookupControlSession r (cs_uid c) = Some c"
    and "w \<in> set (r_windows r) \<Longrightarrow> lookupWindow r (w_uid w) = Some w"
    and "q \<in> set (r_panes r) \<Longrightarrow> lookupPane r (pn_uid q) = Some q"
    and "a \<in> set (r_agents r) \<Longrightarrow> lookupAgent r (a_uid a) = Some a"
  using assms unfolding lookup_defs allUids_def by (auto intro!: find_key_distinct)

end
