(* ===== verification/Names.thy ===== *)
theory Names
  imports Model
begin

text \<open>
  Name syntax (\<^verbatim>\<open>internal/core/metadata/names.go\<close>, first half): which strings are names, how an
  arbitrary seed becomes a name base, the automatic Project name base, and provider spellings.
  The main lemma is that a sanitized base is empty or accepted by \<open>ValidateName\<close>.
\<close>

section \<open>Valid names\<close>

definition maxNameLength :: nat where
  "maxNameLength = 128"

text \<open>The punctuation the selector grammar reserves, in the order of the source's switch:
  \<^verbatim>\<open>/ \ : , = @ " ' ` $ ( ) [ ] { } < > | & ; * ? ! # % ^ ~ +\<close>.\<close>

definition reservedRunes :: "rune list" where
  "reservedRunes = [47, 92, 58, 44, 61, 64, 34, 39, 96, 36, 40, 41, 91, 93, 123, 125, 60, 62, 124, 38,
     59, 42, 63, 33, 35, 37, 94, 126, 43]"

definition nameRuneAllowed :: "rune \<Rightarrow> bool" where
  "nameRuneAllowed r \<longleftrightarrow> \<not> (isControlRune r \<or> isSpaceRune r) \<and> r \<notin> set reservedRunes"

definition ValidateName :: "string \<Rightarrow> check" where
  "ValidateName name =
     (if name = '''' then Inl (inputErr ''name'' ErrInvalidName)
      else if name \<noteq> trimSpace name then Inl (inputErr ''name'' ErrInvalidName)
      else if length name > maxNameLength then Inl (inputErr ''name'' ErrInvalidName)
      else if name = ''.'' \<or> name = ''..'' then Inl (inputErr ''name'' ErrInvalidName)
      else if list_all nameRuneAllowed (runesOf name) then ok
      else Inl (inputErr ''name'' ErrInvalidName))"

definition ValidateExplicitNameReuse :: "string \<Rightarrow> kind \<Rightarrow> object_meta \<Rightarrow> string \<Rightarrow> check" where
  "ValidateExplicitNameReuse op k existing requested =
     (if requested = '''' then ok
      else case ValidateName requested of
        Inl e \<Rightarrow> Inl e
      | Inr _ \<Rightarrow> guardErr (requested \<noteq> om_name existing) (inputErr op ErrNameConflict))"

section \<open>Sanitizing a seed\<close>

text \<open>The runes written to the builder: forbidden runs collapse into one \<^verbatim>\<open>-\<close> (rune 45).\<close>

fun sanitizeRunes :: "bool \<Rightarrow> rune list \<Rightarrow> rune list" where
  "sanitizeRunes lastDash [] = []"
| "sanitizeRunes lastDash (r # rs) =
     (if nameRuneAllowed r then r # sanitizeRunes False rs
      else if \<not> lastDash then 45 # sanitizeRunes True rs
      else sanitizeRunes True rs)"

definition SanitizeNameBase :: "string \<Rightarrow> string" where
  "SanitizeNameBase seed0 =
     (let seed = trimSpace seed0 in
      if seed = '''' then ''''
      else let built = concat (map encodeRune (sanitizeRunes False (runesOf seed)));
               out0 = trimBytes ''-.'' built;
               out = (if length out0 > maxNameLength
                      then trimBytes ''-.'' (take maxNameLength out0) else out0)
           in if out = '''' \<or> out = ''.'' \<or> out = ''..'' then '''' else out)"

definition ProjectNameBase :: "string \<Rightarrow> string" where
  "ProjectNameBase root = (let c = cleanRoot root in if c = '''' then '''' else SanitizeNameBase (pathBase c))"

section \<open>Provider spellings\<close>

text \<open>
  \<open>strings.ToLower\<close>, exact on every rune whose lower case is ASCII (the ASCII capitals, U+0130 and
  U+212A); other runes only have to stay outside ASCII, since the result is compared with ASCII ids.
\<close>

definition toLowerRune :: "rune \<Rightarrow> rune" where
  "toLowerRune r = (if 65 \<le> r \<and> r \<le> 90 then r + 32 else if r = 304 then 105 else if r = 8490 then 107 else r)"

definition asciiId :: "string \<Rightarrow> rune list" where
  "asciiId s = map byte s"

definition providerIDs :: "string list" where
  "providerIDs = [''claude'', ''codex'', ''antigravity'']"

definition NormalizeProvider :: "string \<Rightarrow> string" where
  "NormalizeProvider provider =
     (let low = map toLowerRune (runesOf (trimSpace provider))
      in case find (\<lambda>p. asciiId p = low) providerIDs of Some p \<Rightarrow> p | None \<Rightarrow> '''')"

section \<open>Lemmas\<close>

lemma runeError_allowed [simp]: "nameRuneAllowed runeError"
  by (simp add: nameRuneAllowed_def isControlRune_def isSpaceRune_def reservedRunes_def runeError_def)

lemma dash_allowed [simp]: "nameRuneAllowed 45"
  by (simp add: nameRuneAllowed_def isControlRune_def isSpaceRune_def reservedRunes_def)

lemma sanitizeRunes_allowed: "r \<in> set (sanitizeRunes d rs) \<Longrightarrow> nameRuneAllowed r"
  by (induction rs arbitrary: d) (auto split: if_splits)

lemma sanitizeRunes_id: "list_all nameRuneAllowed rs \<Longrightarrow> sanitizeRunes d rs = rs"
  by (induction rs arbitrary: d) auto

lemma validRune_45 [simp]: "validRune 45"
  by (simp add: validRune_def)

lemma sanitizeRunes_valid: "\<forall>r \<in> set rs. validRune r \<Longrightarrow> r \<in> set (sanitizeRunes d rs) \<Longrightarrow> validRune r"
  by (induction rs arbitrary: d) (auto split: if_splits)

text \<open>Dropping ASCII bytes in front, or any bytes at the end, adds at most error runes.\<close>

lemma runesOf_ascii: "byte c < 128 \<Longrightarrow> runesOf (c # cs) = byte c # runesOf cs"
  by (simp add: runesOf_def decodeRune_ascii)

lemma runes_dropWhile:
  "(\<And>c. p c \<Longrightarrow> byte c < 128) \<Longrightarrow> set (runesOf (dropWhile p s)) \<subseteq> set (runesOf s)"
proof (induction s)
  case (Cons c s)
  then show ?case by (cases "p c") (auto simp: runesOf_ascii)
qed simp

lemma rev_dropWhile_rev_take: "\<exists>n. rev (dropWhile p (rev xs)) = take n xs"
proof -
  have "xs = rev (dropWhile p (rev xs)) @ rev (takeWhile p (rev xs))"
    by (metis rev_append rev_rev_ident takeWhile_dropWhile_id)
  then show ?thesis by (metis append_eq_conv_conj)
qed

lemma runes_trimBytes:
  assumes "\<forall>c \<in> set cutset. byte c < 128"
  shows "set (runesOf (trimBytes cutset s)) \<subseteq> set (runesOf s) \<union> {runeError}"
proof -
  let ?p = "\<lambda>c. c \<in> set cutset"
  obtain n where "trimBytes cutset s = take n (dropWhile ?p s)"
    using rev_dropWhile_rev_take unfolding trimBytes_def trimWhile_def by blast
  then show ?thesis
    using runes_take [of n "dropWhile ?p s"] runes_dropWhile [of ?p s] assms by auto
qed

lemma cutset_ascii: "\<forall>c \<in> set ''-.''. byte c < 128"
  by (simp add: byte_def)

text \<open>The leading and trailing white-space test of \<open>ValidateName\<close> is implied by the rune test.\<close>

lemma ValidateName_iff:
  "ValidateName name = ok \<longleftrightarrow> name \<noteq> '''' \<and> length name \<le> maxNameLength
     \<and> name \<noteq> ''.'' \<and> name \<noteq> ''..'' \<and> list_all nameRuneAllowed (runesOf name)"
proof -
  have "list_all nameRuneAllowed (runesOf name) \<Longrightarrow> trimSpace name = name"
    by (rule trimSpace_no_space) (auto simp: list_all_iff nameRuneAllowed_def)
  then show ?thesis by (auto simp: ValidateName_def ok_def)
qed

lemma ValidateName_cases: "ValidateName name = ok \<or> ValidateName name = Inl (InputError ''name'' ErrInvalidName)"
  by (auto simp: ValidateName_def inputErr_def)

lemma ValidateName_ne: "ValidateName name = ok \<Longrightarrow> name \<noteq> ''''"
  by (simp add: ValidateName_iff)

lemma built_allowed:
  assumes "\<forall>r \<in> set rs. validRune r"
  shows "list_all nameRuneAllowed (runesOf (concat (map encodeRune (sanitizeRunes d rs))))"
proof -
  have "\<forall>r \<in> set (sanitizeRunes d rs). validRune r" using assms sanitizeRunes_valid by blast
  then show ?thesis by (simp add: runesOf_encode list_all_iff sanitizeRunes_allowed)
qed

lemma allowed_trimBytes:
  "list_all nameRuneAllowed (runesOf s) \<Longrightarrow> list_all nameRuneAllowed (runesOf (trimBytes ''-.'' s))"
  using runes_trimBytes [OF cutset_ascii, of s] by (auto simp: list_all_iff)

lemma allowed_take:
  "list_all nameRuneAllowed (runesOf s) \<Longrightarrow> list_all nameRuneAllowed (runesOf (take n s))"
  using runes_take [of n s] by (auto simp: list_all_iff)

lemma trimBytes_ends: "trimBytes cs s \<noteq> [] \<Longrightarrow> hd (trimBytes cs s) \<notin> set cs \<and> last (trimBytes cs s) \<notin> set cs"
  unfolding trimBytes_def by (rule trimWhile_hd)

lemma length_trimBytes: "length (trimBytes cs s) \<le> length s"
  by (simp add: trimBytes_def length_trimWhile)

lemma SanitizeNameBase_shape:
  assumes "SanitizeNameBase seed \<noteq> ''''"
  obtains s where "SanitizeNameBase seed = trimBytes ''-.'' s"
    and "list_all nameRuneAllowed (runesOf s)"
    and "length (trimBytes ''-.'' s) \<le> maxNameLength"
proof -
  let ?built = "concat (map encodeRune (sanitizeRunes False (runesOf (trimSpace seed))))"
  let ?out = "trimBytes ''-.'' ?built"
  let ?cut = "take maxNameLength ?out"
  have b: "list_all nameRuneAllowed (runesOf ?built)"
    by (rule built_allowed) (blast dest: runesOf_valid)
  have l: "length (trimBytes ''-.'' ?cut) \<le> maxNameLength"
    using length_trimBytes [of "''-.''" ?cut] by simp
  show thesis
  proof (cases "length ?out > maxNameLength")
    case True
    then have "SanitizeNameBase seed = trimBytes ''-.'' ?cut"
      using assms by (auto simp: SanitizeNameBase_def Let_def split: if_splits)
    with that [of ?cut] l allowed_take [OF allowed_trimBytes [OF b]] show ?thesis by simp
  next
    case False
    then have "SanitizeNameBase seed = ?out"
      using assms by (auto simp: SanitizeNameBase_def Let_def split: if_splits)
    with that [of ?built] b False show ?thesis by simp
  qed
qed

lemma SanitizeNameBase_dots: "SanitizeNameBase seed \<noteq> ''.'' \<and> SanitizeNameBase seed \<noteq> ''..''"
  by (auto simp: SanitizeNameBase_def Let_def split: if_splits)

lemma sanitized_valid:
  assumes "SanitizeNameBase seed \<noteq> ''''"
  shows "ValidateName (SanitizeNameBase seed) = ok"
proof -
  obtain s where "SanitizeNameBase seed = trimBytes ''-.'' s"
    "list_all nameRuneAllowed (runesOf s)" "length (trimBytes ''-.'' s) \<le> maxNameLength"
    using SanitizeNameBase_shape [OF assms] .
  then show ?thesis
    using assms SanitizeNameBase_dots [of seed] by (simp add: ValidateName_iff allowed_trimBytes)
qed

lemma trimBytes_id:
  assumes "s \<noteq> []" "hd s \<notin> set cs" "last s \<notin> set cs"
  shows "trimBytes cs s = s"
proof -
  have "dropWhile (\<lambda>c. c \<in> set cs) s = s" using assms by (cases s) auto
  moreover have "dropWhile (\<lambda>c. c \<in> set cs) (rev s) = rev s"
    using assms by (cases s rule: rev_cases) auto
  ultimately show ?thesis by (simp add: trimBytes_def trimWhile_def)
qed

lemma encode_runesOf:
  "\<forall>r \<in> set rs. validRune r \<Longrightarrow> s = concat (map encodeRune rs) \<Longrightarrow> concat (map encodeRune (runesOf s)) = s"
  by (simp add: runesOf_encode)

text \<open>A seed of allowed runes is only truncated.\<close>

lemma SanitizeNameBase_allowed:
  assumes "\<forall>r \<in> set rs. validRune r \<and> nameRuneAllowed r" and "seed = concat (map encodeRune rs)"
    and "seed \<noteq> ''''" and "hd seed \<notin> set ''-.''" and "last seed \<notin> set ''-.''"
  shows "SanitizeNameBase seed =
     (if length seed > maxNameLength then trimBytes ''-.'' (take maxNameLength seed) else seed)"
proof -
  from assms(1, 2) have rs: "runesOf seed = rs" using runesOf_encode by blast
  with assms(1) have al: "list_all nameRuneAllowed (runesOf seed)" by (simp add: list_all_iff)
  then have t: "trimSpace seed = seed"
    by (intro trimSpace_no_space) (auto simp: list_all_iff nameRuneAllowed_def)
  have b: "concat (map encodeRune (sanitizeRunes False (runesOf seed))) = seed"
    unfolding sanitizeRunes_id [OF al] unfolding rs using assms(2) by simp
  have d: "seed \<noteq> ''.''" "seed \<noteq> ''..''" using assms(4) by auto
  have n: "hd (trimBytes ''-.'' s) \<notin> set ''-.''" if "trimBytes ''-.'' s \<noteq> ''''" for s
    using trimBytes_ends [OF that] by simp
  have "trimBytes ''-.'' s = ''.'' \<or> trimBytes ''-.'' s = ''..'' \<Longrightarrow> False" for s
    using n [of s] by auto
  then show ?thesis
    unfolding SanitizeNameBase_def Let_def t b trimBytes_id [OF assms(3-5)]
    using assms(3) d by auto
qed

lemma concat_encode_ascii: "n < 128 \<Longrightarrow> concat (map encodeRune (replicate k n)) = replicate k (char_of n)"
  by (induction k) (simp_all add: encodeRune_def)

lemma runesOf_replicate: "byte c < 128 \<Longrightarrow> runesOf (replicate k c @ s) = replicate k (byte c) @ runesOf s"
  by (induction k) (simp_all add: runesOf_ascii)

lemma eval_name:
  "runesOf [] = []"
  "byte c < 128 \<Longrightarrow> runesOf (c # cs) = byte c # runesOf cs"
  by (simp_all add: runesOf_ascii) (simp add: runesOf_def)

lemmas eval_rune = nameRuneAllowed_def isControlRune_def isSpaceRune_def reservedRunes_def

section \<open>Properties\<close>

text \<open>C10: A sanitized name base is empty, or a name \<open>ValidateName\<close> accepts that neither starts nor
  ends with a dash or a dot: whatever the seed (any bytes), registration never has to reject it.\<close>

theorem sanitize_gives_valid_name:
  "SanitizeNameBase seed = ''''
   \<or> ValidateName (SanitizeNameBase seed) = ok
     \<and> hd (SanitizeNameBase seed) \<notin> set ''-.'' \<and> last (SanitizeNameBase seed) \<notin> set ''-.''"
proof (cases "SanitizeNameBase seed = ''''")
  case False
  then obtain s where "SanitizeNameBase seed = trimBytes ''-.'' s"
    using SanitizeNameBase_shape by blast
  with False sanitized_valid [OF False] trimBytes_ends [of "''-.''" s] show ?thesis by simp
qed simp

text \<open>C11: A name that is well-formed UTF-8 and has no dash or dot at its ends is its own sanitized
  base, so sanitizing an already valid Project name does not rename it.\<close>

theorem sanitize_keeps_valid_names:
  assumes "ValidateName name = ok" and "name = concat (map encodeRune rs)"
    and "\<forall>r \<in> set rs. validRune r" and "hd name \<notin> set ''-.''" and "last name \<notin> set ''-.''"
  shows "SanitizeNameBase name = name"
proof -
  from assms(2, 3) have "runesOf name = rs" using runesOf_encode by blast
  with assms(1, 3) have "\<forall>r \<in> set rs. validRune r \<and> nameRuneAllowed r"
    by (auto simp: ValidateName_iff list_all_iff)
  from SanitizeNameBase_allowed [OF this assms(2) ValidateName_ne [OF assms(1)] assms(4, 5)] assms(1)
  show ?thesis by (simp add: ValidateName_iff)
qed

theorem sanitize_keeps_valid_names_witness: "SanitizeNameBase ''Projmux'' = ''Projmux''"
proof (rule sanitize_keeps_valid_names [where rs = "map byte ''Projmux''"])
  show "ValidateName ''Projmux'' = ok"
    by (simp add: ValidateName_iff eval_name byte_def eval_rune maxNameLength_def)
  show "''Projmux'' = concat (map encodeRune (map byte ''Projmux''))"
    by (simp add: byte_def encodeRune_def)
  show "\<forall>r \<in> set (map byte ''Projmux''). validRune r" by (simp add: byte_def validRune_def)
  show "hd ''Projmux'' \<notin> set ''-.''" "last ''Projmux'' \<notin> set ''-.''" by simp_all
qed

text \<open>Truncation to 128 bytes can cut a rune in two: there is a well-formed seed whose sanitized
  base is a name \<open>ValidateName\<close> accepts but is not well-formed UTF-8, and writing its runes back
  (as a JSON encoder does) gives 130 bytes, which \<open>ValidateName\<close> refuses.\<close>

theorem sanitize_may_split_a_rune:
  "let name = SanitizeNameBase (replicate 127 (CHR ''a'') @ encodeRune 233) in
   ValidateName name = ok \<and> length name = 128
   \<and> concat (map encodeRune (runesOf name)) \<noteq> name
   \<and> ValidateName (concat (map encodeRune (runesOf name))) \<noteq> ok"
proof -
  let ?seed = "replicate 127 (CHR ''a'') @ encodeRune 233"
  let ?name = "replicate 127 (CHR ''a'') @ [char_of (195::nat)]"
  let ?rs = "replicate 127 97 @ [233]"
  have e: "encodeRune 233 = [char_of (195::nat), char_of (169::nat)]" by (simp add: encodeRune_def)
  have c: "CHR ''a'' = char_of (97::nat)" by (simp add: byte_def)
  have a: "concat (map encodeRune (replicate 127 97)) = replicate 127 (CHR ''a'')"
    unfolding c by (rule concat_encode_ascii) simp
  then have rs: "?seed = concat (map encodeRune ?rs)" by simp
  have "SanitizeNameBase ?seed =
     (if length ?seed > maxNameLength then trimBytes ''-.'' (take maxNameLength ?seed) else ?seed)"
    by (rule SanitizeNameBase_allowed [OF _ rs]) (auto simp: validRune_def eval_rune e byte_def)
  also have "\<dots> = trimBytes ''-.'' ?name" by (simp add: e maxNameLength_def take_replicate)
  also have "\<dots> = ?name" by (rule trimBytes_id) (auto simp: byte_def)
  finally have name: "SanitizeNameBase ?seed = ?name" .
  have "runesOf [char_of (195::nat)] = [runeError]"
    by (simp add: runesOf_def decodeRune_def decode2_def)
  then have r: "runesOf ?name = replicate 127 97 @ [runeError]"
    by (simp add: runesOf_replicate byte_def)
  then have v: "ValidateName ?name = ok"
    by (simp add: ValidateName_iff maxNameLength_def byte_def list_all_iff eval_rune runeError_def)
  have w: "concat (map encodeRune (runesOf ?name)) =
      replicate 127 (CHR ''a'') @ [char_of (239::nat), char_of (191::nat), char_of (189::nat)]"
    unfolding r map_append concat_append a by (simp add: runeError_def encodeRune_def)
  show ?thesis
    unfolding Let_def name w using v by (simp add: ValidateName_iff maxNameLength_def)
qed

end
