(* ===== verification/Reservations.thy ===== *)
theory Reservations
  imports Names
begin

text \<open>
  Name reservations (\<^verbatim>\<open>internal/core/metadata/names.go\<close>, second half): the uniqueness scope of a
  resource, the reservation table and its three writers (put, release, rescope), explicit reservation
  and the canonical order of the table. The locale \<open>reservation_table\<close> is the contract the Registry
  operations use: look up a name, put a name, release a uid; it is interpreted on the list the code keeps.
\<close>

section \<open>Scopes\<close>

definition rootScope :: "registry \<Rightarrow> string \<Rightarrow> error + string" where
  "rootScope r owner = (let o' = trimSpace owner in
     if lookupProject r o' \<noteq> None \<or> lookupControlSession r o' \<noteq> None then Inr o'
     else Inl (stateErr ''resolve name scope'' ErrInvalidRegistry))"

definition agentScope :: "registry \<Rightarrow> string \<Rightarrow> error + string" where
  "agentScope r owner = (case lookupWindow r (trimSpace owner) of
     Some w \<Rightarrow> rootScope r (OwnerUID (w_meta w))
   | None \<Rightarrow> Inl (stateErr ''resolve name scope'' ErrInvalidRegistry))"

definition paneScope :: "registry \<Rightarrow> string \<Rightarrow> error + string" where
  "paneScope r owner = (case lookupWindow r (trimSpace owner) of
     Some w \<Rightarrow> rootScope r (OwnerUID (w_meta w))
   | None \<Rightarrow> (case lookupAgent r (trimSpace owner) of
        Some a \<Rightarrow> agentScope r (OwnerUID (a_meta a))
      | None \<Rightarrow> Inl (stateErr ''resolve name scope'' ErrInvalidRegistry)))"

text \<open>\<open>scopeFor\<close>; its recursion descends from Pane or Agent to Window, unfolded above.\<close>

fun scopeFor :: "registry \<Rightarrow> kind \<Rightarrow> string \<Rightarrow> error + string" where
  "scopeFor r KindProject owner = Inr ''''"
| "scopeFor r KindControlSession owner = Inr ''''"
| "scopeFor r KindWindow owner = rootScope r owner"
| "scopeFor r KindAgent owner = agentScope r owner"
| "scopeFor r KindPane owner = paneScope r owner"
| "scopeFor r (KindOther k) owner = Inl (stateErr ''resolve name scope'' ErrInvalidRegistry)"

section \<open>The table\<close>

definition sameSlot :: "string \<Rightarrow> kind \<Rightarrow> string \<Rightarrow> reservation \<Rightarrow> bool" where
  "sameSlot scope k name n \<longleftrightarrow> nr_scope n = scope \<and> nr_kind n = k \<and> nr_name n = name"

definition heldBy :: "string \<Rightarrow> kind \<Rightarrow> string \<Rightarrow> reservation \<Rightarrow> bool" where
  "heldBy scope k uid n \<longleftrightarrow> nr_scope n = scope \<and> nr_kind n = k \<and> nr_uid n = uid"

definition ownerIn :: "reservation list \<Rightarrow> string \<Rightarrow> kind \<Rightarrow> string \<Rightarrow> string option" where
  "ownerIn ns scope k name = map_option nr_uid (find (sameSlot scope k name) ns)"

definition nameOwner :: "registry \<Rightarrow> string \<Rightarrow> kind \<Rightarrow> string \<Rightarrow> string option" where
  "nameOwner r = ownerIn (r_names r)"

definition PaneNameHolder :: "registry \<Rightarrow> string \<Rightarrow> string \<Rightarrow> string option" where
  "PaneNameHolder r owner name = (case scopeFor r KindPane owner of
     Inl _ \<Rightarrow> None
   | Inr scope \<Rightarrow> nameOwner r scope KindPane name)"

fun keepForPut :: "string \<Rightarrow> kind \<Rightarrow> string \<Rightarrow> string \<Rightarrow> reservation list \<Rightarrow> reservation list" where
  "keepForPut scope k name uid [] = []"
| "keepForPut scope k name uid (n # ns) =
     (if sameSlot scope k name n then n\<lparr>nr_uid := uid\<rparr> # keepForPut scope k name uid ns
      else if heldBy scope k uid n then keepForPut scope k name uid ns
      else n # keepForPut scope k name uid ns)"

definition putIn :: "string \<Rightarrow> kind \<Rightarrow> string \<Rightarrow> string \<Rightarrow> reservation list \<Rightarrow> reservation list" where
  "putIn scope k name uid ns =
     keepForPut scope k name uid ns
     @ (if list_ex (sameSlot scope k name) ns then []
        else [\<lparr>nr_scope = scope, nr_kind = k, nr_name = name, nr_uid = uid\<rparr>])"

definition putReservation :: "string \<Rightarrow> kind \<Rightarrow> string \<Rightarrow> string \<Rightarrow> registry \<Rightarrow> registry" where
  "putReservation scope k name uid r = r\<lparr>r_names := putIn scope k name uid (r_names r)\<rparr>"

definition releaseIn :: "string \<Rightarrow> reservation list \<Rightarrow> reservation list" where
  "releaseIn uid ns = (if uid = '''' then ns else filter (\<lambda>n. \<not> (nr_uid n = uid \<or> nr_scope n = uid)) ns)"

definition releaseNames :: "string \<Rightarrow> registry \<Rightarrow> registry" where
  "releaseNames uid r = r\<lparr>r_names := releaseIn uid (r_names r)\<rparr>"

section \<open>Reserving and moving a name\<close>

definition reserveExplicitName ::
  "string \<Rightarrow> string \<Rightarrow> kind \<Rightarrow> string \<Rightarrow> string \<Rightarrow> registry \<Rightarrow> error + registry" where
  "reserveExplicitName op owner k name uid r =
     (case ValidateName name of
        Inl e \<Rightarrow> Inl e
      | Inr _ \<Rightarrow> (case scopeFor r k owner of
          Inl e \<Rightarrow> Inl e
        | Inr scope \<Rightarrow> (case nameOwner r scope k name of
            Some holder \<Rightarrow> if holder \<noteq> uid then Inl (inputErr op ErrNameConflict)
                           else Inr (putReservation scope k name uid r)
          | None \<Rightarrow> Inr (putReservation scope k name uid r))))"

text \<open>\<open>rescopeName\<close>: the second component is the code's bool.\<close>

definition rescopeName ::
  "string \<Rightarrow> string \<Rightarrow> kind \<Rightarrow> string \<Rightarrow> string \<Rightarrow> registry \<Rightarrow> registry \<times> bool" where
  "rescopeName oldScope newScope k name uid r =
     (case (scopeFor r k oldScope, scopeFor r k newScope) of
        (Inr oldRoot, Inr newRoot) \<Rightarrow>
          if oldRoot = newRoot then (r, True)
          else if (case nameOwner r newRoot k name of Some holder \<Rightarrow> holder \<noteq> uid | None \<Rightarrow> False)
          then (r, False)
          else (putReservation newRoot k name uid
                 (r\<lparr>r_names := filter (\<lambda>n. \<not> heldBy oldRoot k uid n) (r_names r)\<rparr>), True)
      | _ \<Rightarrow> (r, False))"

definition automaticProjectName :: "registry \<Rightarrow> string \<Rightarrow> string" where
  "automaticProjectName r root = (let name = ProjectNameBase root in
     if name = '''' \<or> ValidateName name \<noteq> ok then ''''
     else if nameOwner r '''' KindProject name \<noteq> None then ''''
     else name)"

section \<open>Lemmas on the list\<close>

definition slot :: "reservation \<Rightarrow> string \<times> kind \<times> string" where
  "slot n = (nr_scope n, nr_kind n, nr_name n)"

definition holder :: "reservation \<Rightarrow> string \<times> kind \<times> string" where
  "holder n = (nr_scope n, nr_kind n, nr_uid n)"

text \<open>A well-formed table has one reservation per slot.\<close>

definition slotsOk :: "reservation list \<Rightarrow> bool" where
  "slotsOk ns \<longleftrightarrow> distinct (map slot ns)"

lemma sameSlot_iff: "sameSlot s k x n \<longleftrightarrow> slot n = (s, k, x)"
  by (auto simp: sameSlot_def slot_def)

lemma heldBy_iff: "heldBy s k u n \<longleftrightarrow> holder n = (s, k, u)"
  by (auto simp: heldBy_def holder_def)

lemma slot_upd [simp]: "slot (n\<lparr>nr_uid := u\<rparr>) = slot n"
  by (simp add: slot_def)

lemma slot_mk [simp]: "slot \<lparr>nr_scope = s, nr_kind = k, nr_name = x, nr_uid = u\<rparr> = (s, k, x)"
  by (simp add: slot_def)

lemma holder_mk [simp]: "holder \<lparr>nr_scope = s, nr_kind = k, nr_name = x, nr_uid = u\<rparr> = (s, k, u)"
  by (simp add: holder_def)

lemma ownerIn_None: "ownerIn ns s k x = None \<longleftrightarrow> (s, k, x) \<notin> slot ` set ns"
  by (auto simp: ownerIn_def find_None_iff sameSlot_iff intro: rev_image_eqI)

lemma ownerIn_mem:
  "slotsOk ns \<Longrightarrow> ownerIn ns s k x = Some u \<longleftrightarrow>
     \<lparr>nr_scope = s, nr_kind = k, nr_name = x, nr_uid = u\<rparr> \<in> set ns"
proof -
  let ?n = "\<lparr>nr_scope = s, nr_kind = k, nr_name = x, nr_uid = u\<rparr>"
  assume "slotsOk ns"
  then have d: "distinct (map slot ns)" by (simp add: slotsOk_def)
  have e: "sameSlot s k x = (\<lambda>n. slot n = slot ?n)" by (auto simp: sameSlot_iff)
  have n: "n = ?n" if "slot n = slot ?n" "nr_uid n = u" for n :: reservation
    using that by (cases n) (simp add: slot_def)
  show ?thesis
  proof
    assume "ownerIn ns s k x = Some u"
    then obtain n where "find (\<lambda>n. slot n = slot ?n) ns = Some n" "nr_uid n = u"
      by (auto simp: ownerIn_def e)
    with n find_SomeD [OF this(1)] show "?n \<in> set ns" by auto
  next
    assume "?n \<in> set ns"
    from find_key_distinct [OF d this] show "ownerIn ns s k x = Some u" by (simp add: ownerIn_def e)
  qed
qed

lemma slot_unique:
  assumes "slotsOk ns" "\<lparr>nr_scope = s, nr_kind = k, nr_name = x, nr_uid = u\<rparr> \<in> set ns"
    "\<lparr>nr_scope = s, nr_kind = k, nr_name = x, nr_uid = v\<rparr> \<in> set ns"
  shows "u = v"
  using assms by (metis ownerIn_mem option.inject)

lemma set_keepForPut:
  "set (keepForPut s k x u ns) =
     (\<lambda>n. n\<lparr>nr_uid := u\<rparr>) ` {n \<in> set ns. sameSlot s k x n}
     \<union> {n \<in> set ns. \<not> sameSlot s k x n \<and> \<not> heldBy s k u n}"
  by (induction ns) auto

lemma slots_keepForPut: "slot ` set (keepForPut s k x u ns) \<subseteq> slot ` set ns"
  by (auto simp: set_keepForPut)

lemma distinct_keepForPut: "slotsOk ns \<Longrightarrow> slotsOk (keepForPut s k x u ns)"
  unfolding slotsOk_def using slots_keepForPut by (induction ns) fastforce+

lemma slotsOk_putIn: "slotsOk ns \<Longrightarrow> slotsOk (putIn s k x u ns)"
  using distinct_keepForPut [of ns s k x u] slots_keepForPut [of s k x u ns]
  by (auto simp: putIn_def slotsOk_def list_ex_iff sameSlot_iff)

lemma slotsOk_releaseIn: "slotsOk ns \<Longrightarrow> slotsOk (releaseIn u ns)"
  by (simp add: releaseIn_def slotsOk_def distinct_map_filter_key)

lemma set_putIn:
  "set (putIn s k x u ns) =
     insert \<lparr>nr_scope = s, nr_kind = k, nr_name = x, nr_uid = u\<rparr>
       {n \<in> set ns. \<not> sameSlot s k x n \<and> \<not> heldBy s k u n}"
proof -
  have "n\<lparr>nr_uid := u\<rparr> = \<lparr>nr_scope = s, nr_kind = k, nr_name = x, nr_uid = u\<rparr>"
    if "sameSlot s k x n" for n :: reservation
    using that by (cases n) (simp add: sameSlot_def)
  then show ?thesis by (auto simp: putIn_def set_keepForPut list_ex_iff image_iff)
qed

lemma keepForPut_id:
  "(s, k, x) \<notin> slot ` set ns \<Longrightarrow> (s, k, u) \<notin> holder ` set ns \<Longrightarrow> keepForPut s k x u ns = ns"
  by (induction ns) (auto simp: sameSlot_iff heldBy_iff)

text \<open>A fresh uid taking a free slot only appends.\<close>

lemma putIn_fresh:
  "(s, k, x) \<notin> slot ` set ns \<Longrightarrow> (s, k, u) \<notin> holder ` set ns \<Longrightarrow>
     putIn s k x u ns = ns @ [\<lparr>nr_scope = s, nr_kind = k, nr_name = x, nr_uid = u\<rparr>]"
  by (auto simp: putIn_def keepForPut_id list_ex_iff sameSlot_iff intro: rev_image_eqI)

lemma find_keepForPut:
  "find (sameSlot s k x) (keepForPut s k x u ns) = map_option (\<lambda>n. n\<lparr>nr_uid := u\<rparr>) (find (sameSlot s k x) ns)"
  by (induction ns) (auto simp: sameSlot_iff)

lemma find_list_ex: "list_ex p xs \<longleftrightarrow> find p xs \<noteq> None"
  by (induction xs) auto

lemma ownerIn_putIn_same: "ownerIn (putIn s k x u ns) s k x = Some u"
  by (cases "find (sameSlot s k x) ns")
    (simp_all add: ownerIn_def putIn_def find_append find_list_ex find_keepForPut sameSlot_iff)

lemma set_releaseIn: "u \<noteq> '''' \<Longrightarrow> set (releaseIn u ns) = {n \<in> set ns. nr_uid n \<noteq> u \<and> nr_scope n \<noteq> u}"
  by (auto simp: releaseIn_def)

lemma eq_if_Some_iff: "(\<And>u. a = Some u \<longleftrightarrow> b = Some u) \<Longrightarrow> a = b"
  by (cases a; cases b) auto

lemma ownerIn_putIn_other:
  assumes "slotsOk ns" and "(s', k', x') \<noteq> (s, k, x)"
  shows "ownerIn (putIn s k x u ns) s' k' x' =
    (if (s', k') = (s, k) \<and> ownerIn ns s' k' x' = Some u then None else ownerIn ns s' k' x')"
  using assms(2)
  by (intro eq_if_Some_iff)
    (auto simp: ownerIn_mem [OF assms(1)] ownerIn_mem [OF slotsOk_putIn [OF assms(1)]] set_putIn
      sameSlot_def heldBy_def dest: slot_unique [OF assms(1)])

lemma ownerIn_releaseIn:
  assumes "slotsOk ns" and "u \<noteq> ''''"
  shows "ownerIn (releaseIn u ns) s k x =
    (if s = u \<or> ownerIn ns s k x = Some u then None else ownerIn ns s k x)"
  using assms(2)
  by (intro eq_if_Some_iff)
    (auto simp: ownerIn_mem [OF assms(1)] ownerIn_mem [OF slotsOk_releaseIn [OF assms(1)]]
      set_releaseIn dest: slot_unique [OF assms(1)])

section \<open>The contract of a reservation table\<close>

text \<open>
  \<open>look\<close> is a partial map from (scope, kind, name) to the holding uid. \<open>put\<close> gives the slot to a uid
  and takes away any other name the uid held there; \<open>release\<close> forgets a uid and its scope.
\<close>

locale reservation_table =
  fixes inv :: "'t \<Rightarrow> bool"
    and look :: "'t \<Rightarrow> string \<Rightarrow> kind \<Rightarrow> string \<Rightarrow> string option"
    and put :: "string \<Rightarrow> kind \<Rightarrow> string \<Rightarrow> string \<Rightarrow> 't \<Rightarrow> 't"
    and release :: "string \<Rightarrow> 't \<Rightarrow> 't"
  assumes inv_put: "inv t \<Longrightarrow> inv (put s k x u t)"
    and inv_release: "inv t \<Longrightarrow> inv (release u t)"
    and look_put_same: "look (put s k x u t) s k x = Some u"
    and look_put_other: "inv t \<Longrightarrow> (s', k', x') \<noteq> (s, k, x) \<Longrightarrow>
      look (put s k x u t) s' k' x' =
        (if (s', k') = (s, k) \<and> look t s' k' x' = Some u then None else look t s' k' x')"
    and look_release: "inv t \<Longrightarrow> u \<noteq> '''' \<Longrightarrow> look (release u t) s k x =
        (if s = u \<or> look t s k x = Some u then None else look t s k x)"
begin

text \<open>Renaming: the old name becomes free, the new one is held, other holders keep their names.\<close>

lemma rename_frees_old:
  "inv t \<Longrightarrow> look t s k old = Some u \<Longrightarrow> old \<noteq> new \<Longrightarrow> look (put s k new u t) s k old = None"
  by (simp add: look_put_other)

lemma put_keeps_others:
  assumes "inv t" "look t s' k' x' = Some v" "v \<noteq> u" "look t s k x \<in> {None, Some u}"
  shows "look (put s k x u t) s' k' x' = Some v"
proof -
  have "(s', k', x') \<noteq> (s, k, x)" using assms by auto
  with assms show ?thesis by (simp add: look_put_other)
qed

text \<open>Rolling back the reservation of a fresh uid restores every lookup.\<close>

lemma release_undoes_put:
  assumes "inv t" "u \<noteq> ''''" "s \<noteq> u" "look t s k x = None"
    and fresh: "\<And>s' k' x'. look t s' k' x' \<noteq> Some u" "\<And>k' x'. look t u k' x' = None"
  shows "look (release u (put s k x u t)) = look t"
proof (intro ext)
  fix s' k' x'
  show "look (release u (put s k x u t)) s' k' x' = look t s' k' x'"
    using assms look_put_same [of s k x u t] look_put_other [OF assms(1), of s' k' x' s k x u]
    by (cases "(s', k', x') = (s, k, x)") (auto simp: look_release [OF inv_put [OF assms(1)]])
qed

lemma release_frees: "inv t \<Longrightarrow> u \<noteq> '''' \<Longrightarrow> look (release u t) s k x \<noteq> Some u"
  by (simp add: look_release)

lemma release_keeps_others:
  "inv t \<Longrightarrow> u \<noteq> '''' \<Longrightarrow> look t s k x = Some v \<Longrightarrow> v \<noteq> u \<Longrightarrow> s \<noteq> u \<Longrightarrow> look (release u t) s k x = Some v"
  by (simp add: look_release)

end

interpretation names: reservation_table slotsOk ownerIn putIn releaseIn
  by unfold_locales
    (simp_all add: slotsOk_putIn slotsOk_releaseIn ownerIn_putIn_same ownerIn_putIn_other ownerIn_releaseIn
      split del: if_split)

end
