(* ===== verification/Mutator.thy ===== *)
theory Mutator
  imports Reservations
begin

text \<open>
  The mutation machinery of \<^verbatim>\<open>internal/core/metadata\<close>: the injected environment and the state an operation
  threads, transactions with their created-resource ledger and rollback (\<^verbatim>\<open>transaction.go\<close>), uid and
  name minting (\<^verbatim>\<open>names.go\<close>), and the creation of Projects, Windows and Panes (\<^verbatim>\<open>mutator.go\<close>).
\<close>

section \<open>Environment, transaction and state\<close>

text \<open>
  \<open>'w\<close> is the world the injected closures run in. \<open>Now\<close> and \<open>NewUID\<close> have defaults in the source, so the
  record holds the effective functions; \<open>DirExists\<close> has none and may be missing.
\<close>

record 'w mutator =
  Now :: "'w \<Rightarrow> time \<times> 'w"
  NewUID :: "kind \<Rightarrow> 'w \<Rightarrow> (error + string) \<times> 'w"
  DirExists :: "(string \<Rightarrow> 'w \<Rightarrow> (error + bool) \<times> 'w) option"

type_synonym created_ref = "kind \<times> string"

record transaction =
  tx_id :: string
  tx_ledger :: "created_ref list"
  tx_done :: bool

text \<open>The Registry an operation writes, the transaction it has open, and the world.\<close>

record 'w mstate =
  ms_reg :: registry
  ms_txn :: transaction
  ms_world :: 'w

definition getReg :: "('w mstate, registry) comp" where
  "getReg s = (Inr (ms_reg s), s)"

definition modReg :: "(registry \<Rightarrow> registry) \<Rightarrow> ('w mstate, unit) comp" where
  "modReg f s = (Inr (), s\<lparr>ms_reg := f (ms_reg s)\<rparr>)"

definition clock :: "'w mutator \<Rightarrow> ('w mstate, time) comp" where
  "clock m s = (case Now m (ms_world s) of (t, w) \<Rightarrow> (Inr t, s\<lparr>ms_world := w\<rparr>))"

definition mintUID :: "'w mutator \<Rightarrow> kind \<Rightarrow> ('w mstate, string) comp" where
  "mintUID m k s = (case NewUID m k (ms_world s) of (e, w) \<Rightarrow> (e, s\<lparr>ms_world := w\<rparr>))"

definition dirExists :: "'w mutator \<Rightarrow> string \<Rightarrow> string \<Rightarrow> ('w mstate, bool) comp" where
  "dirExists m op path s = (case DirExists m of
     None \<Rightarrow> (Inl (stateErr op ErrInvalidRoot), s)
   | Some probe \<Rightarrow> (case probe path (ms_world s) of (e, w) \<Rightarrow> (e, s\<lparr>ms_world := w\<rparr>)))"

section \<open>Transactions\<close>

definition Begin :: "string \<Rightarrow> ('w mstate, unit) comp" where
  "Begin opid s = (Inr (), s\<lparr>ms_txn := \<lparr>tx_id = opid, tx_ledger = [], tx_done = False\<rparr>\<rparr>)"

definition record_created :: "kind \<Rightarrow> string \<Rightarrow> ('w mstate, unit) comp" where
  "record_created k uid s =
     (Inr (), s\<lparr>ms_txn := (ms_txn s)\<lparr>tx_ledger := tx_ledger (ms_txn s) @ [(k, uid)]\<rparr>\<rparr>)"

definition Created :: "transaction \<Rightarrow> string list" where
  "Created t = map (\<lambda>(k, uid). kindString k @ ''/'' @ uid) (tx_ledger t)"

definition Commit :: "('w mstate, unit) comp" where
  "Commit s = (Inr (), s\<lparr>ms_txn := (ms_txn s)\<lparr>tx_done := True, tx_ledger := []\<rparr>\<rparr>)"

definition removeCreated :: "created_ref \<Rightarrow> registry \<Rightarrow> registry" where
  "removeCreated ref r = (case ref of
     (KindProject, u) \<Rightarrow> if lookupProject r u = None then r
        else releaseNames u (r\<lparr>r_projects := delFirst (\<lambda>p. p_uid p = u) (r_projects r)\<rparr>)
   | (KindControlSession, u) \<Rightarrow> if lookupControlSession r u = None then r
        else releaseNames u (r\<lparr>r_controls := delFirst (\<lambda>c. cs_uid c = u) (r_controls r)\<rparr>)
   | (KindWindow, u) \<Rightarrow> if lookupWindow r u = None then r
        else releaseNames u (r\<lparr>r_windows := delFirst (\<lambda>w. w_uid w = u) (r_windows r)\<rparr>)
   | (KindPane, u) \<Rightarrow> if lookupPane r u = None then r
        else releaseNames u (r\<lparr>r_panes := delFirst (\<lambda>p. pn_uid p = u) (r_panes r)\<rparr>)
   | (KindAgent, u) \<Rightarrow> if lookupAgent r u = None then r
        else releaseNames u (r\<lparr>r_agents := delFirst (\<lambda>a. a_uid a = u) (r_agents r)\<rparr>)
   | (KindOther _, u) \<Rightarrow> r)"

definition Rollback :: "'w mstate \<Rightarrow> 'w mstate" where
  "Rollback s = (if tx_done (ms_txn s) then s
     else s\<lparr>ms_reg := foldr removeCreated (tx_ledger (ms_txn s)) (ms_reg s),
            ms_txn := (ms_txn s)\<lparr>tx_ledger := [], tx_done := True\<rparr>\<rparr>)"

section \<open>Minting\<close>

definition maxUIDNameAttempts :: nat where
  "maxUIDNameAttempts = 100"

text \<open>
  The name a freshly minted uid gets: the explicit name, or the uid itself. \<open>Inr None\<close> discards the
  candidate (\<open>continue\<close>).
\<close>

definition candidateName :: "registry \<Rightarrow> string \<Rightarrow> kind \<Rightarrow> string \<Rightarrow> string \<Rightarrow> error + string option" where
  "candidateName reg owner k explicit uid =
     (if explicit \<noteq> '''' then Inr (Some explicit)
      else if ValidateName uid \<noteq> ok then Inr None
      else case scopeFor reg k owner of
        Inl e \<Rightarrow> Inl e
      | Inr scope \<Rightarrow> (case nameOwner reg scope k uid of
          Some o' \<Rightarrow> if o' \<noteq> uid then Inr None else Inr (Some uid)
        | None \<Rightarrow> Inr (Some uid)))"

fun mintLoop ::
  "'w mutator \<Rightarrow> string \<Rightarrow> string \<Rightarrow> kind \<Rightarrow> string \<Rightarrow> nat \<Rightarrow> ('w mstate, string \<times> string) comp" where
  "mintLoop m op owner k explicit 0 = throw (stateErr op ErrNameExhausted)"
| "mintLoop m op owner k explicit (Suc n) =
     andThen (mintUID m k) (\<lambda>uid. andThen getReg (\<lambda>reg.
       if trimSpace uid = '''' \<or> registryHasUID reg uid then mintLoop m op owner k explicit n
       else case candidateName reg owner k explicit uid of
         Inl e \<Rightarrow> throw e
       | Inr None \<Rightarrow> mintLoop m op owner k explicit n
       | Inr (Some name) \<Rightarrow> (case reserveExplicitName op owner k name uid reg of
           Inl e \<Rightarrow> throw e
         | Inr reg' \<Rightarrow> andThen (modReg (\<lambda>_. reg')) (\<lambda>_. return (uid, name)))))"

definition checkExplicit :: "string \<Rightarrow> string \<Rightarrow> kind \<Rightarrow> string \<Rightarrow> registry \<Rightarrow> check" where
  "checkExplicit op owner k explicit reg =
     (if explicit = '''' then ok
      else case ValidateName explicit of
        Inl e \<Rightarrow> Inl e
      | Inr _ \<Rightarrow> (case scopeFor reg k owner of
          Inl e \<Rightarrow> Inl e
        | Inr scope \<Rightarrow> guardErr (nameOwner reg scope k explicit \<noteq> None) (inputErr op ErrNameConflict)))"

definition mintAndReserveName ::
  "'w mutator \<Rightarrow> string \<Rightarrow> string \<Rightarrow> kind \<Rightarrow> string \<Rightarrow> ('w mstate, string \<times> string) comp" where
  "mintAndReserveName m op owner k explicit =
     andThen getReg (\<lambda>reg. andThen (liftE (checkExplicit op owner k explicit reg))
       (\<lambda>_. mintLoop m op owner k explicit maxUIDNameAttempts))"

section \<open>Creating Panes and Windows\<close>

record bootstrap_pane =
  bp_name :: string
  bp_command :: string
  bp_cwd :: string
  bp_labels :: labels

record bootstrap_window =
  bw_name :: string
  bw_command :: string
  bw_labels :: labels
  bw_panes :: "bootstrap_pane list"

definition newMeta :: "string \<Rightarrow> string \<Rightarrow> labels \<Rightarrow> labels \<Rightarrow> owner_ref option \<Rightarrow> time \<Rightarrow> object_meta" where
  "newMeta uid name labels annotations owner now =
     \<lparr>om_uid = uid, om_name = name, om_labels = labels, om_annotations = annotations, om_owner = owner,
      om_created = now, om_removed = noRemoved\<rparr>"

definition ownedBy :: "kind \<Rightarrow> string \<Rightarrow> owner_ref option" where
  "ownedBy k uid = Some \<lparr>or_kind = k, or_uid = uid\<rparr>"

definition newPane ::
  "string \<Rightarrow> string \<Rightarrow> labels \<Rightarrow> kind \<Rightarrow> string \<Rightarrow> time \<Rightarrow> pane_role \<Rightarrow> string \<Rightarrow> string \<Rightarrow> pane" where
  "newPane uid name labels ownerKind owner now role cwd command =
     \<lparr>pn_api = APIVersion, pn_kind = KindPane,
      pn_meta = newMeta uid name labels fmempty (ownedBy ownerKind owner) now,
      pn_spec = \<lparr>pns_runtime = RuntimeUnset, pns_role = role, pns_cwd = cwd, pns_command = trimSpace command\<rparr>,
      pn_status = emptyPaneStatus\<rparr>"

definition newWindow :: "string \<Rightarrow> string \<Rightarrow> labels \<Rightarrow> kind \<Rightarrow> string \<Rightarrow> time \<Rightarrow> window" where
  "newWindow uid name labels ownerKind owner now =
     \<lparr>w_api = APIVersion, w_kind = KindWindow,
      w_meta = newMeta uid name labels fmempty (ownedBy ownerKind owner) now,
      w_spec = \<lparr>ws_anchor = '''', ws_shell = '''', ws_shape = SourceTyped, ws_legacy = ''''\<rparr>,
      w_status = \<lparr>wst_conditions = [], wst_session = '''', wst_runtime = ''''\<rparr>\<rparr>"

definition adoptWindowAnchor :: "string \<Rightarrow> kind \<Rightarrow> string \<Rightarrow> registry \<Rightarrow> registry" where
  "adoptWindowAnchor owner ownerKind paneUID r =
     (if ownerKind \<noteq> KindWindow then r
      else updWindow owner (\<lambda>w. if trimSpace (ws_anchor (w_spec w)) = ''''
        then w\<lparr>w_spec := (w_spec w)\<lparr>ws_anchor := paneUID, ws_shell := paneUID\<rparr>\<rparr> else w) r)"

definition adoptProjectPrimaryWindow :: "kind \<Rightarrow> string \<Rightarrow> string \<Rightarrow> registry \<Rightarrow> registry" where
  "adoptProjectPrimaryWindow ownerKind owner windowUID r =
     (if ownerKind \<noteq> KindProject then r
      else updProject owner (\<lambda>p. if trimSpace (ps_primary (p_spec p)) = ''''
        then p\<lparr>p_spec := (p_spec p)\<lparr>ps_primary := windowUID\<rparr>\<rparr> else p) r)"

definition addPaneTx ::
  "'w mutator \<Rightarrow> string \<Rightarrow> string \<Rightarrow> kind \<Rightarrow> pane_role \<Rightarrow> string \<Rightarrow> string \<Rightarrow> string \<Rightarrow> labels \<Rightarrow> time
     \<Rightarrow> ('w mstate, pane) comp" where
  "addPaneTx m op owner ownerKind role explicit command cwd labels now =
     andThen (mintAndReserveName m op owner KindPane explicit) (\<lambda>(uid, name).
       let pane = newPane uid name labels ownerKind owner now role cwd command in
       andThen (modReg (\<lambda>r. r\<lparr>r_panes := r_panes r @ [pane]\<rparr>)) (\<lambda>_.
       andThen (record_created KindPane uid) (\<lambda>_.
       andThen (modReg (adoptWindowAnchor owner ownerKind uid)) (\<lambda>_. return pane))))"

definition declaredPanes :: "bootstrap_window \<Rightarrow> bootstrap_pane list" where
  "declaredPanes declared =
     (if bw_panes declared = []
      then [\<lparr>bp_name = '''', bp_command = bw_command declared, bp_cwd = '''', bp_labels = fmempty\<rparr>]
      else bw_panes declared)"

definition declaredPaneTx ::
  "'w mutator \<Rightarrow> string \<Rightarrow> string \<Rightarrow> string \<Rightarrow> time \<Rightarrow> bootstrap_pane \<Rightarrow> ('w mstate, pane) comp" where
  "declaredPaneTx m op windowUID defaultCWD now bp =
     addPaneTx m op windowUID KindWindow PaneRoleShell (bp_name bp) (bp_command bp)
       (let cwd = trimSpace (bp_cwd bp) in if cwd = '''' then defaultCWD else cwd) (bp_labels bp) now"

text \<open>The end of \<open>addWindowTx\<close>: anchor and default shell are the first Pane, and a Project without a
  primary Window adopts this one.\<close>

definition finishWindow :: "kind \<Rightarrow> string \<Rightarrow> string \<Rightarrow> pane list \<Rightarrow> ('w mstate, window \<times> pane list) comp" where
  "finishWindow ownerKind owner uid panes = (case panes of
     [] \<Rightarrow> throw (Panic ''index out of range'')
   | first # _ \<Rightarrow>
       andThen (modReg (updWindow uid (\<lambda>w. w\<lparr>w_spec := (w_spec w)\<lparr>ws_anchor := pn_uid first, ws_shell := pn_uid first\<rparr>\<rparr>))) (\<lambda>_.
       andThen (modReg (adoptProjectPrimaryWindow ownerKind owner uid)) (\<lambda>_.
       andThen getReg (\<lambda>r. case lookupWindow r uid of
           None \<Rightarrow> throw (Panic ''nil window'')
         | Some w \<Rightarrow> return (w, panes)))))"

definition addWindowTx ::
  "'w mutator \<Rightarrow> string \<Rightarrow> kind \<Rightarrow> string \<Rightarrow> bootstrap_window \<Rightarrow> string \<Rightarrow> time
     \<Rightarrow> ('w mstate, window \<times> pane list) comp" where
  "addWindowTx m op ownerKind owner declared defaultCWD now =
     andThen (mintAndReserveName m op owner KindWindow (bw_name declared)) (\<lambda>(uid, name).
     andThen (modReg (\<lambda>r. r\<lparr>r_windows := r_windows r @ [newWindow uid name (bw_labels declared) ownerKind owner now]\<rparr>)) (\<lambda>_.
     andThen (record_created KindWindow uid) (\<lambda>_.
     andThen (forEach (declaredPaneTx m op uid defaultCWD now) (declaredPanes declared)) (\<lambda>panes.
       finishWindow ownerKind owner uid panes))))"

end
