(* ===== verification/Identity.thy ===== *)
theory Identity
  imports Mutator
begin

text \<open>
  The identity invariant of the Registry: uids are unique and non-empty, and the reservation table and the
  resources agree in both directions (what \<^verbatim>\<open>validateReservations\<close> proves at run time). The
  second half defines how a transaction grows a Registry and shows that rolling back the ledger of such
  a growth gives the original Registry back.
\<close>

section \<open>The identity view of a Registry\<close>

text \<open>What names and ownership depend on: uid, name and owner uid of every resource, per kind.\<close>

type_synonym ident = "string \<times> string \<times> string"

definition ident :: "object_meta \<Rightarrow> ident" where
  "ident m = (om_uid m, om_name m, OwnerUID m)"

fun idents :: "registry \<Rightarrow> kind \<Rightarrow> ident list" where
  "idents r KindProject = map (\<lambda>p. ident (p_meta p)) (r_projects r)"
| "idents r KindControlSession = map (\<lambda>c. ident (cs_meta c)) (r_controls r)"
| "idents r KindWindow = map (\<lambda>w. ident (w_meta w)) (r_windows r)"
| "idents r KindPane = map (\<lambda>p. ident (pn_meta p)) (r_panes r)"
| "idents r KindAgent = map (\<lambda>a. ident (a_meta a)) (r_agents r)"
| "idents r (KindOther k) = []"

lemma idents_update [simp]:
  "idents (r\<lparr>r_names := ns\<rparr>) = idents r"
  "idents (r\<lparr>r_updated := t\<rparr>) = idents r"
  "idents (r\<lparr>r_projects := ps\<rparr>) = (idents r)(KindProject := map (\<lambda>p. ident (p_meta p)) ps)"
  "idents (r\<lparr>r_controls := cs\<rparr>) = (idents r)(KindControlSession := map (\<lambda>c. ident (cs_meta c)) cs)"
  "idents (r\<lparr>r_windows := ws\<rparr>) = (idents r)(KindWindow := map (\<lambda>w. ident (w_meta w)) ws)"
  "idents (r\<lparr>r_panes := qs\<rparr>) = (idents r)(KindPane := map (\<lambda>p. ident (pn_meta p)) qs)"
  "idents (r\<lparr>r_agents := as\<rparr>) = (idents r)(KindAgent := map (\<lambda>a. ident (a_meta a)) as)"
proof -
  note ext = ext [where 'a = kind and 'b = "ident list"]
  show "idents (r\<lparr>r_names := ns\<rparr>) = idents r"
    "idents (r\<lparr>r_updated := t\<rparr>) = idents r"
    "idents (r\<lparr>r_projects := ps\<rparr>) = (idents r)(KindProject := map (\<lambda>p. ident (p_meta p)) ps)"
    "idents (r\<lparr>r_controls := cs\<rparr>) = (idents r)(KindControlSession := map (\<lambda>c. ident (cs_meta c)) cs)"
    "idents (r\<lparr>r_windows := ws\<rparr>) = (idents r)(KindWindow := map (\<lambda>w. ident (w_meta w)) ws)"
    "idents (r\<lparr>r_panes := qs\<rparr>) = (idents r)(KindPane := map (\<lambda>p. ident (pn_meta p)) qs)"
    "idents (r\<lparr>r_agents := as\<rparr>) = (idents r)(KindAgent := map (\<lambda>a. ident (a_meta a)) as)"
    by (rule ext, rename_tac k, case_tac k; simp)+
qed

abbreviation iuid :: "ident \<Rightarrow> string" where "iuid \<equiv> fst"
abbreviation iname :: "ident \<Rightarrow> string" where "iname i \<equiv> fst (snd i)"
abbreviation iowner :: "ident \<Rightarrow> string" where "iowner i \<equiv> snd (snd i)"

definition uidsAt :: "registry \<Rightarrow> kind \<Rightarrow> string set" where
  "uidsAt r k = iuid ` set (idents r k)"

lemma iuid_ident [simp]: "iuid (ident m) = om_uid m"
  by (simp add: ident_def)

lemma uidsAt_simps:
  "uidsAt r KindProject = p_uid ` set (r_projects r)"
  "uidsAt r KindControlSession = cs_uid ` set (r_controls r)"
  "uidsAt r KindWindow = w_uid ` set (r_windows r)"
  "uidsAt r KindPane = pn_uid ` set (r_panes r)"
  "uidsAt r KindAgent = a_uid ` set (r_agents r)"
  "uidsAt r (KindOther x) = {}"
  by (simp_all add: uidsAt_def image_image)

lemma set_allUids: "set (allUids r) = (\<Union>k. uidsAt r k)"
proof
  show "set (allUids r) \<subseteq> (\<Union>k. uidsAt r k)"
    unfolding allUids_def set_append set_map uidsAt_simps [symmetric] by blast
next
  have "uidsAt r k \<subseteq> set (allUids r)" for k
    by (cases k) (auto simp: allUids_def uidsAt_simps)
  then show "(\<Union>k. uidsAt r k) \<subseteq> set (allUids r)" by blast
qed

definition sameIdents :: "registry \<Rightarrow> registry \<Rightarrow> bool" where
  "sameIdents r r' \<longleftrightarrow> idents r' = idents r \<and> r_names r' = r_names r"

lemma allUids_idents:
  "allUids r = concat (map (\<lambda>k. map iuid (idents r k)) [KindProject, KindControlSession, KindWindow, KindPane, KindAgent])"
  by (simp add: allUids_def comp_def)

lemma uidsAt_disjoint:
  "distinct (allUids r) \<Longrightarrow> u \<in> uidsAt r k \<Longrightarrow> u \<in> uidsAt r k' \<Longrightarrow> k = k'"
  by (cases k; cases k') (auto simp: allUids_def uidsAt_simps)

lemma distinct_idents: "distinct (allUids r) \<Longrightarrow> distinct (map iuid (idents r k))"
  by (cases k) (simp_all add: allUids_idents)

text \<open>Scopes depend on the identity view only.\<close>

definition ownerOf :: "registry \<Rightarrow> kind \<Rightarrow> string \<Rightarrow> string option" where
  "ownerOf r k u = map_option iowner (find (\<lambda>i. iuid i = u) (idents r k))"

lemmas ownerOf_find = ownerOf_def

lemma find_map: "find p (map f xs) = map_option f (find (\<lambda>x. p (f x)) xs)"
  by (induction xs) auto

lemma ownerOf_window: "ownerOf r KindWindow u = map_option (\<lambda>w. OwnerUID (w_meta w)) (lookupWindow r u)"
  by (simp add: ownerOf_find find_map lookupWindow_def option.map_comp comp_def ident_def)

lemma ownerOf_agent: "ownerOf r KindAgent u = map_option (\<lambda>a. OwnerUID (a_meta a)) (lookupAgent r u)"
  by (simp add: ownerOf_find find_map lookupAgent_def option.map_comp comp_def ident_def)

lemma ownerOf_None: "ownerOf r k u = None \<longleftrightarrow> u \<notin> uidsAt r k"
  by (auto simp: ownerOf_find find_none_map uidsAt_def)

lemma rootScope_view:
  "rootScope r owner = (if trimSpace owner \<in> uidsAt r KindProject \<union> uidsAt r KindControlSession
     then Inr (trimSpace owner) else Inl (stateErr ''resolve name scope'' ErrInvalidRegistry))"
  by (simp add: rootScope_def Let_def lookup_None uidsAt_simps)

lemma agentScope_view:
  "agentScope r owner = (case ownerOf r KindWindow (trimSpace owner) of
     Some o' \<Rightarrow> rootScope r o' | None \<Rightarrow> Inl (stateErr ''resolve name scope'' ErrInvalidRegistry))"
  by (simp add: agentScope_def ownerOf_window split: option.split)

lemma paneScope_view:
  "paneScope r owner = (case ownerOf r KindWindow (trimSpace owner) of
     Some o' \<Rightarrow> rootScope r o'
   | None \<Rightarrow> (case ownerOf r KindAgent (trimSpace owner) of
        Some o' \<Rightarrow> agentScope r o' | None \<Rightarrow> Inl (stateErr ''resolve name scope'' ErrInvalidRegistry)))"
  by (simp add: paneScope_def ownerOf_window ownerOf_agent split: option.split)

lemma scopeFor_idents:
  assumes "idents r' = idents r"
  shows "scopeFor r' k owner = scopeFor r k owner"
proof -
  have v: "uidsAt r' = uidsAt r" "ownerOf r' = ownerOf r"
    using assms by (auto simp: uidsAt_def ownerOf_def fun_eq_iff)
  have root: "rootScope r' = rootScope r" by (rule ext) (simp add: rootScope_view v)
  then have ag: "agentScope r' = agentScope r" by (intro ext) (simp add: agentScope_view v split: option.split)
  then have "paneScope r' = paneScope r"
    by (intro ext) (simp add: paneScope_view v root split: option.split)
  with root ag show ?thesis by (cases k) simp_all
qed

lemma rootScope_uid: "rootScope r owner = Inr s \<Longrightarrow> s \<in> set (allUids r)"
  by (auto simp: rootScope_view set_allUids split: if_splits)

lemma agentScope_uid: "agentScope r owner = Inr s \<Longrightarrow> s \<in> set (allUids r)"
  by (auto simp: agentScope_view dest: rootScope_uid split: option.splits)

lemma scopeFor_uid: "scopeFor r k owner = Inr s \<Longrightarrow> s = '''' \<or> s \<in> set (allUids r)"
  by (cases k) (auto simp: paneScope_view dest: rootScope_uid agentScope_uid split: option.splits)

text \<open>A growing Registry keeps every scope that resolved.\<close>

lemma scopeFor_mono:
  assumes own: "\<And>k u o'. ownerOf r k u = Some o' \<Longrightarrow> ownerOf r' k u = Some o'"
    and fresh: "\<And>k k' u. u \<in> uidsAt r k \<Longrightarrow> u \<notin> uidsAt r k' \<Longrightarrow> u \<notin> uidsAt r' k'"
    and s: "scopeFor r k owner = Inr s"
  shows "scopeFor r' k owner = Inr s"
proof -
  have up: "u \<in> uidsAt r k \<Longrightarrow> u \<in> uidsAt r' k" for k u
    using own ownerOf_None by (metis option.exhaust)
  have root: "rootScope r o' = Inr s \<Longrightarrow> rootScope r' o' = Inr s" for o'
    using up by (auto simp: rootScope_view split: if_splits)
  have ag: "agentScope r o' = Inr s \<Longrightarrow> agentScope r' o' = Inr s" for o'
    using root own by (auto simp: agentScope_view split: option.splits)
  have pn: "paneScope r o' = Inr s \<Longrightarrow> paneScope r' o' = Inr s" for o'
  proof (cases "ownerOf r KindWindow (trimSpace o')")
    case None
    assume p: "paneScope r o' = Inr s"
    with None obtain a where a: "ownerOf r KindAgent (trimSpace o') = Some a" "agentScope r a = Inr s"
      by (auto simp: paneScope_view split: option.splits)
    then have "trimSpace o' \<in> uidsAt r KindAgent" using ownerOf_None by (metis option.distinct(1))
    with None fresh have "ownerOf r' KindWindow (trimSpace o') = None" using ownerOf_None by metis
    with a own ag show ?thesis by (simp add: paneScope_view)
  next
    case (Some w)
    assume "paneScope r o' = Inr s"
    with Some own [OF Some] root show ?thesis by (simp add: paneScope_view)
  qed
  from s root ag pn show ?thesis by (cases k) auto
qed

section \<open>The invariant\<close>

definition reservedAt :: "registry \<Rightarrow> kind \<Rightarrow> ident \<Rightarrow> bool" where
  "reservedAt r k i \<longleftrightarrow> (case scopeFor r k (iowner i) of
     Inl _ \<Rightarrow> False
   | Inr s \<Rightarrow> \<lparr>nr_scope = s, nr_kind = k, nr_name = iname i, nr_uid = iuid i\<rparr> \<in> set (r_names r))"

definition identity :: "registry \<Rightarrow> bool" where
  "identity r \<longleftrightarrow> distinct (allUids r) \<and> '''' \<notin> set (allUids r)
     \<and> slotsOk (r_names r) \<and> distinct (map nr_uid (r_names r))
     \<and> (\<forall>n \<in> set (r_names r). nr_uid n \<in> uidsAt r (nr_kind n))
     \<and> (\<forall>k. \<forall>i \<in> set (idents r k). reservedAt r k i)"

lemma sameIdents_view:
  assumes "sameIdents r r'"
  shows "allUids r' = allUids r" "uidsAt r' = uidsAt r" "reservedAt r' = reservedAt r"
    "r_names r' = r_names r" "idents r' = idents r" "scopeFor r' = scopeFor r"
proof -
  from assms have i: "idents r' = idents r" "r_names r' = r_names r" by (simp_all add: sameIdents_def)
  then show "allUids r' = allUids r" "uidsAt r' = uidsAt r" "r_names r' = r_names r" "idents r' = idents r"
    by (auto simp: allUids_idents uidsAt_def)
  show s: "scopeFor r' = scopeFor r" by (intro ext) (rule scopeFor_idents [OF i(1)])
  show "reservedAt r' = reservedAt r" by (intro ext) (simp add: reservedAt_def s i(2) split: sum.split)
qed

lemma identity_cong: "sameIdents r r' \<Longrightarrow> identity r \<Longrightarrow> identity r'"
  by (simp add: identity_def sameIdents_view)

lemma identity_NewRegistry: "identity NewRegistry"
proof -
  have "idents NewRegistry k = []" for k by (cases k) (simp_all add: NewRegistry_def)
  then show ?thesis by (simp add: identity_def NewRegistry_def allUids_def slotsOk_def)
qed

text \<open>Under the invariant a reservation is the reservation of exactly one resource.\<close>

lemma identity_names:
  assumes "identity r" and "n \<in> set (r_names r)"
  obtains i where "i \<in> set (idents r (nr_kind n))" "nr_uid n = iuid i" "nr_name n = iname i"
    "scopeFor r (nr_kind n) (iowner i) = Inr (nr_scope n)"
proof -
  from assms obtain i where i: "i \<in> set (idents r (nr_kind n))" "nr_uid n = iuid i"
    by (auto simp: identity_def uidsAt_def)
  with assms have "reservedAt r (nr_kind n) i" by (simp add: identity_def)
  then obtain s where s: "scopeFor r (nr_kind n) (iowner i) = Inr s"
    "\<lparr>nr_scope = s, nr_kind = nr_kind n, nr_name = iname i, nr_uid = iuid i\<rparr> \<in> set (r_names r)" (is "?n \<in> _")
    by (auto simp: reservedAt_def split: sum.splits)
  have "distinct (map nr_uid (r_names r))" using assms by (simp add: identity_def)
  then have "inj_on nr_uid (set (r_names r))" by (simp add: distinct_map)
  from inj_onD [OF this _ s(2) assms(2)] i(2) have "?n = n" by simp
  then have "nr_scope n = s" "nr_name n = iname i"
    by (cases n; simp)+
  with that i s show thesis by simp
qed

lemma identity_scope:
  assumes "identity r" and "n \<in> set (r_names r)"
  shows "nr_scope n = '''' \<or> nr_scope n \<in> set (allUids r)"
  using identity_names [OF assms] scopeFor_uid by metis

lemma identity_uid: "identity r \<Longrightarrow> n \<in> set (r_names r) \<Longrightarrow> nr_uid n \<in> set (allUids r)"
  by (auto simp: identity_def set_allUids)

lemma identity_ownerIn:
  assumes "identity r" "i \<in> set (idents r k)"
  obtains s where "scopeFor r k (iowner i) = Inr s" "ownerIn (r_names r) s k (iname i) = Some (iuid i)"
proof -
  obtain s where s: "scopeFor r k (iowner i) = Inr s"
    "\<lparr>nr_scope = s, nr_kind = k, nr_name = iname i, nr_uid = iuid i\<rparr> \<in> set (r_names r)"
  proof -
    from assms have "reservedAt r k i" by (simp add: identity_def)
    with that show thesis by (auto simp: reservedAt_def split: sum.splits)
  qed
  moreover have "slotsOk (r_names r)" using assms by (simp add: identity_def)
  ultimately show thesis using that ownerIn_mem by blast
qed

section \<open>Adding one resource\<close>

definition addsResource :: "kind \<Rightarrow> ident \<Rightarrow> registry \<Rightarrow> registry \<Rightarrow> bool" where
  "addsResource k i r r' \<longleftrightarrow> idents r' = (idents r)(k := idents r k @ [i])
     \<and> (\<exists>s. scopeFor r k (iowner i) = Inr s
         \<and> r_names r' = r_names r @ [\<lparr>nr_scope = s, nr_kind = k, nr_name = iname i, nr_uid = iuid i\<rparr>]
         \<and> (s, k, iname i) \<notin> slot ` set (r_names r))"

lemma addsResource_identity:
  assumes I: "identity r" and A: "addsResource k i r r'"
    and u: "iuid i \<notin> set (allUids r)" "iuid i \<noteq> ''''" and k: "\<And>x. k \<noteq> KindOther x"
  shows "identity r'"
proof -
  from A obtain s where s: "scopeFor r k (iowner i) = Inr s"
    and n: "r_names r' = r_names r @ [\<lparr>nr_scope = s, nr_kind = k, nr_name = iname i, nr_uid = iuid i\<rparr>]"
    and free: "(s, k, iname i) \<notin> slot ` set (r_names r)"
    and ids: "idents r' = (idents r)(k := idents r k @ [i])"
    by (auto simp: addsResource_def)
  have at: "uidsAt r' k' = (if k' = k then insert (iuid i) (uidsAt r k) else uidsAt r k')" for k'
    by (simp add: uidsAt_def ids)
  have all: "distinct (allUids r')" "'''' \<notin> set (allUids r')"
    using I u k by (cases k; force simp: identity_def allUids_idents ids)+
  have own: "ownerOf r k' v = Some o' \<Longrightarrow> ownerOf r' k' v = Some o'" for k' v o'
    by (auto simp: ownerOf_find ids find_append split: option.splits)
  have fr: "v \<in> uidsAt r k1 \<Longrightarrow> v \<notin> uidsAt r k2 \<Longrightarrow> v \<notin> uidsAt r' k2" for v k1 k2
    using u(1) by (auto simp: at set_allUids)
  have mono: "scopeFor r k' o' = Inr s' \<Longrightarrow> scopeFor r' k' o' = Inr s'" for k' o' s'
    by (rule scopeFor_mono [OF own fr])
  have old: "reservedAt r k' j \<Longrightarrow> reservedAt r' k' j" for k' j
    using mono by (auto simp: reservedAt_def n split: sum.splits)
  have new: "reservedAt r' k i" using mono [OF s] by (simp add: reservedAt_def n)
  have slots: "slotsOk (r_names r')" using I free by (simp add: identity_def slotsOk_def n)
  have du: "distinct (map nr_uid (r_names r'))"
    using I u(1) identity_uid [OF I] by (auto simp: identity_def n)
  have mem: "\<forall>m \<in> set (r_names r'). nr_uid m \<in> uidsAt r' (nr_kind m)"
    using I by (auto simp: identity_def n at)
  have res: "\<forall>k'. \<forall>j \<in> set (idents r' k'). reservedAt r' k' j"
    using I old new by (auto simp: identity_def ids)
  show ?thesis unfolding identity_def using all slots du mem res by blast
qed

end
