(* ===== verification/Growth.thy ===== *)
theory Growth
  imports Identity
begin

text \<open>
  How a transaction changes a Registry before it commits, and why its rollback is exact. \<open>grown r M L r'\<close>
  says that \<open>r'\<close> is \<open>r\<close> with new resources appended, exactly those of the ledger \<open>L\<close>, their reservations
  appended, and old resources changed at most at the uids of \<open>M\<close>, keeping uid, name and owner.
\<close>

section \<open>Growing one list\<close>

definition grow :: "('a \<Rightarrow> ident) \<Rightarrow> string set \<Rightarrow> string set \<Rightarrow> 'a list \<Rightarrow> 'a list \<Rightarrow> bool" where
  "grow f M U xs ys \<longleftrightarrow> (\<exists>xs' zs. ys = xs' @ zs
     \<and> list_all2 (\<lambda>x y. f y = f x \<and> (iuid (f x) \<notin> M \<longrightarrow> y = x)) xs xs'
     \<and> (\<lambda>x. iuid (f x)) ` set zs = U)"

lemma grow_refl: "grow f M {} xs xs"
  unfolding grow_def by (intro exI [of _ xs] exI [of _ "[]"]) (simp add: list.rel_refl)

lemma grow_append: "grow f M {iuid (f x)} xs (xs @ [x])"
  unfolding grow_def by (intro exI [of _ xs] exI [of _ "[x]"]) (simp add: list.rel_refl)

lemma grow_upd:
  assumes "\<And>x. f (g x) = f x"
  shows "grow f {u} {} xs (updFirst (\<lambda>x. iuid (f x) = u) g xs)"
proof -
  have "list_all2 (\<lambda>x y. f y = f x \<and> (iuid (f x) \<notin> {u} \<longrightarrow> y = x)) xs (updFirst (\<lambda>x. iuid (f x) = u) g xs)"
    by (induction xs) (auto simp: assms list.rel_refl)
  then show ?thesis unfolding grow_def by (intro exI [of _ "updFirst _ _ _"] exI [of _ "[]"]) simp
qed

lemma grow_map: "grow f M U xs ys \<Longrightarrow> \<exists>zs. map f ys = map f xs @ zs \<and> iuid ` set zs = U"
proof -
  assume "grow f M U xs ys"
  then obtain xs' zs where g: "ys = xs' @ zs"
    "list_all2 (\<lambda>x y. f y = f x \<and> (iuid (f x) \<notin> M \<longrightarrow> y = x)) xs xs'"
    "(\<lambda>x. iuid (f x)) ` set zs = U" by (auto simp: grow_def)
  from g(2) have "map f xs' = map f xs" by (induction rule: list_all2_induct) auto
  with g show ?thesis by (intro exI [of _ "map f zs"]) (simp add: image_image)
qed

lemma grow_trans:
  assumes "grow f M1 U1 xs ys" and "grow f M2 U2 ys zs"
    and disj: "\<And>x. x \<in> set xs \<Longrightarrow> iuid (f x) \<notin> U1"
  shows "grow f ((M1 \<union> M2) - U1) (U1 \<union> U2) xs zs"
proof -
  let ?R = "\<lambda>M x y. f y = f x \<and> (iuid (f x) \<notin> M \<longrightarrow> y = x)"
  obtain xs' e1 where a: "ys = xs' @ e1" "list_all2 (?R M1) xs xs'" "(\<lambda>x. iuid (f x)) ` set e1 = U1"
    using assms(1) by (auto simp: grow_def)
  obtain ys' e2 where b: "zs = ys' @ e2" "list_all2 (?R M2) ys ys'" "(\<lambda>x. iuid (f x)) ` set e2 = U2"
    using assms(2) by (auto simp: grow_def)
  obtain xs'' e1' where c: "ys' = xs'' @ e1'" "list_all2 (?R M2) xs' xs''" "list_all2 (?R M2) e1 e1'"
    using b(2) a(1) by (auto simp: list_all2_append1)
  from c(3) have "map f e1' = map f e1" by (induction rule: list_all2_induct) auto
  then have "(\<lambda>x. iuid (f x)) ` set e1' = U1"
    using a(3) by (metis (no_types) image_image image_set list.set_map)
  moreover have "list_all2 (?R ((M1 \<union> M2) - U1)) xs xs''"
  proof -
    have "list_all2 (\<lambda>x z. \<exists>y. ?R M1 x y \<and> ?R M2 y z) xs xs''"
      using list_all2_trans [OF _ a(2) c(2), of "\<lambda>x z. \<exists>y. ?R M1 x y \<and> ?R M2 y z"] by blast
    then have "list_all2 (\<lambda>x z. x \<in> set xs \<and> (\<exists>y. ?R M1 x y \<and> ?R M2 y z)) xs xs''"
      by (simp add: list_all2_conv_all_nth)
    then show ?thesis by (rule list_all2_mono) (use disj in auto)
  qed
  ultimately show ?thesis
    unfolding grow_def using b c by (intro exI [of _ xs''] exI [of _ "e1' @ e2"]) (simp add: image_Un)
qed

lemma grow_mono: "grow f M U xs ys \<Longrightarrow> M \<subseteq> M' \<Longrightarrow> grow f M' U xs ys"
  unfolding grow_def by (elim exE conjE, intro exI conjI, assumption, erule list_all2_mono) auto

lemma grow_filter:
  assumes "grow f {} U xs ys" and "U \<subseteq> V" and "\<And>x. x \<in> set xs \<Longrightarrow> iuid (f x) \<notin> V"
  shows "filter (\<lambda>x. iuid (f x) \<notin> V) ys = xs"
proof -
  obtain xs' zs where a: "ys = xs' @ zs" "(\<lambda>x. iuid (f x)) ` set zs = U"
    "list_all2 (\<lambda>x y. f y = f x \<and> (iuid (f x) \<notin> {} \<longrightarrow> y = x)) xs xs'"
    using assms(1) by (auto simp: grow_def)
  from a(3) have "xs' = xs" by (induction rule: list_all2_induct) auto
  moreover have "filter (\<lambda>x. iuid (f x) \<notin> V) zs = []" using a(2) assms(2) by (auto simp: filter_empty_conv)
  moreover have "filter (\<lambda>x. iuid (f x) \<notin> V) xs = xs" using assms(3) by (simp add: filter_id_conv)
  ultimately show ?thesis using a(1) by simp
qed

section \<open>Growing a Registry\<close>

definition ledgerAt :: "created_ref list \<Rightarrow> kind \<Rightarrow> string set" where
  "ledgerAt L k = {u. (k, u) \<in> set L}"

lemma ledgerAt_simps [simp]:
  "ledgerAt [] k = {}"
  "ledgerAt (L @ L') k = ledgerAt L k \<union> ledgerAt L' k"
  "ledgerAt [(k, u)] k' = (if k' = k then {u} else {})"
  by (auto simp: ledgerAt_def)

definition grown :: "registry \<Rightarrow> string set \<Rightarrow> created_ref list \<Rightarrow> registry \<Rightarrow> bool" where
  "grown r M L r' \<longleftrightarrow>
     grow (\<lambda>p. ident (p_meta p)) M (ledgerAt L KindProject) (r_projects r) (r_projects r')
   \<and> grow (\<lambda>c. ident (cs_meta c)) M (ledgerAt L KindControlSession) (r_controls r) (r_controls r')
   \<and> grow (\<lambda>w. ident (w_meta w)) M (ledgerAt L KindWindow) (r_windows r) (r_windows r')
   \<and> grow (\<lambda>p. ident (pn_meta p)) M (ledgerAt L KindPane) (r_panes r) (r_panes r')
   \<and> grow (\<lambda>a. ident (a_meta a)) M (ledgerAt L KindAgent) (r_agents r) (r_agents r')
   \<and> (\<forall>x. ledgerAt L (KindOther x) = {})
   \<and> (\<exists>ns. r_names r' = r_names r @ ns \<and> nr_uid ` set ns \<subseteq> snd ` set L)
   \<and> r_api r' = r_api r \<and> r_schema r' = r_schema r \<and> r_updated r' = r_updated r"

lemma snd_ledger: "snd ` set L = (\<Union>k. ledgerAt L k)"
  by (force simp: ledgerAt_def)

lemma grown_refl: "grown r M [] r"
  by (simp add: grown_def grow_refl)

lemma grown_mono: "grown r M L r' \<Longrightarrow> M \<subseteq> M' \<Longrightarrow> grown r M' L r'"
  by (auto simp: grown_def elim: grow_mono)

lemma grown_idents:
  assumes "grown r M L r'"
  shows "\<exists>zs. idents r' k = idents r k @ zs \<and> iuid ` set zs = ledgerAt L k"
  using assms unfolding grown_def
  by (cases k) (auto dest: grow_map)

lemma grown_uidsAt:
  assumes "grown r M L r'"
  shows "uidsAt r' k = uidsAt r k \<union> ledgerAt L k"
proof -
  obtain z where "idents r' k = idents r k @ z" "iuid ` set z = ledgerAt L k"
    using grown_idents [OF assms] by blast
  then show ?thesis unfolding uidsAt_def by (simp only: set_append image_Un)
qed

lemma grown_disjoint:
  assumes "grown r M L r'" and "distinct (allUids r')" and "u \<in> set (allUids r)"
  shows "u \<notin> snd ` set L"
proof -
  from assms(3) obtain k where k: "u \<in> uidsAt r k" by (auto simp: set_allUids)
  have "u \<notin> ledgerAt L k'" for k'
  proof
    assume u: "u \<in> ledgerAt L k'"
    obtain z where z: "idents r' k = idents r k @ z" "iuid ` set z = ledgerAt L k"
      using grown_idents [OF assms(1)] by blast
    obtain z' where z': "idents r' k' = idents r k' @ z'" "iuid ` set z' = ledgerAt L k'"
      using grown_idents [OF assms(1)] by blast
    show False
    proof (cases "k = k'")
      case True
      have "distinct (map iuid (idents r' k))"
        by (rule distinct_idents [OF assms(2)])
      with z u k True show False by (auto simp: uidsAt_def)
    next
      case False
      have "u \<in> uidsAt r' k" "u \<in> uidsAt r' k'"
        using k u grown_uidsAt [OF assms(1)] by auto
      with False uidsAt_disjoint [OF assms(2)] show False by blast
    qed
  qed
  then show ?thesis by (auto simp: snd_ledger)
qed

lemma grown_trans:
  assumes g1: "grown r M1 L1 r1" and g2: "grown r1 M2 L2 r2" and d: "distinct (allUids r1)"
  shows "grown r ((M1 \<union> M2) - snd ` set L1) (L1 @ L2) r2"
proof -
  have dis: "u \<notin> snd ` set L1" if "u \<in> uidsAt r k" for u k
    using grown_disjoint [OF g1 d] that by (auto simp: set_allUids)
  have at: "ledgerAt L1 k \<subseteq> snd ` set L1" for k by (auto simp: snd_ledger)
  let ?M = "(M1 \<union> M2) - snd ` set L1"
  have step: "grow f ?M (ledgerAt (L1 @ L2) k) xs zs"
    if gr1: "grow f M1 (ledgerAt L1 k) xs ys" and gr2: "grow f M2 (ledgerAt L2 k) ys zs"
      and mem: "\<And>x. x \<in> set xs \<Longrightarrow> iuid (f x) \<in> uidsAt r k" for f :: "'b \<Rightarrow> ident" and k xs ys zs
  proof -
    have "iuid (f x) \<notin> ledgerAt L1 k" if "x \<in> set xs" for x using dis [OF mem [OF that]] at by blast
    from grow_trans [OF gr1 gr2 this]
    have "grow f ((M1 \<union> M2) - ledgerAt L1 k) (ledgerAt (L1 @ L2) k) xs zs" by simp
    then obtain xs' e where e: "zs = xs' @ e" "(\<lambda>x. iuid (f x)) ` set e = ledgerAt (L1 @ L2) k"
      "list_all2 (\<lambda>x y. f y = f x \<and> (iuid (f x) \<notin> (M1 \<union> M2) - ledgerAt L1 k \<longrightarrow> y = x)) xs xs'"
      by (auto simp: grow_def)
    have "list_all2 (\<lambda>x y. x \<in> set xs \<and> f y = f x \<and> (iuid (f x) \<notin> (M1 \<union> M2) - ledgerAt L1 k \<longrightarrow> y = x)) xs xs'"
      using e(3) by (simp add: list_all2_conv_all_nth)
    then have "list_all2 (\<lambda>x y. f y = f x \<and> (iuid (f x) \<notin> ?M \<longrightarrow> y = x)) xs xs'"
      by (rule list_all2_mono) (use dis mem at in blast)
    with e show ?thesis unfolding grow_def by blast
  qed
  have names: "\<exists>ns. r_names r2 = r_names r @ ns \<and> nr_uid ` set ns \<subseteq> snd ` set (L1 @ L2)"
  proof -
    obtain n1 n2 where "r_names r1 = r_names r @ n1" "nr_uid ` set n1 \<subseteq> snd ` set L1"
      "r_names r2 = r_names r1 @ n2" "nr_uid ` set n2 \<subseteq> snd ` set L2"
      using g1 g2 by (auto simp: grown_def)
    then show ?thesis by (intro exI [of _ "n1 @ n2"]) auto
  qed
  from g1 g2 names show ?thesis
    unfolding grown_def
    by (intro conjI)
      (auto intro!: step simp del: ledgerAt_simps(2) simp: uidsAt_simps ledgerAt_simps(2) [of _ _ "KindOther _"])
qed

section \<open>Rollback\<close>

definition without :: "string set \<Rightarrow> registry \<Rightarrow> registry" where
  "without V r = r\<lparr>r_projects := filter (\<lambda>p. p_uid p \<notin> V) (r_projects r),
     r_controls := filter (\<lambda>c. cs_uid c \<notin> V) (r_controls r),
     r_windows := filter (\<lambda>w. w_uid w \<notin> V) (r_windows r),
     r_panes := filter (\<lambda>p. pn_uid p \<notin> V) (r_panes r),
     r_agents := filter (\<lambda>a. a_uid a \<notin> V) (r_agents r),
     r_names := filter (\<lambda>n. nr_uid n \<notin> V \<and> nr_scope n \<notin> V) (r_names r)\<rparr>"

lemma without_empty [simp]: "without {} r = r"
  by (simp add: without_def)

lemma delFirst_filter:
  "distinct (map k xs) \<Longrightarrow> delFirst (\<lambda>x. k x = u) xs = filter (\<lambda>x. k x \<noteq> u) xs"
proof (induction xs)
  case (Cons x xs)
  then have "filter (\<lambda>y. k y \<noteq> k x) xs = xs"
    by (intro filter_True) (auto simp: rev_image_eqI)
  with Cons show ?case by auto
qed simp

lemma filter_absent:
  "u \<notin> k ` set xs \<Longrightarrow> filter (\<lambda>x. k x \<noteq> u \<and> k x \<notin> V) xs = filter (\<lambda>x. k x \<notin> V) xs"
  by (rule filter_cong) auto

lemma filter_delFirst:
  assumes "distinct (map k xs)"
  shows "delFirst (\<lambda>x. k x = u) (filter (\<lambda>x. k x \<notin> V) xs) = filter (\<lambda>x. k x \<noteq> u \<and> k x \<notin> V) xs"
  using delFirst_filter [OF distinct_map_filter_key [OF assms]] by (simp add: conj_commute)

lemma removeCreated_without:
  assumes d: "distinct (allUids r)" and u: "u \<in> uidsAt r k" "u \<noteq> ''''" "u \<notin> V"
  shows "removeCreated (k, u) (without V r) = without (insert u V) r"
proof -
  have n: "releaseIn u (filter (\<lambda>n. nr_uid n \<notin> V \<and> nr_scope n \<notin> V) ns)
      = filter (\<lambda>n. nr_uid n \<noteq> u \<and> nr_uid n \<notin> V \<and> nr_scope n \<noteq> u \<and> nr_scope n \<notin> V) ns" for ns
    using u(2) by (auto simp: releaseIn_def intro: filter_cong)
  have dis: "distinct (map p_uid (r_projects r))" "distinct (map cs_uid (r_controls r))"
    "distinct (map w_uid (r_windows r))" "distinct (map pn_uid (r_panes r))" "distinct (map a_uid (r_agents r))"
    using d by (simp_all add: allUids_def)
  note del = dis [THEN filter_delFirst]
  have mem: "f ` {x \<in> set xs. f x \<notin> V} = f ` set xs - V" for f :: "'b \<Rightarrow> string" and xs by auto
  show ?thesis
  proof (cases k)
    case KindProject
    then have "u \<notin> cs_uid ` set (r_controls r)" "u \<notin> w_uid ` set (r_windows r)"
      "u \<notin> pn_uid ` set (r_panes r)" "u \<notin> a_uid ` set (r_agents r)"
      using d u(1) by (auto simp: allUids_def uidsAt_simps)
    then show ?thesis using KindProject u del
      by (cases r) (simp add: removeCreated_def lookup_None uidsAt_simps without_def
          releaseNames_def n mem filter_absent)
  next
    case KindControlSession
    then have "u \<notin> p_uid ` set (r_projects r)" "u \<notin> w_uid ` set (r_windows r)"
      "u \<notin> pn_uid ` set (r_panes r)" "u \<notin> a_uid ` set (r_agents r)"
      using d u(1) by (auto simp: allUids_def uidsAt_simps)
    then show ?thesis using KindControlSession u del
      by (cases r) (simp add: removeCreated_def lookup_None uidsAt_simps without_def
          releaseNames_def n mem filter_absent)
  next
    case KindWindow
    then have "u \<notin> p_uid ` set (r_projects r)" "u \<notin> cs_uid ` set (r_controls r)"
      "u \<notin> pn_uid ` set (r_panes r)" "u \<notin> a_uid ` set (r_agents r)"
      using d u(1) by (auto simp: allUids_def uidsAt_simps)
    then show ?thesis using KindWindow u del
      by (cases r) (simp add: removeCreated_def lookup_None uidsAt_simps without_def
          releaseNames_def n mem filter_absent)
  next
    case KindPane
    then have "u \<notin> p_uid ` set (r_projects r)" "u \<notin> cs_uid ` set (r_controls r)"
      "u \<notin> w_uid ` set (r_windows r)" "u \<notin> a_uid ` set (r_agents r)"
      using d u(1) by (auto simp: allUids_def uidsAt_simps)
    then show ?thesis using KindPane u del
      by (cases r) (simp add: removeCreated_def lookup_None uidsAt_simps without_def
          releaseNames_def n mem filter_absent)
  next
    case KindAgent
    then have "u \<notin> p_uid ` set (r_projects r)" "u \<notin> cs_uid ` set (r_controls r)"
      "u \<notin> w_uid ` set (r_windows r)" "u \<notin> pn_uid ` set (r_panes r)"
      using d u(1) by (auto simp: allUids_def uidsAt_simps)
    then show ?thesis using KindAgent u del
      by (cases r) (simp add: removeCreated_def lookup_None uidsAt_simps without_def
          releaseNames_def n mem filter_absent)
  next
    case (KindOther x)
    with u show ?thesis by (simp add: uidsAt_simps)
  qed
qed

lemma removeCreated_gone:
  assumes "u \<in> V"
  shows "removeCreated (k, u) (without V r) = without V r"
  using assms
  by (cases k) (auto simp: removeCreated_def lookup_None without_def)

lemma rollback_without:
  assumes "distinct (allUids r)" "'''' \<notin> set (allUids r)"
    and "\<And>k u. (k, u) \<in> set L \<Longrightarrow> u \<in> uidsAt r k"
  shows "foldr removeCreated L r = without (snd ` set L) r"
  using assms(3)
proof (induction L)
  case (Cons ref L)
  obtain k u where ref: "ref = (k, u)" by fastforce
  from Cons.prems ref have "u \<in> uidsAt r k" by simp
  then have "u \<noteq> ''''" using assms(2) by (auto simp: set_allUids)
  with Cons ref show ?case
    using removeCreated_without [OF assms(1) \<open>u \<in> uidsAt r k\<close>] removeCreated_gone
    by (cases "u \<in> snd ` set L") (simp_all add: insert_absorb)
qed simp

text \<open>The rollback of exactly the resources a transaction added restores the Registry.\<close>

lemma rollback_grown:
  assumes I: "identity r" and I': "identity r'" and g: "grown r {} L r'"
  shows "foldr removeCreated L r' = r"
proof -
  let ?V = "snd ` set L"
  have d: "distinct (allUids r')" "'''' \<notin> set (allUids r')" using I' by (simp_all add: identity_def)
  have old: "u \<in> set (allUids r) \<Longrightarrow> u \<notin> ?V" for u by (rule grown_disjoint [OF g d(1)])
  have emp: "'''' \<notin> ?V" using d(2) grown_uidsAt [OF g] by (auto simp: set_allUids snd_ledger)
  have at: "(k, u) \<in> set L \<Longrightarrow> u \<in> uidsAt r' k" for k u
    using grown_uidsAt [OF g, of k] by (auto simp: ledgerAt_def)
  have V: "ledgerAt L k \<subseteq> ?V" for k by (auto simp: snd_ledger)
  have un: "u \<in> uidsAt r k \<Longrightarrow> u \<notin> ?V" for u k using old by (auto simp: set_allUids)
  have fil: "filter (\<lambda>x. iuid (f x) \<notin> ?V) ys = xs"
    if "grow f {} (ledgerAt L k) xs ys" "\<And>x. x \<in> set xs \<Longrightarrow> iuid (f x) \<in> uidsAt r k"
    for f :: "'b \<Rightarrow> ident" and k xs ys
    by (rule grow_filter [OF that(1) V]) (use un that(2) in blast)
  note grow = g [unfolded grown_def]
  have lists: "filter (\<lambda>p. p_uid p \<notin> ?V) (r_projects r') = r_projects r"
    "filter (\<lambda>c. cs_uid c \<notin> ?V) (r_controls r') = r_controls r"
    "filter (\<lambda>w. w_uid w \<notin> ?V) (r_windows r') = r_windows r"
    "filter (\<lambda>p. pn_uid p \<notin> ?V) (r_panes r') = r_panes r"
    "filter (\<lambda>a. a_uid a \<notin> ?V) (r_agents r') = r_agents r"
    using grow fil [of "\<lambda>p. ident (p_meta p)" KindProject "r_projects r" "r_projects r'"]
      fil [of "\<lambda>c. ident (cs_meta c)" KindControlSession "r_controls r" "r_controls r'"]
      fil [of "\<lambda>w. ident (w_meta w)" KindWindow "r_windows r" "r_windows r'"]
      fil [of "\<lambda>p. ident (pn_meta p)" KindPane "r_panes r" "r_panes r'"]
      fil [of "\<lambda>a. ident (a_meta a)" KindAgent "r_agents r" "r_agents r'"]
    by (simp_all add: uidsAt_simps)
  obtain ns where ns: "r_names r' = r_names r @ ns" "nr_uid ` set ns \<subseteq> ?V" using grow by blast
  have names: "filter (\<lambda>n. nr_uid n \<notin> ?V \<and> nr_scope n \<notin> ?V) (r_names r') = r_names r"
  proof -
    have "filter (\<lambda>n. nr_uid n \<notin> ?V \<and> nr_scope n \<notin> ?V) (r_names r) = r_names r"
      using identity_uid [OF I] identity_scope [OF I] old emp by (intro filter_True) metis
    moreover have "filter (\<lambda>n. nr_uid n \<notin> ?V \<and> nr_scope n \<notin> ?V) ns = []"
      using ns(2) by (auto simp: filter_empty_conv)
    ultimately show ?thesis by (simp add: ns(1))
  qed
  have "foldr removeCreated L r' = without ?V r'" by (rule rollback_without [OF d at])
  also have "\<dots> = r" unfolding without_def lists names using grow by (cases r; cases r') simp
  finally show ?thesis .
qed

end
