(* ===== verification/Create.thy ===== *)
theory Create
  imports Growth
begin

text \<open>
  The creating operations of \<^verbatim>\<open>internal/core/metadata/mutator.go\<close>: \<open>RegisterProject\<close>, \<open>AddWindow\<close>,
  \<open>AddWindowToManagedRoot\<close> and \<open>AddPane\<close>, each a transaction, with the lemmas that every step of a
  transaction keeps the identity invariant and grows the Registry by its ledger.
\<close>

section \<open>Operations\<close>

definition validateRoot :: "'w mutator \<Rightarrow> string \<Rightarrow> string \<Rightarrow> ('w mstate, string) comp" where
  "validateRoot m op root = (let cleaned = cleanRoot root in
     if cleaned = '''' then throw (inputErr op ErrInvalidRoot)
     else if \<not> pathIsAbs cleaned then throw (inputErr op ErrInvalidRoot)
     else andThen (dirExists m op cleaned) (\<lambda>exists.
       if exists then return cleaned else throw (inputErr op ErrInvalidRoot)))"

record register_options =
  ro_root :: string
  ro_name :: string
  ro_labels :: labels
  ro_annotations :: labels
  ro_topology :: "bootstrap_window list"
  ro_session :: string
  ro_operation :: string

record register_result =
  rr_project :: project
  rr_windows :: "window list"
  rr_panes :: "pane list"
  rr_reused :: bool
  rr_operation :: string
  rr_created :: "string list"

definition projectPanes :: "registry \<Rightarrow> string \<Rightarrow> pane list" where
  "projectPanes r projectUID =
     (let ws = map w_uid (WindowsOf r projectUID);
          owners = foldl (\<lambda>os a. if OwnerUID (a_meta a) \<in> set os then a_uid a # os else os) ws (r_agents r)
      in filter (\<lambda>p. OwnerUID (pn_meta p) \<in> set owners) (r_panes r))"

definition newProject :: "string \<Rightarrow> string \<Rightarrow> string \<Rightarrow> time \<Rightarrow> register_options \<Rightarrow> project" where
  "newProject uid name root now opts =
     \<lparr>p_api = APIVersion, p_kind = KindProject,
      p_meta = newMeta uid name (ro_labels opts) (ro_annotations opts) None now,
      p_spec = \<lparr>ps_root = root, ps_primary = ''''\<rparr>,
      p_status = \<lparr>pst_session = (let s = trimSpace (ro_session opts) in if s = '''' then None
          else Some \<lparr>sp_name = s, sp_live = False, sp_socket = ''''\<rparr>), pst_conditions = []\<rparr>\<rparr>"

definition setPrimary :: "string \<Rightarrow> string \<Rightarrow> registry \<Rightarrow> registry" where
  "setPrimary projectUID windowUID =
     updProject projectUID (\<lambda>p. p\<lparr>p_spec := (p_spec p)\<lparr>ps_primary := windowUID\<rparr>\<rparr>)"

definition declaredTopology :: "register_options \<Rightarrow> bootstrap_window list" where
  "declaredTopology opts =
     (if ro_topology opts = []
      then [\<lparr>bw_name = '''', bw_command = '''', bw_labels = fmempty, bw_panes = []\<rparr>]
      else ro_topology opts)"

definition finishProject :: "string \<Rightarrow> (window \<times> pane list) list \<Rightarrow> ('w mstate, register_result) comp" where
  "finishProject uid made =
     andThen (case made of [] \<Rightarrow> return () | (w, _) # _ \<Rightarrow> modReg (setPrimary uid (w_uid w))) (\<lambda>_.
     andThen getReg (\<lambda>r. case lookupProject r uid of
         None \<Rightarrow> throw (Panic ''nil project'')
       | Some stored \<Rightarrow> return \<lparr>rr_project = stored, rr_windows = map fst made, rr_panes = concat (map snd made),
            rr_reused = False, rr_operation = '''', rr_created = []\<rparr>))"

definition registerProjectTx ::
  "'w mutator \<Rightarrow> string \<Rightarrow> time \<Rightarrow> register_options \<Rightarrow> ('w mstate, register_result) comp" where
  "registerProjectTx m root now opts =
     andThen getReg (\<lambda>reg.
     andThen (mintAndReserveName m ''register project'' '''' KindProject
        (if ro_name opts = '''' then automaticProjectName reg root else ro_name opts)) (\<lambda>(uid, name).
     andThen (modReg (\<lambda>r. r\<lparr>r_projects := r_projects r @ [newProject uid name root now opts]\<rparr>)) (\<lambda>_.
     andThen (record_created KindProject uid) (\<lambda>_.
     andThen (forEach (\<lambda>bw. addWindowTx m ''register project'' KindProject uid bw root now) (declaredTopology opts))
       (finishProject uid)))))"

definition RegisterProject :: "'w mutator \<Rightarrow> register_options \<Rightarrow> ('w mstate, register_result) comp" where
  "RegisterProject m opts =
     andThen (validateRoot m ''register project'' (ro_root opts)) (\<lambda>root.
     andThen getReg (\<lambda>reg. case ProjectByRoot reg root of
       Some existing \<Rightarrow>
         andThen (liftE (ValidateExplicitNameReuse ''register project'' KindProject (p_meta existing) (ro_name opts)))
           (\<lambda>_. return \<lparr>rr_project = existing, rr_windows = WindowsOf reg (p_uid existing),
              rr_panes = projectPanes reg (p_uid existing), rr_reused = True,
              rr_operation = ro_operation opts, rr_created = []\<rparr>)
     | None \<Rightarrow>
         andThen (clock m) (\<lambda>now. andThen (Begin (ro_operation opts)) (\<lambda>_.
         andThen (onError (registerProjectTx m root now opts) Rollback) (\<lambda>result s.
           andThen Commit (\<lambda>_. andThen (modReg (\<lambda>r. r\<lparr>r_updated := now\<rparr>)) (\<lambda>_.
             return (result\<lparr>rr_created := Created (ms_txn s), rr_operation := tx_id (ms_txn s)\<rparr>))) s)))))"

text \<open>The part \<open>AddWindow\<close>, \<open>AddWindowToManagedRoot\<close> and \<open>AddPane\<close> share: clock, begin, body, rollback or
  commit and stamp.\<close>

definition inTransaction :: "'w mutator \<Rightarrow> string \<Rightarrow> (time \<Rightarrow> ('w mstate, 'a) comp) \<Rightarrow> ('w mstate, 'a) comp" where
  "inTransaction m opid body =
     andThen (clock m) (\<lambda>now. andThen (Begin opid) (\<lambda>_.
       andThen (onError (body now) Rollback) (\<lambda>x.
         andThen Commit (\<lambda>_. andThen (modReg (\<lambda>r. r\<lparr>r_updated := now\<rparr>)) (\<lambda>_. return x)))))"

definition AddWindow ::
  "'w mutator \<Rightarrow> string \<Rightarrow> bootstrap_window \<Rightarrow> string \<Rightarrow> ('w mstate, window \<times> pane list) comp" where
  "AddWindow m projectUID declared opid =
     andThen getReg (\<lambda>reg. case lookupProject reg projectUID of
       None \<Rightarrow> throw (stateErr ''create window'' ErrNotFound)
     | Some project \<Rightarrow> inTransaction m opid
         (addWindowTx m ''create window'' KindProject projectUID declared (ps_root (p_spec project))))"

definition AddWindowToManagedRoot ::
  "'w mutator \<Rightarrow> kind \<Rightarrow> string \<Rightarrow> bootstrap_window \<Rightarrow> string \<Rightarrow> string
     \<Rightarrow> ('w mstate, window \<times> pane list) comp" where
  "AddWindowToManagedRoot m ownerKind owner declared defaultCWD opid =
     andThen getReg (\<lambda>reg.
       if ownerKind = KindProject then
         (case lookupProject reg owner of
            None \<Rightarrow> throw (stateErr ''create window'' ErrNotFound)
          | Some project \<Rightarrow> inTransaction m opid (addWindowTx m ''create window'' ownerKind owner declared
              (if trimSpace defaultCWD = '''' then ps_root (p_spec project) else defaultCWD)))
       else if ownerKind = KindControlSession then
         (case lookupControlSession reg owner of
            None \<Rightarrow> throw (stateErr ''create window'' ErrNotFound)
          | Some _ \<Rightarrow> inTransaction m opid (addWindowTx m ''create window'' ownerKind owner declared defaultCWD))
       else throw (inputErr ''create window'' ErrInvalidRegistry))"

definition AddPane :: "'w mutator \<Rightarrow> string \<Rightarrow> bootstrap_pane \<Rightarrow> string \<Rightarrow> ('w mstate, pane) comp" where
  "AddPane m windowUID declared opid =
     andThen getReg (\<lambda>reg. case lookupWindow reg windowUID of
       None \<Rightarrow> throw (stateErr ''create pane'' ErrNotFound)
     | Some w \<Rightarrow>
         (let cwd0 = trimSpace (bp_cwd declared);
              cwd = (if cwd0 = '''' then (case lookupProject reg (OwnerUID (w_meta w)) of
                       Some p \<Rightarrow> ps_root (p_spec p) | None \<Rightarrow> cwd0) else cwd0)
          in inTransaction m opid (addPaneTx m ''create pane'' windowUID KindWindow PaneRoleShell
               (bp_name declared) (bp_command declared) cwd (bp_labels declared))))"

section \<open>Minting\<close>

definition mintedAt :: "'w mstate \<Rightarrow> kind \<Rightarrow> string \<Rightarrow> string \<Rightarrow> string \<Rightarrow> string \<Rightarrow> 'w mstate \<Rightarrow> bool" where
  "mintedAt s k owner explicit uid name s' \<longleftrightarrow>
     uid \<notin> set (allUids (ms_reg s)) \<and> uid \<noteq> '''' \<and> ValidateName name = ok
   \<and> name = (if explicit = '''' then uid else explicit) \<and> ms_txn s' = ms_txn s
   \<and> (\<exists>scope. scopeFor (ms_reg s) k owner = Inr scope
        \<and> (scope, k, name) \<notin> slot ` set (r_names (ms_reg s))
        \<and> ms_reg s' = (ms_reg s)\<lparr>r_names := r_names (ms_reg s)
             @ [\<lparr>nr_scope = scope, nr_kind = k, nr_name = name, nr_uid = uid\<rparr>]\<rparr>)"

lemma holder_fresh: "identity r \<Longrightarrow> uid \<notin> set (allUids r) \<Longrightarrow> (s, k, uid) \<notin> holder ` set (r_names r)"
  using identity_uid by (auto simp: holder_def)

lemma reserve_fresh:
  assumes I: "identity r" and u: "uid \<notin> set (allUids r)"
    and r: "reserveExplicitName op owner k name uid r = Inr r'"
  shows "ValidateName name = ok \<and> (\<exists>scope. scopeFor r k owner = Inr scope
     \<and> (scope, k, name) \<notin> slot ` set (r_names r)
     \<and> r' = r\<lparr>r_names := r_names r @ [\<lparr>nr_scope = scope, nr_kind = k, nr_name = name, nr_uid = uid\<rparr>]\<rparr>)"
proof -
  from r obtain scope where s: "scopeFor r k owner = Inr scope" "ValidateName name = ok"
    "nameOwner r scope k name = None \<or> nameOwner r scope k name = Some uid"
    "r' = putReservation scope k name uid r"
    by (auto simp: reserveExplicitName_def ok_def split: sum.splits option.splits if_splits)
  have "nameOwner r scope k name \<noteq> Some uid"
    using u identity_uid [OF I] by (auto simp: nameOwner_def ownerIn_def dest: find_SomeD)
  with s(3) have "(scope, k, name) \<notin> slot ` set (r_names r)"
    by (simp add: nameOwner_def ownerIn_None)
  with s holder_fresh [OF I u] show ?thesis by (simp add: putReservation_def putIn_fresh)
qed

lemma mintUID_same:
  "mintUID m k s = (e, s') \<Longrightarrow> ms_reg s' = ms_reg s \<and> ms_txn s' = ms_txn s"
  by (auto simp: mintUID_def split: prod.splits)

lemma mintLoop_fail:
  "mintLoop m op owner k x n s = (Inl e, s') \<Longrightarrow> ms_reg s' = ms_reg s \<and> ms_txn s' = ms_txn s"
proof (induction n arbitrary: s)
  case (Suc n)
  then show ?case
    by (fastforce simp: andThen_Inl getReg_def modReg_def comp_defs dest!: mintUID_same
        split: if_splits sum.splits option.splits prod.splits)
qed (simp add: throw_def)

lemma candidateName_Some:
  "candidateName reg owner k x uid = Inr (Some name) \<Longrightarrow> name = (if x = '''' then uid else x)"
  by (auto simp: candidateName_def split: if_splits sum.splits option.splits)

lemma trimSpace_ne: "trimSpace u \<noteq> '''' \<Longrightarrow> u \<noteq> ''''"
  by auto

lemma mintLoop_ok:
  assumes "identity (ms_reg s)" and "mintLoop m op owner k x n s = (Inr (uid, name), s')"
  shows "mintedAt s k owner x uid name s'"
  using assms
proof (induction n arbitrary: s)
  case (Suc n)
  from Suc.prems(2) obtain u t where u: "mintUID m k s = (Inr u, t)"
    and rest: "(if trimSpace u = '''' \<or> registryHasUID (ms_reg t) u then mintLoop m op owner k x n
       else case candidateName (ms_reg t) owner k x u of
         Inl e \<Rightarrow> throw e
       | Inr None \<Rightarrow> mintLoop m op owner k x n
       | Inr (Some name) \<Rightarrow> (case reserveExplicitName op owner k name u (ms_reg t) of
           Inl e \<Rightarrow> throw e
         | Inr reg' \<Rightarrow> andThen (modReg (\<lambda>_. reg')) (\<lambda>_. return (u, name)))) t = (Inr (uid, name), s')"
    by (auto simp: andThen_Inr getReg_def)
  have t: "ms_reg t = ms_reg s" "ms_txn t = ms_txn s" using mintUID_same [OF u] by simp_all
  have again: "mintedAt s k owner x uid name s'" if "mintLoop m op owner k x n t = (Inr (uid, name), s')"
    using Suc.IH [OF _ that] Suc.prems(1) unfolding mintedAt_def t by blast
  show ?case
  proof (cases "trimSpace u = '''' \<or> registryHasUID (ms_reg t) u")
    case True
    with rest again show ?thesis by simp
  next
    case False
    then have fresh: "u \<notin> set (allUids (ms_reg s))" "u \<noteq> ''''"
      using t by (auto simp: registryHasUID_iff)
    from rest False consider
        "mintLoop m op owner k x n t = (Inr (uid, name), s')"
      | nm r' where "candidateName (ms_reg t) owner k x u = Inr (Some nm)"
          "reserveExplicitName op owner k nm u (ms_reg t) = Inr r'"
          "andThen (modReg (\<lambda>_. r')) (\<lambda>_. return (u, nm)) t = (Inr (uid, name), s')"
      by (auto simp: throw_def split: sum.splits option.splits)
    then show ?thesis
    proof cases
      case 1
      with again show ?thesis by simp
    next
      case 2
      then have eq: "uid = u" "name = nm" "s' = t\<lparr>ms_reg := r'\<rparr>"
        by (auto simp: comp_defs modReg_def)
      from reserve_fresh [of "ms_reg s" u op owner k nm r'] 2(2) fresh Suc.prems(1) t
      show ?thesis using candidateName_Some [OF 2(1)] fresh
        by (auto simp: mintedAt_def eq t)
    qed
  qed
qed (simp add: throw_def)

lemma mint_ok:
  assumes "identity (ms_reg s)" and "mintAndReserveName m op owner k x s = (Inr (uid, name), s')"
  shows "mintedAt s k owner x uid name s'"
  using assms mintLoop_ok unfolding mintAndReserveName_def
  by (fastforce simp: andThen_Inr getReg_def liftE_def comp_defs split: sum.splits)

lemma mint_fail:
  assumes "mintAndReserveName m op owner k x s = (Inl e, s')"
  shows "ms_reg s' = ms_reg s \<and> ms_txn s' = ms_txn s"
  using assms mintLoop_fail unfolding mintAndReserveName_def
  by (fastforce simp: andThen_Inl getReg_def liftE_def comp_defs split: sum.splits)

section \<open>Steps inside a transaction\<close>

text \<open>From \<open>s\<close> to \<open>s'\<close> the identity invariant is kept and the Registry grew by the ledger entries \<open>L\<close>.\<close>

definition txStep :: "'w mstate \<Rightarrow> string set \<Rightarrow> created_ref list \<Rightarrow> 'w mstate \<Rightarrow> bool" where
  "txStep s M L s' \<longleftrightarrow> identity (ms_reg s') \<and> grown (ms_reg s) M L (ms_reg s')
     \<and> tx_ledger (ms_txn s') = tx_ledger (ms_txn s) @ L
     \<and> tx_done (ms_txn s') = tx_done (ms_txn s) \<and> tx_id (ms_txn s') = tx_id (ms_txn s)"

lemma txStep_refl: "identity (ms_reg s) \<Longrightarrow> ms_reg s' = ms_reg s \<Longrightarrow> ms_txn s' = ms_txn s \<Longrightarrow> txStep s M [] s'"
  by (simp add: txStep_def grown_refl)

lemma txStep_trans:
  "identity (ms_reg s1) \<Longrightarrow> txStep s M1 L1 s1 \<Longrightarrow> txStep s1 M2 L2 s2 \<Longrightarrow>
     txStep s ((M1 \<union> M2) - snd ` set L1) (L1 @ L2) s2"
  by (auto simp: txStep_def identity_def intro: grown_trans)

lemma txStep_mono: "txStep s M L s' \<Longrightarrow> M \<subseteq> M' \<Longrightarrow> txStep s M' L s'"
  by (auto simp: txStep_def intro: grown_mono)

lemma txStep_identity: "txStep s M L s' \<Longrightarrow> identity (ms_reg s')"
  by (simp add: txStep_def)

lemma txStep_uids: "txStep s M L s' \<Longrightarrow> uidsAt (ms_reg s') k = uidsAt (ms_reg s) k \<union> ledgerAt L k"
  unfolding txStep_def by (metis grown_uidsAt)

lemma grown_add:
  assumes "grow (\<lambda>p. ident (p_meta p)) {} (ledgerAt [(k, u)] KindProject) (r_projects r) (r_projects r')"
    and "grow (\<lambda>w. ident (w_meta w)) {} (ledgerAt [(k, u)] KindWindow) (r_windows r) (r_windows r')"
    and "grow (\<lambda>p. ident (pn_meta p)) {} (ledgerAt [(k, u)] KindPane) (r_panes r) (r_panes r')"
    and "r_agents r' = r_agents r" "r_controls r' = r_controls r" "k \<in> {KindProject, KindWindow, KindPane}"
    and "r_names r' = r_names r @ [n]" "nr_uid n = u"
    and "r_api r' = r_api r" "r_schema r' = r_schema r" "r_updated r' = r_updated r"
  shows "grown r {} [(k, u)] r'"
  using assms by (auto simp: grown_def grow_refl)

lemma reservation_txStep:
  assumes I: "identity (ms_reg s)" and mint: "mintedAt s k owner x uid name s1"
    and i: "i = (uid, name, owner)"
    and ids: "idents (ms_reg s2) = (idents (ms_reg s1))(k := idents (ms_reg s1) k @ [i])"
    and nm: "r_names (ms_reg s2) = r_names (ms_reg s1)"
    and g: "grown (ms_reg s) {} [(k, uid)] (ms_reg s2)"
    and txn: "tx_ledger (ms_txn s2) = tx_ledger (ms_txn s) @ [(k, uid)]"
      "tx_done (ms_txn s2) = tx_done (ms_txn s)" "tx_id (ms_txn s2) = tx_id (ms_txn s)"
  shows "txStep s {} [(k, uid)] s2"
proof -
  from mint have ids1: "idents (ms_reg s1) = idents (ms_reg s)"
    by (auto simp: mintedAt_def)
  from mint obtain scope where "scopeFor (ms_reg s) k owner = Inr scope"
    "(scope, k, name) \<notin> slot ` set (r_names (ms_reg s))"
    "r_names (ms_reg s1) = r_names (ms_reg s)
       @ [\<lparr>nr_scope = scope, nr_kind = k, nr_name = name, nr_uid = uid\<rparr>]"
    by (auto simp: mintedAt_def)
  then have "addsResource k i (ms_reg s) (ms_reg s2)"
    by (simp add: addsResource_def ids ids1 nm i)
  moreover have "k \<noteq> KindOther y" for y using mint by (auto simp: mintedAt_def)
  ultimately have "identity (ms_reg s2)"
    using I mint by (intro addsResource_identity [OF I]) (auto simp: i mintedAt_def)
  with g txn show ?thesis by (simp add: txStep_def)
qed

text \<open>Writing through a pointer without touching uid, name or owner.\<close>

lemma sameIdents_upd:
  "(\<And>p. ident (p_meta (fp p)) = ident (p_meta p)) \<Longrightarrow> sameIdents r (updProject u fp r)"
  "(\<And>w. ident (w_meta (fw w)) = ident (w_meta w)) \<Longrightarrow> sameIdents r (updWindow u fw r)"
  "(\<And>q. ident (pn_meta (fq q)) = ident (pn_meta q)) \<Longrightarrow> sameIdents r (updPane u fq r)"
  "(\<And>a. ident (a_meta (fa a)) = ident (a_meta a)) \<Longrightarrow> sameIdents r (updAgent u fa r)"
  unfolding sameIdents_def upd_defs
  by (simp_all add: map_updFirst fun_upd_idem)

lemma grown_updWindow:
  assumes "\<And>w. ident (w_meta (f w)) = ident (w_meta w)"
  shows "grown r {u} [] (updWindow u f r)"
  using grow_upd [of "\<lambda>w. ident (w_meta w)" f u, OF assms]
  by (simp add: grown_def updWindow_def grow_refl)

lemma grown_updProject:
  assumes "\<And>p. ident (p_meta (f p)) = ident (p_meta p)"
  shows "grown r {u} [] (updProject u f r)"
  using grow_upd [of "\<lambda>p. ident (p_meta p)" f u, OF assms]
  by (simp add: grown_def updProject_def grow_refl)

lemma txStep_upd:
  assumes "identity (ms_reg s)" "sameIdents (ms_reg s) r'" "grown (ms_reg s) M [] r'"
  shows "txStep s M [] (s\<lparr>ms_reg := r'\<rparr>)"
  using assms identity_cong by (auto simp: txStep_def)

lemma adopt_ident:
  "sameIdents r (adoptWindowAnchor owner ok' u r)"
  "grown r {owner} [] (adoptWindowAnchor owner ok' u r)"
  "sameIdents r (adoptProjectPrimaryWindow ok' owner u r)"
  "grown r {owner} [] (adoptProjectPrimaryWindow ok' owner u r)"
  "sameIdents r (setPrimary owner u r)"
  "grown r {owner} [] (setPrimary owner u r)"
  by (auto simp: adoptWindowAnchor_def adoptProjectPrimaryWindow_def setPrimary_def grown_refl
      sameIdents_def [of r r] intro!: sameIdents_upd grown_updWindow grown_updProject)

lemma addPaneTx_spec:
  assumes I: "identity (ms_reg s)"
    and run: "addPaneTx m op owner ok' role x command cwd labels now s = (res, s')"
  shows "case res of
      Inl _ \<Rightarrow> txStep s {} [] s'
    | Inr p \<Rightarrow> txStep s {owner} [(KindPane, pn_uid p)] s'
        \<and> (\<exists>uid name. p = newPane uid name labels ok' owner now role cwd command)"
proof (cases "mintAndReserveName m op owner KindPane x s")
  case (Pair e s1)
  show ?thesis
  proof (cases e)
    case (Inl err)
    with run Pair mint_fail [of m op owner KindPane x s err s1] show ?thesis
      by (auto simp: addPaneTx_def andThen_def txStep_refl [OF I])
  next
    case (Inr un)
    obtain uid name where un: "un = (uid, name)" by fastforce
    let ?p = "newPane uid name labels ok' owner now role cwd command"
    let ?s2 = "s1\<lparr>ms_reg := (ms_reg s1)\<lparr>r_panes := r_panes (ms_reg s1) @ [?p]\<rparr>,
      ms_txn := (ms_txn s1)\<lparr>tx_ledger := tx_ledger (ms_txn s1) @ [(KindPane, uid)]\<rparr>\<rparr>"
    have mint: "mintedAt s KindPane owner x uid name s1" using mint_ok [OF I] Pair Inr un by simp
    have pid: "ident (pn_meta ?p) = (uid, name, owner)"
      by (simp add: newPane_def newMeta_def ident_def OwnerUID_def ownedBy_def)
    then have pu: "pn_uid ?p = uid" "om_name (pn_meta ?p) = name" by (simp_all add: ident_def)
    have res: "res = Inr ?p" "s' = ?s2\<lparr>ms_reg := adoptWindowAnchor owner ok' uid (ms_reg ?s2)\<rparr>"
      using run Pair Inr un by (auto simp: addPaneTx_def comp_defs modReg_def record_created_def Let_def)
    have st: "txStep s {} [(KindPane, uid)] ?s2"
    proof (rule reservation_txStep [OF I mint refl])
      show "idents (ms_reg ?s2) = (idents (ms_reg s1))(KindPane := idents (ms_reg s1) KindPane @ [(uid, name, owner)])"
        by (simp add: pid)
      show "grown (ms_reg s) {} [(KindPane, uid)] (ms_reg ?s2)"
        using mint grow_append [of "\<lambda>p. ident (pn_meta p)" "{}" ?p] pu
        by (auto simp: mintedAt_def grow_refl intro!: grown_add)
    qed (use mint in \<open>simp_all add: mintedAt_def\<close>)
    then have I2: "identity (ms_reg ?s2)" by (simp add: txStep_def)
    have "txStep ?s2 {owner} [] s'"
      unfolding res(2) by (rule txStep_upd [OF I2 adopt_ident(1, 2)])
    from txStep_trans [OF I2 st this] have "txStep s {owner} [(KindPane, uid)] s'"
      by (auto elim: txStep_mono)
    with pu show ?thesis unfolding res(1) sum.case by metis
  qed
qed

text \<open>The Panes a Window declares: every one of them belongs to the Window.\<close>

lemma newPane_owner [simp]: "OwnerUID (pn_meta (newPane uid name labels k owner now role cwd command)) = owner"
  by (simp add: newPane_def newMeta_def OwnerUID_def ownedBy_def)

lemma addPanes_spec:
  assumes "identity (ms_reg s)"
    and "forEach (declaredPaneTx m op W cwd now) bps s = (res, s')"
  shows "\<exists>L. txStep s {W} L s' \<and> (case res of Inl _ \<Rightarrow> True
    | Inr ps \<Rightarrow> length ps = length bps \<and> L = map (\<lambda>p. (KindPane, pn_uid p)) ps
        \<and> list_all (\<lambda>p. OwnerUID (pn_meta p) = W) ps)"
  using assms
proof (induction bps arbitrary: s res)
  case Nil
  then show ?case by (auto simp: return_def txStep_refl intro!: exI [of _ "[]"])
next
  case (Cons bp bps)
  obtain e s1 where one: "declaredPaneTx m op W cwd now bp s = (e, s1)" by fastforce
  note spec = addPaneTx_spec [OF Cons.prems(1) one [unfolded declaredPaneTx_def]]
  show ?case
  proof (cases e)
    case (Inl x)
    then have "res = Inl x" "s' = s1" using Cons.prems(2) one by (auto simp: andThen_def)
    with spec Inl show ?thesis by (auto intro!: exI [of _ "[]"] elim: txStep_mono)
  next
    case (Inr p)
    with spec have p: "txStep s {W} [(KindPane, pn_uid p)] s1" "OwnerUID (pn_meta p) = W" by auto
    obtain e' where rest: "forEach (declaredPaneTx m op W cwd now) bps s1 = (e', s')"
      and res: "res = map_sum id ((#) p) e'"
      using Cons.prems(2) one Inr by (auto simp: andThen_def return_def split: prod.splits sum.splits)
    obtain L where L: "txStep s1 {W} L s'" "case e' of Inl _ \<Rightarrow> True
      | Inr ps \<Rightarrow> length ps = length bps \<and> L = map (\<lambda>p. (KindPane, pn_uid p)) ps
          \<and> list_all (\<lambda>p. OwnerUID (pn_meta p) = W) ps"
      using Cons.IH [OF txStep_identity [OF p(1)] rest] by blast
    have "txStep s {W} ([(KindPane, pn_uid p)] @ L) s'"
      by (rule txStep_mono [OF txStep_trans [OF txStep_identity [OF p(1)] p(1) L(1)]]) auto
    with L(2) p(2) res show ?thesis
      by (intro exI [of _ "[(KindPane, pn_uid p)] @ L"]) (auto split: sum.splits)
  qed
qed

lemma lookup_uidsAt:
  "u \<in> uidsAt r KindWindow \<Longrightarrow> \<exists>w. lookupWindow r u = Some w \<and> w_uid w = u"
  "u \<in> uidsAt r KindProject \<Longrightarrow> \<exists>p. lookupProject r u = Some p \<and> p_uid p = u"
  by (metis lookup_None(3) lookup_Some(3) option.exhaust uidsAt_simps(3))
    (metis lookup_None(1) lookup_Some(1) option.exhaust uidsAt_simps(1))

lemma modReg_eq: "modReg f s = (Inr (), s\<lparr>ms_reg := f (ms_reg s)\<rparr>)"
  by (simp add: modReg_def)

lemma txStep_modReg:
  assumes "identity (ms_reg s)" "\<And>r. sameIdents r (f r)" "\<And>r. grown r M [] (f r)"
  shows "txStep s M [] (s\<lparr>ms_reg := f (ms_reg s)\<rparr>)"
  by (rule txStep_upd [OF assms(1)]) (rule assms)+

lemma finishWindow_spec:
  assumes I: "identity (ms_reg s)" and ps: "panes \<noteq> []" and u: "uid \<in> uidsAt (ms_reg s) KindWindow"
    and run: "finishWindow ok' owner uid panes s = (res, s')"
  shows "txStep s {uid, owner} [] s' \<and> (\<exists>w. res = Inr (w, panes) \<and> w_uid w = uid)"
proof -
  obtain first more where p: "panes = first # more" using ps by (cases panes) auto
  let ?f = "updWindow uid (\<lambda>w. w\<lparr>w_spec := (w_spec w)\<lparr>ws_anchor := pn_uid first, ws_shell := pn_uid first\<rparr>\<rparr>)"
  let ?g = "adoptProjectPrimaryWindow ok' owner uid"
  define s4 where "s4 = s\<lparr>ms_reg := ?f (ms_reg s)\<rparr>"
  define s5 where "s5 = s4\<lparr>ms_reg := ?g (ms_reg s4)\<rparr>"
  have st4: "txStep s {uid} [] s4"
    unfolding s4_def by (rule txStep_modReg [OF I]) (auto intro: sameIdents_upd grown_updWindow)
  have I4: "identity (ms_reg s4)" by (rule txStep_identity [OF st4])
  have "txStep s4 {owner} [] s5"
    unfolding s5_def by (rule txStep_modReg [OF I4]) (auto intro: adopt_ident)
  from txStep_trans [OF I4 st4 this] have st5: "txStep s {uid, owner} [] s5" by (auto elim: txStep_mono)
  then have "uid \<in> uidsAt (ms_reg s5) KindWindow"
    using txStep_uids [OF st5, of KindWindow] u by simp
  then obtain w where w: "lookupWindow (ms_reg s5) uid = Some w" "w_uid w = uid"
    using lookup_uidsAt by blast
  have "finishWindow ok' owner uid panes s = (Inr (w, panes), s5)"
    unfolding finishWindow_def p list.case andThen_def modReg_eq split sum.case
      s4_def [symmetric] s5_def [symmetric] getReg_def w(1) option.case return_def ..
  with run st5 w(2) show ?thesis by auto
qed

lemma addWindowTx_spec:
  assumes I: "identity (ms_reg s)"
    and run: "addWindowTx m op ok' owner declared cwd now s = (res, s')"
  shows "\<exists>L. case res of
      Inl _ \<Rightarrow> txStep s {} L s'
    | Inr (w, ps) \<Rightarrow> txStep s {owner} L s' \<and> w_uid w \<in> ledgerAt L KindWindow \<and> ps \<noteq> []"
proof (cases "mintAndReserveName m op owner KindWindow (bw_name declared) s")
  case (Pair e s1)
  show ?thesis
  proof (cases e)
    case (Inl err)
    with run Pair mint_fail [of m op owner KindWindow _ s err s1] show ?thesis
      by (auto simp: addWindowTx_def andThen_def txStep_refl [OF I] intro!: exI [of _ "[]"])
  next
    case (Inr un)
    obtain uid name where un: "un = (uid, name)" by fastforce
    let ?w = "newWindow uid name (bw_labels declared) ok' owner now"
    let ?panes = "forEach (declaredPaneTx m op uid cwd now) (declaredPanes declared)"
    define s2 where "s2 = s1\<lparr>ms_reg := (ms_reg s1)\<lparr>r_windows := r_windows (ms_reg s1) @ [?w]\<rparr>,
      ms_txn := (ms_txn s1)\<lparr>tx_ledger := tx_ledger (ms_txn s1) @ [(KindWindow, uid)]\<rparr>\<rparr>"
    have run': "andThen ?panes (finishWindow ok' owner uid) s2 = (res, s')"
      using run Pair Inr un
      by (simp add: addWindowTx_def andThen_def modReg_def record_created_def s2_def)
    have mint: "mintedAt s KindWindow owner (bw_name declared) uid name s1"
      using mint_ok [OF I] Pair Inr un by simp
    have wid: "ident (w_meta ?w) = (uid, name, owner)"
      by (simp add: newWindow_def newMeta_def ident_def OwnerUID_def ownedBy_def)
    then have wu: "w_uid ?w = uid" by (simp add: ident_def)
    have st: "txStep s {} [(KindWindow, uid)] s2"
    proof (rule reservation_txStep [OF I mint refl])
      show "idents (ms_reg s2) = (idents (ms_reg s1))(KindWindow := idents (ms_reg s1) KindWindow @ [(uid, name, owner)])"
        by (simp add: wid s2_def)
      show "grown (ms_reg s) {} [(KindWindow, uid)] (ms_reg s2)"
        using mint grow_append [of "\<lambda>w. ident (w_meta w)" "{}" ?w] wu
        by (auto simp: mintedAt_def grow_refl s2_def intro!: grown_add)
    qed (use mint in \<open>simp_all add: mintedAt_def s2_def\<close>)
    obtain e3 s3 where panes: "?panes s2 = (e3, s3)" by fastforce
    obtain L where L: "txStep s2 {uid} L s3" "case e3 of Inl _ \<Rightarrow> True
      | Inr ps \<Rightarrow> length ps = length (declaredPanes declared) \<and> L = map (\<lambda>p. (KindPane, pn_uid p)) ps
        \<and> list_all (\<lambda>p. OwnerUID (pn_meta p) = uid) ps"
      using addPanes_spec [OF txStep_identity [OF st] panes] by blast
    let ?L = "[(KindWindow, uid)] @ L"
    have I3: "identity (ms_reg s3)" by (rule txStep_identity [OF L(1)])
    have st3: "txStep s {} ?L s3"
      by (rule txStep_mono [OF txStep_trans [OF txStep_identity [OF st] st L(1)]]) simp
    show ?thesis
    proof (cases e3)
      case (Inl err)
      then have "res = Inl err" "s' = s3" using run' panes by (simp_all add: andThen_def)
      with st3 show ?thesis by auto
    next
      case (Inr ps)
      with L(2) have ne: "ps \<noteq> []" by (auto simp: declaredPanes_def split: if_splits)
      have fin: "finishWindow ok' owner uid ps s3 = (res, s')"
        using run' panes Inr by (simp add: andThen_def)
      have "uid \<in> uidsAt (ms_reg s3) KindWindow"
        using txStep_uids [OF st3, of KindWindow] by (simp add: ledgerAt_def)
      from finishWindow_spec [OF I3 ne this fin] obtain w where
        w: "txStep s3 {uid, owner} [] s'" "res = Inr (w, ps)" "w_uid w = uid" by blast
      from txStep_trans [OF I3 st3 w(1)] have "txStep s {owner} ?L s'" by (auto elim: txStep_mono)
      with w ne show ?thesis by (intro exI [of _ ?L]) (simp add: ledgerAt_def)
    qed
  qed
qed

lemma addWindows_spec:
  assumes "identity (ms_reg s)"
    and "forEach (\<lambda>bw. addWindowTx m op ok' owner bw cwd now) bws s = (res, s')"
  shows "\<exists>L. txStep s {owner} L s'"
  using assms
proof (induction bws arbitrary: s res)
  case Nil
  then show ?case by (auto simp: return_def txStep_refl intro!: exI [of _ "[]"])
next
  case (Cons bw bws)
  obtain e s1 where one: "addWindowTx m op ok' owner bw cwd now s = (e, s1)" by fastforce
  obtain L1 where L1: "txStep s {owner} L1 s1"
    using addWindowTx_spec [OF Cons.prems(1) one]
    by (cases e) (auto dest: txStep_mono [where M' = "{owner}"])
  show ?case
  proof (cases e)
    case (Inl x)
    then have "s' = s1" using Cons.prems(2) one by (auto simp: andThen_def)
    with L1 show ?thesis by blast
  next
    case (Inr wp)
    obtain e' where "forEach (\<lambda>bw. addWindowTx m op ok' owner bw cwd now) bws s1 = (e', s')"
      using Cons.prems(2) one Inr by (auto simp: andThen_def return_def split: prod.splits sum.splits)
    from Cons.IH [OF txStep_identity [OF L1] this] obtain L2 where "txStep s1 {owner} L2 s'" by blast
    from txStep_trans [OF txStep_identity [OF L1] L1 this] show ?thesis
      by (blast intro: txStep_mono)
  qed
qed

lemma finishProject_spec:
  assumes I: "identity (ms_reg s)" and u: "uid \<in> uidsAt (ms_reg s) KindProject"
    and run: "finishProject uid made s = (res, s')"
  shows "txStep s {uid} [] s' \<and> (\<exists>x. res = Inr x)"
proof -
  define s1 where "s1 = (case made of [] \<Rightarrow> s
    | (w, _) # _ \<Rightarrow> s\<lparr>ms_reg := setPrimary uid (w_uid w) (ms_reg s)\<rparr>)"
  have st: "txStep s {uid} [] s1"
    unfolding s1_def
    by (auto split: list.splits intro: txStep_refl [OF I] txStep_modReg [OF I] adopt_ident)
  then have "uid \<in> uidsAt (ms_reg s1) KindProject" using txStep_uids [OF st, of KindProject] u by simp
  then obtain p where "lookupProject (ms_reg s1) uid = Some p" using lookup_uidsAt by blast
  then have "\<exists>x. finishProject uid made s = (Inr x, s1)"
    by (cases made) (auto simp: finishProject_def andThen_def modReg_eq return_def getReg_def s1_def)
  with run st show ?thesis by auto
qed

lemma registerProjectTx_spec:
  assumes I: "identity (ms_reg s)" and run: "registerProjectTx m root now opts s = (res, s')"
  shows "\<exists>L. txStep s {} L s'"
proof -
  define x where "x = (if ro_name opts = '''' then automaticProjectName (ms_reg s) root else ro_name opts)"
  obtain e s1 where mt: "mintAndReserveName m ''register project'' '''' KindProject x s = (e, s1)" by fastforce
  show ?thesis
  proof (cases e)
    case (Inl err)
    then have "s' = s1" using run mt by (auto simp: registerProjectTx_def andThen_def getReg_def x_def)
    with mt mint_fail [of m "''register project''" "''''" KindProject x s err s1] Inl show ?thesis
      by (auto simp: txStep_refl [OF I] intro!: exI [of _ "[]"])
  next
    case (Inr un)
    obtain uid name where un: "un = (uid, name)" by fastforce
    let ?p = "newProject uid name root now opts"
    let ?wins = "forEach (\<lambda>bw. addWindowTx m ''register project'' KindProject uid bw root now) (declaredTopology opts)"
    define s2 where "s2 = s1\<lparr>ms_reg := (ms_reg s1)\<lparr>r_projects := r_projects (ms_reg s1) @ [?p]\<rparr>,
      ms_txn := (ms_txn s1)\<lparr>tx_ledger := tx_ledger (ms_txn s1) @ [(KindProject, uid)]\<rparr>\<rparr>"
    have run': "andThen ?wins (finishProject uid) s2 = (res, s')"
      using run mt Inr un
      by (simp add: registerProjectTx_def andThen_def modReg_def record_created_def s2_def getReg_def x_def)
    have mint: "mintedAt s KindProject '''' x uid name s1" using mint_ok [OF I] mt Inr un by simp
    have pid: "ident (p_meta ?p) = (uid, name, '''')"
      by (simp add: newProject_def newMeta_def ident_def OwnerUID_def)
    then have pu: "p_uid ?p = uid" by (simp add: ident_def)
    have st: "txStep s {} [(KindProject, uid)] s2"
    proof (rule reservation_txStep [OF I mint refl])
      show "idents (ms_reg s2) = (idents (ms_reg s1))(KindProject := idents (ms_reg s1) KindProject @ [(uid, name, '''')])"
        by (simp add: pid s2_def)
      show "grown (ms_reg s) {} [(KindProject, uid)] (ms_reg s2)"
        using mint grow_append [of "\<lambda>p. ident (p_meta p)" "{}" ?p] pu
        by (auto simp: mintedAt_def grow_refl s2_def intro!: grown_add)
    qed (use mint in \<open>simp_all add: mintedAt_def s2_def\<close>)
    obtain e3 s3 where wins: "?wins s2 = (e3, s3)" by fastforce
    then obtain L where L: "txStep s2 {uid} L s3"
      using addWindows_spec [OF txStep_identity [OF st]] by blast
    let ?L = "[(KindProject, uid)] @ L"
    have st3: "txStep s {} ?L s3"
      by (rule txStep_mono [OF txStep_trans [OF txStep_identity [OF st] st L]]) simp
    have I3: "identity (ms_reg s3)" by (rule txStep_identity [OF L])
    show ?thesis
    proof (cases e3)
      case (Inl err)
      then have "s' = s3" using run' wins by (simp add: andThen_def)
      with st3 show ?thesis by blast
    next
      case (Inr made)
      have fin: "finishProject uid made s3 = (res, s')" using run' wins Inr by (simp add: andThen_def)
      have "uid \<in> uidsAt (ms_reg s3) KindProject"
        using txStep_uids [OF st3, of KindProject] by (simp add: ledgerAt_def)
      from finishProject_spec [OF I3 this fin] have "txStep s3 {uid} [] s'" by blast
      from txStep_trans [OF I3 st3 this] have "txStep s {} ?L s'" by (auto elim: txStep_mono)
      then show ?thesis by blast
    qed
  qed
qed

end
