(* ===== verification/Operations.thy ===== *)
theory Operations
  imports Create
begin

text \<open>
  The operations of \<^verbatim>\<open>internal/core/metadata/mutator.go\<close> and \<^verbatim>\<open>labels.go\<close> that change existing resources:
  root rebinding, renames, session projections, runtime bindings, observed conditions and labels. The
  locale \<open>tx_body\<close> states what the code relies on in the body of a transaction; the creating
  operations are interpreted in it.
\<close>

section \<open>Conditions\<close>

definition setCondition :: "condition \<Rightarrow> condition list \<Rightarrow> condition list \<times> bool" where
  "setCondition c cs = (if list_ex (\<lambda>d. c_type d = c_type c) cs then (cs, False) else (cs @ [c], True))"

definition clearCondition :: "string \<Rightarrow> condition list \<Rightarrow> condition list \<times> bool" where
  "clearCondition ty cs = (if list_ex (\<lambda>d. c_type d = ty) cs
     then (delFirst (\<lambda>d. c_type d = ty) cs, True) else (cs, False))"

definition findCondition :: "condition list \<Rightarrow> string \<Rightarrow> condition option" where
  "findCondition cs ty = find (\<lambda>d. c_type d = ty) cs"

definition setMissingRootCondition :: "string \<Rightarrow> time \<Rightarrow> condition list \<Rightarrow> condition list \<times> bool" where
  "setMissingRootCondition root now = setCondition
     \<lparr>c_type = ConditionMissingRoot, c_status = ''True'', c_reason = ''RootDisappeared'',
      c_message = ''project root '' @ root @ '' is not an existing directory'', c_first = now, c_last = now\<rparr>"

definition refreshRuntimeCondition :: "bool \<Rightarrow> string \<Rightarrow> time \<Rightarrow> condition list \<Rightarrow> condition list \<times> bool" where
  "refreshRuntimeCondition bound message now cs =
     (if bound then clearCondition ConditionMissingRuntime cs
      else setCondition \<lparr>c_type = ConditionMissingRuntime, c_status = ''True'', c_reason = ''RuntimeUnbound'',
             c_message = message, c_first = now, c_last = now\<rparr> cs)"

section \<open>Roots, names and sessions\<close>

text \<open>\<open>reg.UpdatedAt = m.clock()().UTC()\<close>.\<close>

definition stamp :: "'w mutator \<Rightarrow> ('w mstate, unit) comp" where
  "stamp m = andThen (clock m) (\<lambda>now. modReg (\<lambda>r. r\<lparr>r_updated := now\<rparr>))"

definition theProject :: "string \<Rightarrow> ('w mstate, project) comp" where
  "theProject uid = andThen getReg (\<lambda>r. case lookupProject r uid of
     None \<Rightarrow> throw (Panic ''nil project'') | Some p \<Rightarrow> return p)"

definition theWindow :: "string \<Rightarrow> ('w mstate, window) comp" where
  "theWindow uid = andThen getReg (\<lambda>r. case lookupWindow r uid of
     None \<Rightarrow> throw (Panic ''nil window'') | Some w \<Rightarrow> return w)"

definition thePane :: "string \<Rightarrow> ('w mstate, pane) comp" where
  "thePane uid = andThen getReg (\<lambda>r. case lookupPane r uid of
     None \<Rightarrow> throw (Panic ''nil pane'') | Some p \<Rightarrow> return p)"

definition RebindProjectRoot :: "'w mutator \<Rightarrow> string \<Rightarrow> string \<Rightarrow> ('w mstate, project) comp" where
  "RebindProjectRoot m projectUID newRoot =
     andThen getReg (\<lambda>reg. case lookupProject reg projectUID of
       None \<Rightarrow> throw (stateErr ''rebind project'' ErrNotFound)
     | Some project \<Rightarrow>
         andThen (validateRoot m ''rebind project'' newRoot) (\<lambda>root.
           if (case ProjectByRoot reg root of Some other \<Rightarrow> p_uid other \<noteq> projectUID | None \<Rightarrow> False)
           then throw (inputErr ''rebind project'' ErrRootConflict)
           else if ps_root (p_spec project) = root then return project
           else andThen (clock m) (\<lambda>now.
             andThen (modReg (updProject projectUID (\<lambda>p. p\<lparr>p_spec := (p_spec p)\<lparr>ps_root := root\<rparr>,
               p_status := (p_status p)\<lparr>pst_conditions := fst (clearCondition ConditionMissingRoot (pst_conditions (p_status p)))\<rparr>\<rparr>)))
             (\<lambda>_. andThen (modReg (\<lambda>r. r\<lparr>r_updated := now\<rparr>)) (\<lambda>_. theProject projectUID)))))"

definition RenameProject :: "'w mutator \<Rightarrow> string \<Rightarrow> string \<Rightarrow> ('w mstate, project) comp" where
  "RenameProject m projectUID name =
     andThen getReg (\<lambda>reg. case lookupProject reg projectUID of
       None \<Rightarrow> throw (stateErr ''rename project'' ErrNotFound)
     | Some project \<Rightarrow>
         (case reserveExplicitName ''rename project'' '''' KindProject name projectUID reg of
            Inl e \<Rightarrow> throw e
          | Inr reg' \<Rightarrow>
              andThen (modReg (\<lambda>_. updProject projectUID (\<lambda>p. p\<lparr>p_meta := (p_meta p)\<lparr>om_name := name\<rparr>\<rparr>) reg'))
                (\<lambda>_. andThen (stamp m) (\<lambda>_. theProject projectUID))))"

definition RenameWindow :: "'w mutator \<Rightarrow> string \<Rightarrow> string \<Rightarrow> ('w mstate, window) comp" where
  "RenameWindow m windowUID name =
     andThen getReg (\<lambda>reg. case lookupWindow reg windowUID of
       None \<Rightarrow> throw (stateErr ''rename window'' ErrNotFound)
     | Some w \<Rightarrow>
         (case reserveExplicitName ''rename window'' (OwnerUID (w_meta w)) KindWindow name windowUID reg of
            Inl e \<Rightarrow> throw e
          | Inr reg' \<Rightarrow>
              andThen (modReg (\<lambda>_. updWindow windowUID (\<lambda>w. w\<lparr>w_meta := (w_meta w)\<lparr>om_name := name\<rparr>\<rparr>) reg'))
                (\<lambda>_. andThen (stamp m) (\<lambda>_. theWindow windowUID))))"

definition RenamePane :: "'w mutator \<Rightarrow> string \<Rightarrow> string \<Rightarrow> ('w mstate, pane) comp" where
  "RenamePane m paneUID name =
     andThen getReg (\<lambda>reg. case lookupPane reg paneUID of
       None \<Rightarrow> throw (stateErr ''rename pane'' ErrNotFound)
     | Some p \<Rightarrow>
         (case reserveExplicitName ''rename pane'' (OwnerUID (pn_meta p)) KindPane name paneUID reg of
            Inl e \<Rightarrow> throw e
          | Inr reg' \<Rightarrow>
              andThen (modReg (\<lambda>_. updPane paneUID (\<lambda>p. p\<lparr>pn_meta := (pn_meta p)\<lparr>om_name := name\<rparr>\<rparr>) reg'))
                (\<lambda>_. andThen (stamp m) (\<lambda>_. thePane paneUID))))"

definition liveSessionProjection :: "string \<Rightarrow> string \<Rightarrow> string \<Rightarrow> error + session_projection" where
  "liveSessionProjection op session socket =
     (if socket \<noteq> '''' \<and> (\<not> pathIsAbs socket \<or> pathClean socket \<noteq> socket)
      then Inl (stateErr op ErrInvalidRegistry)
      else Inr \<lparr>sp_name = session, sp_live = True, sp_socket = socket\<rparr>)"

definition setSession :: "session_projection option \<Rightarrow> project \<Rightarrow> project" where
  "setSession sp p = p\<lparr>p_status := (p_status p)\<lparr>pst_session := sp\<rparr>\<rparr>"

definition BindLiveProjectSession :: "'w mutator \<Rightarrow> string \<Rightarrow> string \<Rightarrow> string \<Rightarrow> ('w mstate, project) comp" where
  "BindLiveProjectSession m projectUID session0 socket =
     andThen getReg (\<lambda>reg. case lookupProject reg projectUID of
       None \<Rightarrow> throw (stateErr ''bind project session'' ErrNotFound)
     | Some _ \<Rightarrow>
         (let session = trimSpace session0 in
          case (if session = '''' then Inr None
                else map_sum id Some (liveSessionProjection ''bind project session'' session socket)) of
            Inl e \<Rightarrow> throw e
          | Inr sp \<Rightarrow> andThen (modReg (updProject projectUID (setSession sp)))
              (\<lambda>_. andThen (stamp m) (\<lambda>_. theProject projectUID))))"

definition BindOfflineProjectSession :: "'w mutator \<Rightarrow> string \<Rightarrow> string \<Rightarrow> ('w mstate, project) comp" where
  "BindOfflineProjectSession m projectUID session0 =
     andThen getReg (\<lambda>reg. case lookupProject reg projectUID of
       None \<Rightarrow> throw (stateErr ''bind project session'' ErrNotFound)
     | Some project \<Rightarrow>
         (let session = trimSpace session0;
              socket = (case pst_session (p_status project) of None \<Rightarrow> '''' | Some sp \<Rightarrow> sp_socket sp);
              sp = (if session = '''' then None
                    else Some \<lparr>sp_name = session, sp_live = False, sp_socket = socket\<rparr>)
          in andThen (modReg (updProject projectUID (setSession sp)))
              (\<lambda>_. andThen (stamp m) (\<lambda>_. theProject projectUID))))"

section \<open>Observations\<close>

definition isDigit :: "char \<Rightarrow> bool" where
  "isDigit c \<longleftrightarrow> between 48 57 c"

definition validRuntimeHandle :: "string \<Rightarrow> char \<Rightarrow> bool" where
  "validRuntimeHandle value prefix = (case value of
     c # d # ds \<Rightarrow> c = prefix \<and> list_all isDigit (d # ds)
   | _ \<Rightarrow> False)"

definition ObserveWindowRuntimeBinding ::
  "'w mutator \<Rightarrow> string \<Rightarrow> string \<Rightarrow> string \<Rightarrow> ('w mstate, window) comp" where
  "ObserveWindowRuntimeBinding m windowUID session0 runtime0 =
     andThen getReg (\<lambda>reg. case lookupWindow reg windowUID of
       None \<Rightarrow> throw (stateErr ''observe window runtime binding'' ErrNotFound)
     | Some w \<Rightarrow>
         (let session = trimSpace session0; runtime = trimSpace runtime0 in
          if \<not> validRuntimeHandle session (CHR ''$'') \<or> \<not> validRuntimeHandle runtime (CHR ''@'')
          then throw (inputErr ''observe window runtime binding'' ErrInvalidRegistry)
          else let (cs, cleared) = clearCondition ConditionMissingRuntime (wst_conditions (w_status w)) in
            andThen (modReg (updWindow windowUID (\<lambda>w. w\<lparr>w_status := (w_status w)\<lparr>wst_conditions := cs\<rparr>\<rparr>))) (\<lambda>_.
              if wst_session (w_status w) = session \<and> wst_runtime (w_status w) = runtime \<and> \<not> cleared
              then theWindow windowUID
              else andThen (modReg (updWindow windowUID (\<lambda>w. w\<lparr>w_status := (w_status w)\<lparr>wst_session := session, wst_runtime := runtime\<rparr>\<rparr>)))
                (\<lambda>_. andThen (stamp m) (\<lambda>_. theWindow windowUID)))))"

text \<open>\<open>ObserveProjectRoots\<close> writes each Project in turn and stops at the first probe error.\<close>

fun observeRoots :: "'w mutator \<Rightarrow> time \<Rightarrow> project list \<Rightarrow> 'w mstate \<Rightarrow> (error option \<times> project list \<times> bool) \<times> 'w mstate" where
  "observeRoots m now [] s = ((None, [], False), s)"
| "observeRoots m now (p # ps) s =
     (case dirExists m ''observe project roots'' (ps_root (p_spec p)) s of
        (Inl e, s') \<Rightarrow> ((Some e, p # ps, False), s')
      | (Inr exists, s') \<Rightarrow>
          (let (cs, ch) = (if exists then clearCondition ConditionMissingRoot (pst_conditions (p_status p))
                           else setMissingRootCondition (ps_root (p_spec p)) now (pst_conditions (p_status p)));
               ((e, qs, ch'), s'') = observeRoots m now ps s'
           in ((e, p\<lparr>p_status := (p_status p)\<lparr>pst_conditions := cs\<rparr>\<rparr> # qs, ch \<or> ch'), s'')))"

definition ObserveProjectRoots :: "'w mutator \<Rightarrow> ('w mstate, unit) comp" where
  "ObserveProjectRoots m = andThen (clock m) (\<lambda>now. andThen getReg (\<lambda>reg s.
     case observeRoots m now (r_projects reg) s of
       ((Some e, ps, _), s') \<Rightarrow> (Inl e, s'\<lparr>ms_reg := (ms_reg s')\<lparr>r_projects := ps\<rparr>\<rparr>)
     | ((None, ps, changed), s') \<Rightarrow> (Inr (), s'\<lparr>ms_reg := (ms_reg s')\<lparr>r_projects := ps,
          r_updated := (if changed then now else r_updated (ms_reg s'))\<rparr>\<rparr>)))"

section \<open>Labels\<close>

definition LabelProtected :: string where
  "LabelProtected = ''projmux.io/protected''"

definition AgentProtected :: "agent \<Rightarrow> bool" where
  "AgentProtected a \<longleftrightarrow> fmlookup (om_labels (a_meta a)) LabelProtected \<noteq> None"

definition ValidateAgentProtectionLabels :: "labels \<Rightarrow> check" where
  "ValidateAgentProtectionLabels ls = (case fmlookup ls LabelProtected of
     Some v \<Rightarrow> guardErr (v \<noteq> ''true'') (inputErr ''label agent'' ErrInvalidLabel)
   | None \<Rightarrow> ok)"

definition RemovedAgents :: "registry \<Rightarrow> registry \<Rightarrow> agent list" where
  "RemovedAgents before after = filter (\<lambda>a. lookupAgent after (a_uid a) = None) (r_agents before)"

definition ValidateAgentRemovals :: "registry \<Rightarrow> registry \<Rightarrow> check" where
  "ValidateAgentRemovals before after =
     guardErr (list_ex AgentProtected (RemovedAgents before after)) (EnvError ''agent-protected'')"

definition resourceMetadata :: "registry \<Rightarrow> kind \<Rightarrow> string \<Rightarrow> object_meta option" where
  "resourceMetadata r k uid = (case k of
     KindProject \<Rightarrow> map_option p_meta (lookupProject r uid)
   | KindWindow \<Rightarrow> map_option w_meta (lookupWindow r uid)
   | KindPane \<Rightarrow> map_option pn_meta (lookupPane r uid)
   | KindAgent \<Rightarrow> map_option a_meta (lookupAgent r uid)
   | _ \<Rightarrow> None)"

definition updMetadata :: "kind \<Rightarrow> string \<Rightarrow> (object_meta \<Rightarrow> object_meta) \<Rightarrow> registry \<Rightarrow> registry" where
  "updMetadata k uid f r = (case k of
     KindProject \<Rightarrow> updProject uid (\<lambda>p. p\<lparr>p_meta := f (p_meta p)\<rparr>) r
   | KindWindow \<Rightarrow> updWindow uid (\<lambda>w. w\<lparr>w_meta := f (w_meta w)\<rparr>) r
   | KindPane \<Rightarrow> updPane uid (\<lambda>p. p\<lparr>pn_meta := f (pn_meta p)\<rparr>) r
   | KindAgent \<Rightarrow> updAgent uid (\<lambda>a. a\<lparr>a_meta := f (a_meta a)\<rparr>) r
   | _ \<Rightarrow> r)"

text \<open>The label map after one write.\<close>

definition editLabels :: "labels \<Rightarrow> string list \<Rightarrow> labels \<Rightarrow> labels" where
  "editLabels added removed old = foldl (\<lambda>ls key. fmdrop key ls) (fmadd old added) removed"

text \<open>\<open>strings.ToLower(string(kind))\<close>; a kind outside the vocabulary never reaches a resource.\<close>

fun kindLower :: "kind \<Rightarrow> string" where
  "kindLower KindProject = ''project''"
| "kindLower KindWindow = ''window''"
| "kindLower KindPane = ''pane''"
| "kindLower KindAgent = ''agent''"
| "kindLower KindControlSession = ''controlsession''"
| "kindLower (KindOther s) = concat (map encodeRune (map toLowerRune (runesOf s)))"

definition checkLabels :: "kind \<Rightarrow> labels \<Rightarrow> string list \<Rightarrow> check" where
  "checkLabels k added removed = allChecks
     [if k = KindAgent then ValidateAgentProtectionLabels added else ok,
      guardErr (fBex (fmdom added) (\<lambda>key. trimSpace key = ''''))
        (inputErr (''label '' @ kindLower k) ErrInvalidLabel),
      guardErr (list_ex (\<lambda>key. trimSpace key = '''' \<or> fmlookup added key \<noteq> None) removed)
        (inputErr (''label '' @ kindLower k) ErrInvalidLabel)]"

definition SetLabels ::
  "'w mutator \<Rightarrow> kind \<Rightarrow> string \<Rightarrow> labels \<Rightarrow> string list \<Rightarrow> ('w mstate, object_meta \<times> bool) comp" where
  "SetLabels m k uid added removed =
     andThen (liftE (checkLabels k added removed)) (\<lambda>_. andThen getReg (\<lambda>reg.
       case resourceMetadata reg k uid of
         None \<Rightarrow> throw (stateErr (''label '' @ kindLower k) ErrNotFound)
       | Some target \<Rightarrow>
           (let ls = editLabels added removed (om_labels target) in
            if ls = om_labels target then return (target, False)
            else andThen (modReg (updMetadata k uid (\<lambda>o'. o'\<lparr>om_labels := ls\<rparr>)))
              (\<lambda>_. andThen (stamp m) (\<lambda>_. return (target\<lparr>om_labels := ls\<rparr>, True))))))"

end
