(* ===== verification/Registry_Steps.thy ===== *)
theory Registry_Steps
  imports Operations
begin

text \<open>
  What the Registry operations guarantee. The locale \<open>tx_body\<close> is the contract between a transaction and
  its body (grow by the ledger, touch nothing else when failing); every creating operation is an
  instance, so failure leaves no trace. The step relation \<open>regStep\<close> collects the operations, and
  every reachable Registry satisfies the identity invariant.
\<close>

section \<open>Transactions\<close>

locale tx_body =
  fixes body :: "time \<Rightarrow> ('w mstate, 'a) comp"
  assumes grows: "identity (ms_reg s) \<Longrightarrow> body now s = (res, s') \<Longrightarrow>
    \<exists>L M. txStep s M L s' \<and> ((\<exists>e. res = Inl e) \<longrightarrow> M = {})"
begin

lemma rollback_exact:
  assumes I: "identity (ms_reg s)" and open_tx: "tx_ledger (ms_txn s) = []" "\<not> tx_done (ms_txn s)"
    and run: "onError (body now) Rollback s = (Inl e, s')"
  shows "ms_reg s' = ms_reg s"
proof -
  obtain t where t: "body now s = (Inl e, t)" "s' = Rollback t"
    using run by (auto simp: onError_def split: prod.splits sum.splits)
  obtain L where st: "txStep s {} L t" using grows [OF I t(1)] by auto
  then have "ms_reg s' = foldr removeCreated L (ms_reg t)"
    using open_tx t(2) by (simp add: Rollback_def txStep_def)
  also have "\<dots> = ms_reg s" using I st by (intro rollback_grown) (auto simp: txStep_def)
  finally show ?thesis .
qed

lemma success_step:
  assumes "identity (ms_reg s)" and "onError (body now) Rollback s = (Inr x, s')"
  shows "\<exists>L M. txStep s M L s'"
  using assms grows by (fastforce simp: onError_def split: prod.splits sum.splits)

lemma in_transaction_atomic:
  assumes I: "identity (ms_reg s)" and run: "inTransaction m opid body s = (Inl e, s')"
  shows "ms_reg s' = ms_reg s"
proof -
  obtain now w where c: "Now m (ms_world s) = (now, w)" by fastforce
  let ?s = "s\<lparr>ms_world := w, ms_txn := \<lparr>tx_id = opid, tx_ledger = [], tx_done = False\<rparr>\<rparr>"
  have "onError (body now) Rollback ?s = (Inl e, s')"
    using run c by (auto simp: inTransaction_def clock_def Begin_def Commit_def modReg_def andThen_Inl return_def)
  from rollback_exact [OF _ _ _ this] I show ?thesis by simp
qed

lemma atomic_isl:
  assumes "identity (ms_reg s)" and "isl (fst (inTransaction m opid body s))"
  shows "ms_reg (snd (inTransaction m opid body s)) = ms_reg s"
proof -
  obtain e where "fst (inTransaction m opid body s) = Inl e" using assms(2) by (auto simp: isl_def)
  then have "inTransaction m opid body s = (Inl e, snd (inTransaction m opid body s))"
    by (metis prod.collapse)
  from in_transaction_atomic [OF assms(1) this] show ?thesis .
qed

lemma in_transaction_success:
  assumes I: "identity (ms_reg s)" and run: "inTransaction m opid body s = (Inr x, s')"
  shows "identity (ms_reg s') \<and> (\<forall>k. uidsAt (ms_reg s) k \<subseteq> uidsAt (ms_reg s') k)"
proof -
  obtain now w where c: "Now m (ms_world s) = (now, w)" by fastforce
  let ?s = "s\<lparr>ms_world := w, ms_txn := \<lparr>tx_id = opid, tx_ledger = [], tx_done = False\<rparr>\<rparr>"
  obtain t where t: "onError (body now) Rollback ?s = (Inr x, t)"
    and r: "ms_reg s' = (ms_reg t)\<lparr>r_updated := now\<rparr>"
    using run c by (auto simp: inTransaction_def clock_def Begin_def Commit_def modReg_def andThen_Inr return_def)
  obtain L M where st: "txStep ?s M L t" using success_step [OF _ t] I by auto
  have same: "sameIdents (ms_reg t) (ms_reg s')" by (simp add: sameIdents_def r)
  show ?thesis
    using txStep_uids [OF st] sameIdents_view(2) [OF same] identity_cong [OF same txStep_identity [OF st]]
    by auto
qed

end

interpretation register: tx_body "\<lambda>now. registerProjectTx m root now opts" for m root opts
  by unfold_locales (use registerProjectTx_spec in blast)

interpretation window: tx_body "addWindowTx m op ownerKind owner declared cwd" for m op ownerKind owner declared cwd
proof
  fix s :: "'a mstate" and now res s'
  assume "identity (ms_reg s)" "addWindowTx m op ownerKind owner declared cwd now s = (res, s')"
  from addWindowTx_spec [OF this] show "\<exists>L M. txStep s M L s' \<and> ((\<exists>e. res = Inl e) \<longrightarrow> M = {})"
    by (cases res) auto
qed

interpretation pane: tx_body "addPaneTx m op owner ownerKind role x command cwd labels"
  for m op owner ownerKind role x command cwd labels
proof
  fix s :: "'a mstate" and now res s'
  assume "identity (ms_reg s)" "addPaneTx m op owner ownerKind role x command cwd labels now s = (res, s')"
  from addPaneTx_spec [OF this] show "\<exists>L M. txStep s M L s' \<and> ((\<exists>e. res = Inl e) \<longrightarrow> M = {})"
    by (cases res) auto
qed

section \<open>Registration\<close>

lemma validateRoot_same: "validateRoot m op root s = (e, s') \<Longrightarrow> ms_reg s' = ms_reg s \<and> ms_txn s' = ms_txn s"
  by (auto simp: validateRoot_def Let_def throw_def return_def andThen_def dirExists_def
      split: if_splits prod.splits sum.splits option.splits)

lemma RegisterProject_fail:
  assumes I: "identity (ms_reg s)" and run: "RegisterProject m opts s = (Inl e, s')"
  shows "ms_reg s' = ms_reg s"
proof (cases "validateRoot m ''register project'' (ro_root opts) s")
  case (Pair v s1)
  have same: "ms_reg s1 = ms_reg s" using validateRoot_same [OF Pair] by simp
  show ?thesis
  proof (cases v)
    case (Inl x)
    with run Pair same show ?thesis by (auto simp: RegisterProject_def andThen_def)
  next
    case (Inr root)
    show ?thesis
    proof (cases "ProjectByRoot (ms_reg s1) root")
      case (Some p)
      with run Pair Inr same show ?thesis
        by (auto simp: RegisterProject_def andThen_def getReg_def liftE_def throw_def return_def split: sum.splits)
    next
      case None
      obtain now w where c: "Now m (ms_world s1) = (now, w)" by fastforce
      let ?s = "s1\<lparr>ms_world := w, ms_txn := \<lparr>tx_id = ro_operation opts, tx_ledger = [], tx_done = False\<rparr>\<rparr>"
      have "onError (registerProjectTx m root now opts) Rollback ?s = (Inl e, s')"
        using run Pair Inr None c
        by (auto simp: RegisterProject_def clock_def Begin_def Commit_def modReg_def getReg_def return_def andThen_def
            split: prod.splits sum.splits)
      from register.rollback_exact [OF _ _ _ this] I same show ?thesis by simp
    qed
  qed
qed

lemma RegisterProject_ok:
  assumes I: "identity (ms_reg s)" and run: "RegisterProject m opts s = (Inr x, s')"
  shows "identity (ms_reg s') \<and> (\<forall>k. uidsAt (ms_reg s) k \<subseteq> uidsAt (ms_reg s') k)"
proof -
  obtain root s1 where v: "validateRoot m ''register project'' (ro_root opts) s = (Inr root, s1)"
    using run by (auto simp: RegisterProject_def andThen_Inr)
  have same: "ms_reg s1 = ms_reg s" using validateRoot_same [OF v] by simp
  show ?thesis
  proof (cases "ProjectByRoot (ms_reg s1) root")
    case (Some p)
    with run v have "s' = s1"
      by (auto simp: RegisterProject_def andThen_def getReg_def liftE_def throw_def return_def split: sum.splits)
    with same I show ?thesis by simp
  next
    case None
    obtain now w where c: "Now m (ms_world s1) = (now, w)" by fastforce
    let ?s = "s1\<lparr>ms_world := w, ms_txn := \<lparr>tx_id = ro_operation opts, tx_ledger = [], tx_done = False\<rparr>\<rparr>"
    obtain y t where t: "onError (registerProjectTx m root now opts) Rollback ?s = (Inr y, t)"
      and r: "ms_reg s' = (ms_reg t)\<lparr>r_updated := now\<rparr>"
      using run v None c
      by (auto simp: RegisterProject_def clock_def Begin_def Commit_def modReg_def getReg_def return_def andThen_def
          split: prod.splits sum.splits)
    obtain L M where st: "txStep ?s M L t" using register.success_step [OF _ t] I same by auto
    have sm: "sameIdents (ms_reg t) (ms_reg s')" by (simp add: sameIdents_def r)
    show ?thesis
      using txStep_uids [OF st] sameIdents_view(2) [OF sm] identity_cong [OF sm txStep_identity [OF st]] same
      by auto
  qed
qed

section \<open>Renaming\<close>

lemma map_updFirst_commute:
  "(\<And>x. q (f x) = p x) \<Longrightarrow> (\<And>x. f (g x) = h (f x)) \<Longrightarrow> map f (updFirst p g xs) = updFirst q h (map f xs)"
  by (induction xs) auto

definition renamed :: "kind \<Rightarrow> string \<Rightarrow> string \<Rightarrow> (kind \<Rightarrow> ident list) \<Rightarrow> kind \<Rightarrow> ident list" where
  "renamed k u name ids = ids(k := updFirst (\<lambda>i. iuid i = u) (\<lambda>i. (u, name, iowner i)) (ids k))"

lemma set_updFirst_unique:
  assumes "distinct (map k xs)" and "i \<in> set xs" "k i = u"
  shows "set (updFirst (\<lambda>x. k x = u) f xs) = insert (f i) {x \<in> set xs. k x \<noteq> u}"
  using assms by (induction xs) (auto simp: image_iff)

lemma renamed_view:
  assumes "idents r' = renamed k u name (idents r)"
  shows "uidsAt r' = uidsAt r" "ownerOf r' = ownerOf r" "allUids r' = allUids r"
proof -
  have m: "map iuid (updFirst (\<lambda>i. iuid i = u) (\<lambda>i. (u, name, iowner i)) xs) = map iuid xs" for xs
    by (induction xs) auto
  then have ids: "map iuid (idents r' k') = map iuid (idents r k')" for k'
    by (simp add: assms renamed_def)
  then show "allUids r' = allUids r" by (simp only: allUids_idents list.map concat.simps)
  show "uidsAt r' = uidsAt r" unfolding uidsAt_def fun_eq_iff using ids by (metis set_map)
  have f: "map_option iowner (find (\<lambda>i. iuid i = v) (updFirst (\<lambda>i. iuid i = u) (\<lambda>i. (u, name, iowner i)) xs))
      = map_option iowner (find (\<lambda>i. iuid i = v) xs)" for v xs
    by (induction xs) auto
  show "ownerOf r' = ownerOf r"
    by (intro ext) (simp add: ownerOf_def assms renamed_def f)
qed

lemma scopeFor_view:
  assumes "uidsAt r' = uidsAt r" "ownerOf r' = ownerOf r"
  shows "scopeFor r' = scopeFor r"
proof (intro ext)
  fix k owner
  have root: "rootScope r' = rootScope r" by (rule ext) (simp add: rootScope_view assms)
  then have ag: "agentScope r' = agentScope r"
    by (intro ext) (simp add: agentScope_view assms split: option.split)
  then have "paneScope r' = paneScope r"
    by (intro ext) (simp add: paneScope_view assms root split: option.split)
  with root ag show "scopeFor r' k owner = scopeFor r k owner" by (cases k) simp_all
qed

text \<open>The reservation a resource already holds is the only one with its uid.\<close>

lemma identity_own:
  assumes I: "identity r" and i: "i \<in> set (idents r k)" and s: "scopeFor r k (iowner i) = Inr s"
    and n: "n \<in> set (r_names r)"
  shows "nr_uid n = iuid i \<longleftrightarrow> n = \<lparr>nr_scope = s, nr_kind = k, nr_name = iname i, nr_uid = iuid i\<rparr>"
proof -
  have "reservedAt r k i" using I i by (simp add: identity_def)
  then have m: "\<lparr>nr_scope = s, nr_kind = k, nr_name = iname i, nr_uid = iuid i\<rparr> \<in> set (r_names r)"
    using s by (simp add: reservedAt_def)
  have "inj_on nr_uid (set (r_names r))" using I by (simp add: identity_def distinct_map)
  from inj_onD [OF this _ n m] show ?thesis by auto
qed

lemma distinct_uid_putIn:
  assumes d: "distinct (map nr_uid ns)" and sl: "slotsOk ns" and free: "ownerIn ns s k x \<in> {None, Some u}"
    and own: "\<And>n. n \<in> set ns \<Longrightarrow> nr_uid n = u \<Longrightarrow> heldBy s k u n"
  shows "distinct (map nr_uid (putIn s k x u ns))"
proof -
  have keep: "\<lbrakk>distinct (map nr_uid ms); \<And>n. n \<in> set ms \<Longrightarrow> nr_uid n = u \<Longrightarrow> heldBy s k u n;
      \<And>n. n \<in> set ms \<Longrightarrow> sameSlot s k x n \<Longrightarrow> nr_uid n = u\<rbrakk> \<Longrightarrow>
      distinct (map nr_uid (keepForPut s k x u ms)) \<and> nr_uid ` set (keepForPut s k x u ms) \<subseteq> nr_uid ` set ms
      \<and> (list_ex (sameSlot s k x) ms \<or> u \<notin> nr_uid ` set (keepForPut s k x u ms))" for ms
  proof (induction ms)
    case (Cons n ms)
    then have ih: "distinct (map nr_uid (keepForPut s k x u ms))"
      "nr_uid ` set (keepForPut s k x u ms) \<subseteq> nr_uid ` set ms"
      "list_ex (sameSlot s k x) ms \<or> u \<notin> nr_uid ` set (keepForPut s k x u ms)" by auto
    consider "sameSlot s k x n" | "\<not> sameSlot s k x n" "heldBy s k u n"
      | "\<not> sameSlot s k x n" "\<not> heldBy s k u n" by blast
    then show ?case
    proof cases
      case 1
      then have "nr_uid n = u" using Cons.prems(3) by simp
      with 1 ih Cons.prems(1) show ?thesis by auto
    next
      case 2
      with ih show ?thesis by auto
    next
      case 3
      then have "nr_uid n \<noteq> u" using Cons.prems(2) by auto
      with 3 ih Cons.prems(1) show ?thesis by auto
    qed
  qed simp
  have "nr_uid n = u" if "n \<in> set ns" "sameSlot s k x n" for n
  proof -
    have "n = \<lparr>nr_scope = s, nr_kind = k, nr_name = x, nr_uid = nr_uid n\<rparr>"
      using that(2) by (cases n) (simp add: sameSlot_def)
    with that(1) ownerIn_mem [OF sl, of s k x "nr_uid n"] free show ?thesis by auto
  qed
  from keep [OF d own this] show ?thesis by (auto simp: putIn_def)
qed

lemma rename_identity:
  assumes I: "identity r" and i: "i \<in> set (idents r k)" "iuid i = u"
    and s: "scopeFor r k (iowner i) = Inr s"
    and free: "ownerIn (r_names r) s k name \<in> {None, Some u}"
    and ids: "idents r' = renamed k u name (idents r)"
    and nm: "r_names r' = putIn s k name u (r_names r)"
  shows "identity r'"
proof -
  note view = renamed_view [OF ids]
  note scope = scopeFor_view [OF view(1, 2)]
  have sl: "slotsOk (r_names r)" and du: "distinct (map nr_uid (r_names r))" and d: "distinct (allUids r)"
    using I by (simp_all add: identity_def)
  have own: "heldBy s k u n" if "n \<in> set (r_names r)" "nr_uid n = u" for n
    using identity_own [OF I i(1) s that(1)] that(2) i(2) by (simp add: heldBy_def)
  have du': "distinct (map nr_uid (r_names r'))"
    unfolding nm by (rule distinct_uid_putIn [OF du sl free own])
  have uk: "u \<in> uidsAt r k" using i by (auto simp: uidsAt_def)
  have mem: "nr_uid n \<in> uidsAt r' (nr_kind n)" if "n \<in> set (r_names r')" for n
    using that I uk by (auto simp: nm set_putIn view identity_def)
  have dk: "distinct (map iuid (idents r k))" by (rule distinct_idents [OF d])
  have other: "k' = k" if "j \<in> set (idents r k')" "iuid j = u" for j k'
  proof -
    have "u \<in> uidsAt r k'" using that by (auto simp: uidsAt_def)
    from uidsAt_disjoint [OF d this uk] show ?thesis .
  qed
  have mine: "reservedAt r' k (u, name, iowner i)" using s by (simp add: reservedAt_def scope nm set_putIn)
  have others: "reservedAt r' k' j" if j: "j \<in> set (idents r k')" "iuid j \<noteq> u" for k' j
  proof -
    have "reservedAt r k' j" using I j by (simp add: identity_def)
    then obtain s' where s': "scopeFor r k' (iowner j) = Inr s'"
      "\<lparr>nr_scope = s', nr_kind = k', nr_name = iname j, nr_uid = iuid j\<rparr> \<in> set (r_names r)" (is "?n \<in> _")
      by (auto simp: reservedAt_def split: sum.splits)
    have "\<not> sameSlot s k name ?n"
      using free s'(2) j(2) ownerIn_mem [OF sl, of s k name "iuid j"] by (auto simp: sameSlot_def)
    moreover have "\<not> heldBy s k u ?n" using j(2) by (simp add: heldBy_def)
    ultimately show ?thesis using s' by (simp add: reservedAt_def scope nm set_putIn)
  qed
  have "reservedAt r' k' j" if "j \<in> set (idents r' k')" for k' j
  proof (cases "k' = k")
    case True
    with that have "j = (u, name, iowner i) \<or> (j \<in> set (idents r k) \<and> iuid j \<noteq> u)"
      by (auto simp: ids renamed_def set_updFirst_unique [OF dk i])
    with others mine True show ?thesis by metis
  next
    case False
    with that have "j \<in> set (idents r k')" by (simp add: ids renamed_def)
    with others other False show ?thesis by metis
  qed
  with du' mem I view show ?thesis by (simp add: identity_def nm slotsOk_putIn)
qed

lemma reserve_cases:
  assumes "reserveExplicitName op owner k name u r = Inr r'"
  obtains s where "scopeFor r k owner = Inr s" "ownerIn (r_names r) s k name \<in> {None, Some u}"
    "r' = putReservation s k name u r" "ValidateName name = ok"
  using assms
  by (auto simp: reserveExplicitName_def nameOwner_def ok_def split: sum.splits option.splits if_splits)

lemma ident_simps: "ident (m\<lparr>om_name := x\<rparr>) = (om_uid m, x, OwnerUID m)"
  "ident (m\<lparr>om_labels := l\<rparr>) = ident m"
  by (simp_all add: ident_def OwnerUID_def)

lemma idents_rename:
  "idents (updProject u (\<lambda>p. p\<lparr>p_meta := (p_meta p)\<lparr>om_name := x\<rparr>\<rparr>) r) = renamed KindProject u x (idents r)"
  "idents (updWindow u (\<lambda>w. w\<lparr>w_meta := (w_meta w)\<lparr>om_name := x\<rparr>\<rparr>) r) = renamed KindWindow u x (idents r)"
  "idents (updPane u (\<lambda>p. p\<lparr>pn_meta := (pn_meta p)\<lparr>om_name := x\<rparr>\<rparr>) r) = renamed KindPane u x (idents r)"
proof -
  have u: "updFirst (\<lambda>i. iuid i = u) (\<lambda>i. (u, x, iowner i)) xs = updFirst (\<lambda>i. iuid i = u) (\<lambda>i. (iuid i, x, iowner i)) xs" for xs
    by (induction xs) auto
  have mp: "map (\<lambda>p. ident (p_meta p)) (updFirst (\<lambda>p. p_uid p = u) (\<lambda>p. p\<lparr>p_meta := (p_meta p)\<lparr>om_name := x\<rparr>\<rparr>) ps)
      = updFirst (\<lambda>i. iuid i = u) (\<lambda>i. (iuid i, x, iowner i)) (map (\<lambda>p. ident (p_meta p)) ps)" for ps
    by (induction ps) (simp_all add: ident_def OwnerUID_def)
  have mw: "map (\<lambda>w. ident (w_meta w)) (updFirst (\<lambda>w. w_uid w = u) (\<lambda>w. w\<lparr>w_meta := (w_meta w)\<lparr>om_name := x\<rparr>\<rparr>) ws)
      = updFirst (\<lambda>i. iuid i = u) (\<lambda>i. (iuid i, x, iowner i)) (map (\<lambda>w. ident (w_meta w)) ws)" for ws
    by (induction ws) (simp_all add: ident_def OwnerUID_def)
  have mq: "map (\<lambda>q. ident (pn_meta q)) (updFirst (\<lambda>q. pn_uid q = u) (\<lambda>q. q\<lparr>pn_meta := (pn_meta q)\<lparr>om_name := x\<rparr>\<rparr>) qs)
      = updFirst (\<lambda>i. iuid i = u) (\<lambda>i. (iuid i, x, iowner i)) (map (\<lambda>q. ident (pn_meta q)) qs)" for qs
    by (induction qs) (simp_all add: ident_def OwnerUID_def)
  show "idents (updProject u (\<lambda>p. p\<lparr>p_meta := (p_meta p)\<lparr>om_name := x\<rparr>\<rparr>) r) = renamed KindProject u x (idents r)"
    "idents (updWindow u (\<lambda>w. w\<lparr>w_meta := (w_meta w)\<lparr>om_name := x\<rparr>\<rparr>) r) = renamed KindWindow u x (idents r)"
    "idents (updPane u (\<lambda>p. p\<lparr>pn_meta := (pn_meta p)\<lparr>om_name := x\<rparr>\<rparr>) r) = renamed KindPane u x (idents r)"
    unfolding renamed_def u upd_defs idents_update mp mw mq by simp_all
qed

section \<open>Every operation keeps the identity invariant\<close>

definition idOK :: "'w mstate \<Rightarrow> bool" where
  "idOK s \<longleftrightarrow> identity (ms_reg s)"

lemma keeps_if [preserve]: "keeps P x \<Longrightarrow> keeps P y \<Longrightarrow> keeps P (if b then x else y)"
  by simp

lemma keeps_option [preserve]: "keeps P x \<Longrightarrow> (\<And>v. keeps P (f v)) \<Longrightarrow> keeps P (case o' of None \<Rightarrow> x | Some v \<Rightarrow> f v)"
  by (cases o') simp_all

lemma keeps_sum [preserve]: "(\<And>v. keeps P (f v)) \<Longrightarrow> (\<And>v. keeps P (g v)) \<Longrightarrow> keeps P (case o' of Inl v \<Rightarrow> f v | Inr v \<Rightarrow> g v)"
  by (cases o') simp_all

lemma keeps_prod [preserve]: "(\<And>x y. keeps P (f x y)) \<Longrightarrow> keeps P (case o' of (x, y) \<Rightarrow> f x y)"
  by (cases o') simp

lemma keeps_getReg [preserve]: "keeps P getReg"
  by (simp add: keeps_def getReg_def)

lemma keeps_andThen_getReg:
  "(\<And>s. P s \<Longrightarrow> P (snd (f (ms_reg s) s))) \<Longrightarrow> keeps P (andThen getReg f)"
  by (simp add: keeps_def andThen_def getReg_def)

lemma keeps_modReg [preserve]: "(\<And>r. sameIdents r (f r)) \<Longrightarrow> keeps idOK (modReg f)"
  unfolding keeps_def idOK_def modReg_def by simp (blast intro: identity_cong)

lemma keeps_world [preserve]:
  "keeps idOK (clock m)" "keeps idOK (mintUID m k)" "keeps idOK (dirExists m op path)"
  by (auto simp: keeps_def idOK_def clock_def mintUID_def dirExists_def split: prod.splits option.splits)

lemma sameIdents_updated: "sameIdents r (r\<lparr>r_updated := t\<rparr>)"
  by (simp add: sameIdents_def)

lemma keeps_stamp [preserve]: "keeps idOK (stamp m)"
  unfolding stamp_def by (intro preserve sameIdents_updated)

lemma keeps_the [preserve]: "keeps idOK (theProject u)" "keeps idOK (theWindow u)" "keeps idOK (thePane u)"
  unfolding theProject_def theWindow_def thePane_def by (intro preserve)+

lemma keeps_validateRoot [preserve]: "keeps idOK (validateRoot m op root)"
  unfolding validateRoot_def Let_def by (intro preserve)

lemma keeps_rebind: "keeps idOK (RebindProjectRoot m u root)"
  unfolding RebindProjectRoot_def by (intro preserve sameIdents_updated sameIdents_upd) simp

lemma keeps_bindLive: "keeps idOK (BindLiveProjectSession m u session socket)"
  unfolding BindLiveProjectSession_def Let_def
  by (intro preserve sameIdents_updated sameIdents_upd) (simp add: setSession_def)

lemma keeps_bindOffline: "keeps idOK (BindOfflineProjectSession m u session)"
  unfolding BindOfflineProjectSession_def Let_def
  by (intro preserve sameIdents_updated sameIdents_upd) (simp add: setSession_def)

lemma keeps_observeWindow: "keeps idOK (ObserveWindowRuntimeBinding m u session runtime)"
  unfolding ObserveWindowRuntimeBinding_def Let_def
  by (intro preserve sameIdents_updated sameIdents_upd) simp_all

lemma dirExists_reg: "dirExists m op path s = (e, s') \<Longrightarrow> ms_reg s' = ms_reg s"
  by (auto simp: dirExists_def split: option.splits prod.splits)

lemma observeRoots_frame:
  "observeRoots m now ps s = ((e, qs, ch), s') \<Longrightarrow>
     ms_reg s' = ms_reg s \<and> map p_meta qs = map p_meta ps"
proof (induction ps arbitrary: s e qs ch s')
  case (Cons p ps)
  obtain v s1 where d: "dirExists m ''observe project roots'' (ps_root (p_spec p)) s = (v, s1)" by fastforce
  obtain e' qs' ch' s2 where rest: "observeRoots m now ps s1 = ((e', qs', ch'), s2)" by (metis prod_cases3 surj_pair)
  from Cons.IH [OF rest] dirExists_reg [OF d] Cons.prems d rest show ?case
    by (cases v) (auto simp: Let_def split: prod.splits if_splits)
qed simp

lemma keeps_observeRoots: "keeps idOK (ObserveProjectRoots m)"
  unfolding ObserveProjectRoots_def
proof (rule keeps_andThen [OF keeps_world(1)], rule keeps_andThen_getReg)
  fix now and s :: "'a mstate"
  assume I: "idOK s"
  obtain e qs ch s' where o': "observeRoots m now (r_projects (ms_reg s)) s = ((e, qs, ch), s')"
    by (metis prod_cases3 surj_pair)
  from observeRoots_frame [OF o'] have f: "ms_reg s' = ms_reg s" "map p_meta qs = map p_meta (r_projects (ms_reg s))"
    by simp_all
  have m: "map (\<lambda>p. ident (p_meta p)) qs = map (\<lambda>p. ident (p_meta p)) (r_projects (ms_reg s))"
    using arg_cong [OF f(2), of "map ident"] by (simp add: comp_def)
  have "sameIdents (ms_reg s) ((ms_reg s')\<lparr>r_projects := qs, r_updated := t\<rparr>)"
    "sameIdents (ms_reg s) ((ms_reg s')\<lparr>r_projects := qs\<rparr>)" for t
    by (simp_all add: sameIdents_def f m fun_upd_idem)
  with I show "idOK (snd (case observeRoots m now (r_projects (ms_reg s)) s of
       ((Some e, ps, _), s') \<Rightarrow> (Inl e, s'\<lparr>ms_reg := (ms_reg s')\<lparr>r_projects := ps\<rparr>\<rparr>)
     | ((None, ps, changed), s') \<Rightarrow> (Inr (), s'\<lparr>ms_reg := (ms_reg s')\<lparr>r_projects := ps,
          r_updated := (if changed then now else r_updated (ms_reg s'))\<rparr>\<rparr>)))"
    using identity_cong by (auto simp: o' idOK_def split: option.splits)
qed

lemma sameIdents_updMetadata:
  "(\<And>o'. ident (f o') = ident o') \<Longrightarrow> sameIdents r (updMetadata k u f r)"
  by (cases k) (auto simp: updMetadata_def sameIdents_def [of r r] intro!: sameIdents_upd)

lemma keeps_setLabels: "keeps idOK (SetLabels m k u added removed)"
  unfolding SetLabels_def Let_def
  by (intro preserve sameIdents_updMetadata) (simp add: ident_simps)

lemma lookup_ident:
  "lookupProject r u = Some p \<Longrightarrow> ident (p_meta p) \<in> set (idents r KindProject) \<and> iuid (ident (p_meta p)) = u"
  "lookupWindow r u = Some w \<Longrightarrow> ident (w_meta w) \<in> set (idents r KindWindow) \<and> iuid (ident (w_meta w)) = u"
  "lookupPane r u = Some q \<Longrightarrow> ident (pn_meta q) \<in> set (idents r KindPane) \<and> iuid (ident (pn_meta q)) = u"
  using lookup_Some [of r u] by auto

lemma iowner_ident [simp]: "iowner (ident m) = OwnerUID m" "iname (ident m) = om_name m"
  by (simp_all add: ident_def)

text \<open>After a reservation under the same uid, writing the name gives a valid Registry again.\<close>

lemma rename_put:
  assumes I: "identity r" and i: "i \<in> set (idents r k)" "iuid i = u"
    and owner: "scopeFor r k owner = scopeFor r k (iowner i)"
    and res: "reserveExplicitName op owner k name u r = Inr r'"
    and r'': "idents r'' = renamed k u name (idents r')" "r_names r'' = r_names r'"
  shows "identity r''"
proof (rule reserve_cases [OF res])
  fix s
  assume s: "scopeFor r k owner = Inr s" "ownerIn (r_names r) s k name \<in> {None, Some u}"
    "r' = putReservation s k name u r"
  show ?thesis
  proof (rule rename_identity [OF I i _ s(2)])
    show "scopeFor r k (iowner i) = Inr s" using s owner by simp
    show "idents r'' = renamed k u name (idents r)" "r_names r'' = putIn s k name u (r_names r)"
      using r'' s(3) by (simp_all add: putReservation_def)
  qed
qed

lemma names_upd [simp]:
  "r_names (updProject u f1 r) = r_names r" "r_names (updWindow u f2 r) = r_names r"
  "r_names (updPane u f3 r) = r_names r" "r_names (updAgent u f4 r) = r_names r"
  by (simp_all add: upd_defs)

lemma keeps_rest: "identity (f (ms_reg s)) \<Longrightarrow> keeps idOK g \<Longrightarrow> idOK (snd (andThen (modReg f) (\<lambda>_. g) s))"
  by (simp add: keeps_def andThen_def modReg_def idOK_def)

lemma keeps_renameProject: "keeps idOK (RenameProject m u name)"
  unfolding RenameProject_def
proof (rule keeps_andThen_getReg)
  fix s :: "'a mstate"
  assume I: "idOK s"
  let ?res = "reserveExplicitName ''rename project'' '''' KindProject name u (ms_reg s)"
  show "idOK (snd ((case lookupProject (ms_reg s) u of
       None \<Rightarrow> throw (stateErr ''rename project'' ErrNotFound)
     | Some project \<Rightarrow> (case ?res of
            Inl e \<Rightarrow> throw e
          | Inr reg' \<Rightarrow>
              andThen (modReg (\<lambda>_. updProject u (\<lambda>p. p\<lparr>p_meta := (p_meta p)\<lparr>om_name := name\<rparr>\<rparr>) reg'))
                (\<lambda>_. andThen (stamp m) (\<lambda>_. theProject u)))) s))"
  proof (cases "lookupProject (ms_reg s) u")
    case (Some p)
    show ?thesis
    proof (cases ?res)
      case (Inr reg')
      have "identity (updProject u (\<lambda>p. p\<lparr>p_meta := (p_meta p)\<lparr>om_name := name\<rparr>\<rparr>) reg')"
        by (rule rename_put [where i = "ident (p_meta p)", OF _ _ _ _ Inr idents_rename(1)])
          (use I lookup_ident(1) [OF Some] in \<open>simp_all add: idOK_def\<close>)
      then show ?thesis unfolding Some Inr option.case sum.case
        by (rule keeps_rest) (intro preserve)
    qed (use I Some in \<open>simp add: throw_def\<close>)
  qed (use I in \<open>simp add: throw_def\<close>)
qed

lemma keeps_renameWindow: "keeps idOK (RenameWindow m u name)"
  unfolding RenameWindow_def
proof (rule keeps_andThen_getReg)
  fix s :: "'a mstate"
  assume I: "idOK s"
  show "idOK (snd ((case lookupWindow (ms_reg s) u of
       None \<Rightarrow> throw (stateErr ''rename window'' ErrNotFound)
     | Some w \<Rightarrow> (case reserveExplicitName ''rename window'' (OwnerUID (w_meta w)) KindWindow name u (ms_reg s) of
            Inl e \<Rightarrow> throw e
          | Inr reg' \<Rightarrow>
              andThen (modReg (\<lambda>_. updWindow u (\<lambda>w. w\<lparr>w_meta := (w_meta w)\<lparr>om_name := name\<rparr>\<rparr>) reg'))
                (\<lambda>_. andThen (stamp m) (\<lambda>_. theWindow u)))) s))"
  proof (cases "lookupWindow (ms_reg s) u")
    case (Some w)
    show ?thesis
    proof (cases "reserveExplicitName ''rename window'' (OwnerUID (w_meta w)) KindWindow name u (ms_reg s)")
      case (Inr reg')
      have "identity (updWindow u (\<lambda>w. w\<lparr>w_meta := (w_meta w)\<lparr>om_name := name\<rparr>\<rparr>) reg')"
        by (rule rename_put [where i = "ident (w_meta w)", OF _ _ _ _ Inr idents_rename(2)])
          (use I lookup_ident(2) [OF Some] in \<open>simp_all add: idOK_def\<close>)
      then show ?thesis unfolding Some Inr option.case sum.case
        by (rule keeps_rest) (intro preserve)
    qed (use I Some in \<open>simp add: throw_def\<close>)
  qed (use I in \<open>simp add: throw_def\<close>)
qed

lemma keeps_renamePane: "keeps idOK (RenamePane m u name)"
  unfolding RenamePane_def
proof (rule keeps_andThen_getReg)
  fix s :: "'a mstate"
  assume I: "idOK s"
  show "idOK (snd ((case lookupPane (ms_reg s) u of
       None \<Rightarrow> throw (stateErr ''rename pane'' ErrNotFound)
     | Some p \<Rightarrow> (case reserveExplicitName ''rename pane'' (OwnerUID (pn_meta p)) KindPane name u (ms_reg s) of
            Inl e \<Rightarrow> throw e
          | Inr reg' \<Rightarrow>
              andThen (modReg (\<lambda>_. updPane u (\<lambda>p. p\<lparr>pn_meta := (pn_meta p)\<lparr>om_name := name\<rparr>\<rparr>) reg'))
                (\<lambda>_. andThen (stamp m) (\<lambda>_. thePane u)))) s))"
  proof (cases "lookupPane (ms_reg s) u")
    case (Some p)
    show ?thesis
    proof (cases "reserveExplicitName ''rename pane'' (OwnerUID (pn_meta p)) KindPane name u (ms_reg s)")
      case (Inr reg')
      have "identity (updPane u (\<lambda>p. p\<lparr>pn_meta := (pn_meta p)\<lparr>om_name := name\<rparr>\<rparr>) reg')"
        by (rule rename_put [where i = "ident (pn_meta p)", OF _ _ _ _ Inr idents_rename(3)])
          (use I lookup_ident(3) [OF Some] in \<open>simp_all add: idOK_def\<close>)
      then show ?thesis unfolding Some Inr option.case sum.case
        by (rule keeps_rest) (intro preserve)
    qed (use I Some in \<open>simp add: throw_def\<close>)
  qed (use I in \<open>simp add: throw_def\<close>)
qed

lemma keeps_register: "keeps idOK (RegisterProject m opts)"
proof -
  have "identity (ms_reg (snd (RegisterProject m opts s)))" if I: "identity (ms_reg s)" for s
    using RegisterProject_fail [OF I] RegisterProject_ok [OF I] I
    by (cases "RegisterProject m opts s"; cases "fst (RegisterProject m opts s)") fastforce+
  then show ?thesis by (simp add: keeps_def idOK_def)
qed

context tx_body
begin

lemma keeps_transaction: "keeps idOK (inTransaction m opid body)"
proof -
  have "identity (ms_reg (snd (inTransaction m opid body s)))" if I: "identity (ms_reg s)" for s
    using in_transaction_atomic [OF I] in_transaction_success [OF I] I
    by (cases "inTransaction m opid body s"; cases "fst (inTransaction m opid body s)") fastforce+
  then show ?thesis by (simp add: keeps_def idOK_def)
qed

end

lemma keeps_addWindow: "keeps idOK (AddWindow m u declared opid)"
  unfolding AddWindow_def by (intro preserve window.keeps_transaction)

lemma keeps_addManaged: "keeps idOK (AddWindowToManagedRoot m k u declared cwd opid)"
  unfolding AddWindowToManagedRoot_def by (intro preserve window.keeps_transaction)

lemma keeps_addPane: "keeps idOK (AddPane m u declared opid)"
  unfolding AddPane_def Let_def by (intro preserve pane.keeps_transaction)

lemmas keeps_operation = keeps_register keeps_addWindow keeps_addManaged keeps_addPane keeps_rebind
  keeps_renameProject keeps_renameWindow keeps_renamePane keeps_bindLive keeps_bindOffline
  keeps_observeWindow keeps_observeRoots keeps_setLabels

section \<open>Reachable Registries\<close>

text \<open>One operation of the Mutator, successful or not, as a step of the state.\<close>

inductive regStep :: "'w mutator \<Rightarrow> 'w mstate \<Rightarrow> 'w mstate \<Rightarrow> bool" for m where
  register: "regStep m s (snd (RegisterProject m opts s))"
| add_window: "regStep m s (snd (AddWindow m u declared opid s))"
| add_managed: "regStep m s (snd (AddWindowToManagedRoot m k u declared cwd opid s))"
| add_pane: "regStep m s (snd (AddPane m u bp opid s))"
| rebind: "regStep m s (snd (RebindProjectRoot m u root s))"
| rename_project: "regStep m s (snd (RenameProject m u name s))"
| rename_window: "regStep m s (snd (RenameWindow m u name s))"
| rename_pane: "regStep m s (snd (RenamePane m u name s))"
| bind_live: "regStep m s (snd (BindLiveProjectSession m u session socket s))"
| bind_offline: "regStep m s (snd (BindOfflineProjectSession m u session s))"
| observe_window: "regStep m s (snd (ObserveWindowRuntimeBinding m u session runtime s))"
| observe_roots: "regStep m s (snd (ObserveProjectRoots m s))"
| set_labels: "regStep m s (snd (SetLabels m k u added removed s))"

inductive regReachable :: "'w mutator \<Rightarrow> 'w mstate \<Rightarrow> 'w mstate \<Rightarrow> bool" for m s0 where
  start: "regReachable m s0 s0"
| step: "regReachable m s0 s \<Longrightarrow> regStep m s s' \<Longrightarrow> regReachable m s0 s'"

lemma regStep_identity: "regStep m s s' \<Longrightarrow> identity (ms_reg s) \<Longrightarrow> identity (ms_reg s')"
  by (induction rule: regStep.induct)
    (use keeps_operation in \<open>fastforce simp: keeps_def idOK_def\<close>)+

section \<open>An environment for the examples\<close>

text \<open>Time stands still; uids are runs of one letter; minting fails after \<open>limit\<close> uids; every directory
  exists.\<close>

definition demoMutator :: "nat \<Rightarrow> nat mutator" where
  "demoMutator limit = \<lparr>Now = (\<lambda>n. (7, n)),
     NewUID = (\<lambda>k n. (if n < limit then Inr (replicate (Suc n) (CHR ''u'')) else Inl (EnvError ''entropy''), Suc n)),
     DirExists = Some (\<lambda>path n. (Inr True, n))\<rparr>"

definition demoState :: "nat mstate" where
  "demoState = \<lparr>ms_reg = NewRegistry, ms_txn = \<lparr>tx_id = '''', tx_ledger = [], tx_done = True\<rparr>, ms_world = 0\<rparr>"

definition demoOptions :: register_options where
  "demoOptions = \<lparr>ro_root = ''/a'', ro_name = ''p'', ro_labels = fmempty, ro_annotations = fmempty,
     ro_topology = [], ro_session = '''', ro_operation = ''op''\<rparr>"

definition demoRegistered :: "nat mstate" where
  "demoRegistered = snd (RegisterProject (demoMutator 9) demoOptions demoState)"

lemma demoState_identity: "identity (ms_reg demoState)"
  by (simp add: demoState_def identity_NewRegistry)

lemma demoRegistered_identity: "identity (ms_reg demoRegistered)"
  using keeps_register demoState_identity by (auto simp: keeps_def idOK_def demoRegistered_def)

section \<open>Properties\<close>

text \<open>C1: A failed \<open>RegisterProject\<close> leaves the Registry exactly as it was: whatever Project, Windows and
  Panes it had already created and whatever names it had reserved, the rollback removes all of it and
  nothing else. (The Registry satisfies the identity invariant, as every reachable one does.)\<close>

theorem register_failure_is_atomic:
  assumes "identity (ms_reg s)" and "RegisterProject m opts s = (Inl e, s')"
  shows "ms_reg s' = ms_reg s"
  using RegisterProject_fail [OF assms] .

theorem register_failure_is_atomic_witness:
  "fst (RegisterProject (demoMutator 2) demoOptions demoState) = Inl (EnvError ''entropy'')
   \<and> ms_reg (snd (RegisterProject (demoMutator 2) demoOptions demoState)) = NewRegistry"
proof
  show f: "fst (RegisterProject (demoMutator 2) demoOptions demoState) = Inl (EnvError ''entropy'')"
    by code_simp
  have "ms_reg (snd (RegisterProject (demoMutator 2) demoOptions demoState)) = ms_reg demoState"
    by (rule register_failure_is_atomic [OF demoState_identity, where e = "EnvError ''entropy''"
        and m = "demoMutator 2" and opts = demoOptions])
      (simp add: prod_eq_iff f)
  then show "ms_reg (snd (RegisterProject (demoMutator 2) demoOptions demoState)) = NewRegistry"
    by (simp add: demoState_def)
qed

text \<open>Every Registry reachable from one that satisfies the identity invariant by any sequence of the
  modelled operations, failing ones included, satisfies it: uids are unique and non-empty, one
  reservation per slot and per uid, every reservation names a resource of its kind, and every resource
  holds its own name in the scope of its root.\<close>

theorem reachable_identity:
  assumes "regReachable m s0 s" and "identity (ms_reg s0)"
  shows "identity (ms_reg s)"
  using assms by (induction rule: regReachable.induct) (simp_all add: regStep_identity)

theorem reachable_identity_witness:
  "identity (ms_reg (snd (RenameProject (demoMutator 9) ''u'' ''q'' demoRegistered)))"
proof (rule reachable_identity [where m = "demoMutator 9"])
  show "regReachable (demoMutator 9) demoState (snd (RenameProject (demoMutator 9) ''u'' ''q'' demoRegistered))"
    unfolding demoRegistered_def
    by (rule regReachable.step, rule regReachable.step, rule regReachable.start, rule regStep.register,
        rule regStep.rename_project)
  show "identity (ms_reg demoState)" by (rule demoState_identity)
qed

text \<open>C9: The other creating operations fail atomically too: when \<open>AddWindow\<close>, \<open>AddWindowToManagedRoot\<close>
  or \<open>AddPane\<close> returns an error, the Registry is unchanged.\<close>

theorem creation_failure_is_atomic:
  assumes I: "identity (ms_reg s)"
  shows "(isl (fst (AddWindow m u bw opid s)) \<longrightarrow> ms_reg (snd (AddWindow m u bw opid s)) = ms_reg s)
    \<and> (isl (fst (AddWindowToManagedRoot m k u bw cwd opid s))
         \<longrightarrow> ms_reg (snd (AddWindowToManagedRoot m k u bw cwd opid s)) = ms_reg s)
    \<and> (isl (fst (AddPane m u bp opid s)) \<longrightarrow> ms_reg (snd (AddPane m u bp opid s)) = ms_reg s)"
  using window.atomic_isl [OF I] pane.atomic_isl [OF I]
  by (auto simp: AddWindow_def AddWindowToManagedRoot_def AddPane_def andThen_def getReg_def throw_def Let_def
      split: option.splits)

definition demoPane :: bootstrap_pane where
  "demoPane = \<lparr>bp_name = '''', bp_command = '''', bp_cwd = '''', bp_labels = fmempty\<rparr>"

theorem creation_failure_is_atomic_witness:
  "isl (fst (AddPane (demoMutator 0) ''uu'' demoPane ''op'' demoRegistered))
   \<and> ms_reg (snd (AddPane (demoMutator 0) ''uu'' demoPane ''op'' demoRegistered)) = ms_reg demoRegistered"
proof
  show f: "isl (fst (AddPane (demoMutator 0) ''uu'' demoPane ''op'' demoRegistered))" by code_simp
  from creation_failure_is_atomic [OF demoRegistered_identity] f
  show "ms_reg (snd (AddPane (demoMutator 0) ''uu'' demoPane ''op'' demoRegistered)) = ms_reg demoRegistered"
    by blast
qed

end
