(* ===== verification/Anchors.thy ===== *)
theory Anchors
  imports Registry_Steps
begin

text \<open>
  Window anchors: the one eligibility predicate of \<^verbatim>\<open>internal/core/metadata/validate.go\<close>, the resolvers of
  \<^verbatim>\<open>model.go\<close> and \<^verbatim>\<open>virtual_window.go\<close> that rest on it, the selection of a successor in \<^verbatim>\<open>agent.go\<close> and the
  removal of a Pane row, which moves every anchor and default shell that named it.
\<close>

section \<open>Eligibility\<close>

definition paneWindowOwnerUID :: "registry \<Rightarrow> pane \<Rightarrow> string \<times> bool" where
  "paneWindowOwnerUID r p = (case om_owner (pn_meta p) of
     None \<Rightarrow> ('''', False)
   | Some owner \<Rightarrow>
       if or_kind owner = KindWindow then (or_uid owner, lookupWindow r (or_uid owner) \<noteq> None)
       else if or_kind owner \<noteq> KindAgent then ('''', False)
       else (case lookupAgent r (or_uid owner) of
           None \<Rightarrow> ('''', False)
         | Some a \<Rightarrow> (case om_owner (a_meta a) of
               None \<Rightarrow> ('''', False)
             | Some w \<Rightarrow> if or_kind w \<noteq> KindWindow then ('''', False)
                 else (or_uid w, lookupWindow r (or_uid w) \<noteq> None))))"

datatype anchor_verdict = AnchorEligible | AnchorNotSameWindowShellOrAgent | AnchorNotManagedAgentPane

definition windowAnchorEligibility :: "registry \<Rightarrow> string \<Rightarrow> pane \<Rightarrow> anchor_verdict" where
  "windowAnchorEligibility r windowUID p = (let (owner, owned) = paneWindowOwnerUID r p in
     if \<not> owned \<or> owner \<noteq> windowUID then AnchorNotSameWindowShellOrAgent
     else case pns_role (pn_spec p) of
       PaneRoleShell \<Rightarrow>
         (case om_owner (pn_meta p) of
            Some ref \<Rightarrow> if or_kind ref \<noteq> KindWindow then AnchorNotSameWindowShellOrAgent else AnchorEligible
          | None \<Rightarrow> AnchorNotSameWindowShellOrAgent)
     | PaneRoleAgent \<Rightarrow>
         (case lookupAgent r (OwnerUID (pn_meta p)) of
            None \<Rightarrow> AnchorNotManagedAgentPane
          | Some a \<Rightarrow> if ast_pane (a_status a) \<noteq> pn_uid p then AnchorNotManagedAgentPane else AnchorEligible)
     | _ \<Rightarrow> AnchorNotSameWindowShellOrAgent)"

definition windowAnchorRefEligible :: "registry \<Rightarrow> string \<Rightarrow> string \<Rightarrow> bool" where
  "windowAnchorRefEligible r windowUID paneUID = (case lookupPane r paneUID of
     None \<Rightarrow> False
   | Some p \<Rightarrow> windowAnchorEligibility r windowUID p = AnchorEligible)"

section \<open>Resolvers\<close>

definition WindowAnchor :: "registry \<Rightarrow> string \<Rightarrow> pane option" where
  "WindowAnchor r windowUID = (case lookupWindow r (trimSpace windowUID) of
     None \<Rightarrow> None
   | Some w \<Rightarrow> (case lookupPane r (trimSpace (ws_anchor (w_spec w))) of
       None \<Rightarrow> None
     | Some p \<Rightarrow> if windowAnchorEligibility r (w_uid w) p \<noteq> AnchorEligible then None else Some p))"

definition WindowDefaultShell :: "registry \<Rightarrow> string \<Rightarrow> pane option" where
  "WindowDefaultShell r windowUID = (case lookupWindow r (trimSpace windowUID) of
     None \<Rightarrow> None
   | Some w \<Rightarrow>
       if trimSpace (ws_shell (w_spec w)) = '''' then None
       else (case lookupPane r (trimSpace (ws_shell (w_spec w))) of
           None \<Rightarrow> None
         | Some p \<Rightarrow>
             if pns_role (pn_spec p) = PaneRoleShell
               \<and> om_owner (pn_meta p) = Some \<lparr>or_kind = KindWindow, or_uid = w_uid w\<rparr>
             then Some p else None))"

definition PaneInWindow :: "registry \<Rightarrow> string \<Rightarrow> string \<Rightarrow> pane option" where
  "PaneInWindow r windowUID paneUID = (case lookupPane r (trimSpace paneUID) of
     None \<Rightarrow> None
   | Some p \<Rightarrow> (case paneWindowOwnerUID r p of
       (owner, owned) \<Rightarrow> if \<not> owned \<or> owner \<noteq> trimSpace windowUID then None else Some p))"

definition paneKind :: "pane \<Rightarrow> runtime_kind" where
  "paneKind p = EffectiveKind (pns_runtime (pn_spec p))"

definition IsVirtualWindow :: "registry \<Rightarrow> string \<Rightarrow> bool" where
  "IsVirtualWindow r windowUID = (case WindowAnchor r windowUID of
     None \<Rightarrow> False | Some anchor \<Rightarrow> paneKind anchor = RuntimeProcess)"

section \<open>Selecting a successor\<close>

definition isDirectShell :: "string \<Rightarrow> pane \<Rightarrow> bool" where
  "isDirectShell windowUID p \<longleftrightarrow> om_owner (pn_meta p) = Some \<lparr>or_kind = KindWindow, or_uid = windowUID\<rparr>
     \<and> pns_role (pn_spec p) = PaneRoleShell"

definition firstWindowShellPaneUID :: "registry \<Rightarrow> string \<Rightarrow> string" where
  "firstWindowShellPaneUID r windowUID = (case find (isDirectShell windowUID) (r_panes r) of
     None \<Rightarrow> '''' | Some p \<Rightarrow> pn_uid p)"

text \<open>The loop: an eligible tmux Pane returns at once, the first eligible other Pane is remembered.\<close>

fun anchorScan :: "registry \<Rightarrow> string \<Rightarrow> pane list \<Rightarrow> string \<Rightarrow> string" where
  "anchorScan r windowUID [] process = process"
| "anchorScan r windowUID (p # ps) process =
     (if windowAnchorEligibility r windowUID p \<noteq> AnchorEligible then anchorScan r windowUID ps process
      else if paneKind p = RuntimeTmux then pn_uid p
      else anchorScan r windowUID ps (if process = '''' then pn_uid p else process))"

definition firstWindowAnchorPaneUID :: "registry \<Rightarrow> string \<Rightarrow> string" where
  "firstWindowAnchorPaneUID r windowUID = anchorScan r windowUID (r_panes r) ''''"

section \<open>Writers\<close>

definition retireTmux :: "window \<Rightarrow> window" where
  "retireTmux w = w\<lparr>w_spec := (w_spec w)\<lparr>ws_shell := ''''\<rparr>,
     w_status := (w_status w)\<lparr>wst_session := '''', wst_runtime := '''',
       wst_conditions := fst (clearCondition ConditionMissingRuntime (wst_conditions (w_status w)))\<rparr>\<rparr>"

definition setWindowAnchor :: "string \<Rightarrow> string \<Rightarrow> registry \<Rightarrow> registry" where
  "setWindowAnchor windowUID paneUID r = (case lookupWindow r windowUID of
     None \<Rightarrow> r
   | Some _ \<Rightarrow>
       let r1 = updWindow windowUID (\<lambda>w. w\<lparr>w_spec := (w_spec w)\<lparr>ws_anchor := paneUID\<rparr>\<rparr>) r
       in if IsVirtualWindow r1 windowUID then updWindow windowUID retireTmux r1 else r1)"

definition SetWindowAnchor :: "'w mutator \<Rightarrow> string \<Rightarrow> string \<Rightarrow> ('w mstate, window) comp" where
  "SetWindowAnchor m windowUID paneUID =
     andThen getReg (\<lambda>r. case lookupWindow r windowUID of
       None \<Rightarrow> throw (stateErr ''set window anchor'' ErrNotFound)
     | Some _ \<Rightarrow>
         if \<not> windowAnchorRefEligible r windowUID paneUID
         then throw (stateErr ''set window anchor'' ErrInvalidRegistry)
         else andThen (modReg (setWindowAnchor windowUID paneUID)) (\<lambda>_.
              andThen (stamp m) (\<lambda>_. theWindow windowUID)))"

text \<open>One iteration of the Window loop of \<open>deletePane\<close>, by index.\<close>

definition moveRefs :: "string \<Rightarrow> registry \<Rightarrow> nat \<Rightarrow> registry" where
  "moveRefs uid r j =
     (let w = r_windows r ! j;
          r1 = (if ws_anchor (w_spec w) = uid
                then setWindowAnchor (w_uid w) (firstWindowAnchorPaneUID r (w_uid w)) r else r);
          w1 = r_windows r1 ! j
      in if ws_shell (w_spec w1) = uid
         then r1\<lparr>r_windows := (r_windows r1)[j := w1\<lparr>w_spec := (w_spec w1)
                \<lparr>ws_shell := firstWindowShellPaneUID r1 (w_uid w1)\<rparr>\<rparr>]\<rparr>
         else r1)"

definition releasePaneRef :: "string \<Rightarrow> agent \<Rightarrow> agent" where
  "releasePaneRef uid a = (if ast_pane (a_status a) = uid
     then a\<lparr>a_status := (a_status a)\<lparr>ast_pane := '''', ast_progress := emptyProgress\<rparr>\<rparr> else a)"

definition deletePane :: "string \<Rightarrow> registry \<Rightarrow> registry \<times> bool" where
  "deletePane uid r = (case lookupPane r uid of
     None \<Rightarrow> (r, False)
   | Some _ \<Rightarrow>
       let r1 = releaseNames uid (r\<lparr>r_panes := delFirst (\<lambda>p. pn_uid p = uid) (r_panes r)\<rparr>);
           r2 = foldl (moveRefs uid) r1 [0..<length (r_windows r1)]
       in (r2\<lparr>r_agents := map (releasePaneRef uid) (r_agents r2)\<rparr>, True))"

definition VirtualWindowDeleteCascade :: "registry \<Rightarrow> kind \<Rightarrow> string \<Rightarrow> string" where
  "VirtualWindowDeleteCascade r k uid =
     (let target = (case k of
            KindPane \<Rightarrow> map_option (\<lambda>p. fst (paneWindowOwnerUID r p)) (lookupPane r uid)
          | KindAgent \<Rightarrow> map_option (\<lambda>a. OwnerUID (a_meta a)) (lookupAgent r uid)
          | _ \<Rightarrow> None)
      in case target of
           None \<Rightarrow> ''''
         | Some windowUID \<Rightarrow>
             if \<not> IsVirtualWindow r windowUID then ''''
             else let inside = filter (\<lambda>p. paneWindowOwnerUID r p = (windowUID, True)) (r_panes r);
                      hit = (\<lambda>p. (k = KindPane \<and> pn_uid p = uid) \<or> (k = KindAgent \<and> OwnerUID (pn_meta p) = uid))
               in if inside \<noteq> [] \<and> list_all hit inside then windowUID else '''')"

section \<open>Selection\<close>

definition eligibleIn :: "registry \<Rightarrow> string \<Rightarrow> pane \<Rightarrow> bool" where
  "eligibleIn r windowUID p \<longleftrightarrow> windowAnchorEligibility r windowUID p = AnchorEligible"

text \<open>The reference selection: the first eligible tmux Pane, else the first eligible Pane.\<close>

definition preferredAnchor :: "registry \<Rightarrow> string \<Rightarrow> pane option" where
  "preferredAnchor r windowUID =
     (case find (\<lambda>p. eligibleIn r windowUID p \<and> paneKind p = RuntimeTmux) (r_panes r) of
        Some p \<Rightarrow> Some p
      | None \<Rightarrow> find (eligibleIn r windowUID) (r_panes r))"

lemma anchorScan_find:
  assumes "\<forall>p \<in> set ps. pn_uid p \<noteq> ''''"
  shows "anchorScan r w ps acc =
    (case find (\<lambda>p. eligibleIn r w p \<and> paneKind p = RuntimeTmux) ps of
       Some p \<Rightarrow> pn_uid p
     | None \<Rightarrow> if acc \<noteq> '''' then acc
         else (case find (eligibleIn r w) ps of Some p \<Rightarrow> pn_uid p | None \<Rightarrow> ''''))"
  using assms by (induction ps arbitrary: acc) (auto simp: eligibleIn_def split: option.splits)

lemma firstWindowAnchor_preferred:
  assumes "\<forall>p \<in> set (r_panes r). pn_uid p \<noteq> ''''"
  shows "firstWindowAnchorPaneUID r w = (case preferredAnchor r w of Some p \<Rightarrow> pn_uid p | None \<Rightarrow> '''')"
  using anchorScan_find [OF assms, of r w "''''"] by (simp add: firstWindowAnchorPaneUID_def preferredAnchor_def split: option.splits)

lemma preferredAnchor_eligible:
  "preferredAnchor r w = Some p \<Longrightarrow> p \<in> set (r_panes r) \<and> eligibleIn r w p"
  by (auto simp: preferredAnchor_def dest: find_SomeD split: option.splits)

lemma preferredAnchor_None:
  "preferredAnchor r w = None \<longleftrightarrow> (\<forall>p \<in> set (r_panes r). \<not> eligibleIn r w p)"
  by (auto simp: preferredAnchor_def find_None_iff dest: find_SomeD split: option.splits)

text \<open>Eligibility reads the Agents and which Windows exist, nothing else.\<close>

lemma eligibility_cong:
  assumes "r_agents r' = r_agents r" and "map w_uid (r_windows r') = map w_uid (r_windows r)"
  shows "windowAnchorEligibility r' = windowAnchorEligibility r" "paneWindowOwnerUID r' = paneWindowOwnerUID r"
proof -
  have a: "lookupAgent r' = lookupAgent r" using assms(1) by (simp add: lookupAgent_def fun_eq_iff)
  have "w_uid ` set (r_windows r') = w_uid ` set (r_windows r)"
    using arg_cong [OF assms(2), of set] by simp
  then have w: "(lookupWindow r' u = None) = (lookupWindow r u = None)" for u by (simp only: lookup_None)
  show p: "paneWindowOwnerUID r' = paneWindowOwnerUID r"
    by (intro ext) (simp only: paneWindowOwnerUID_def a w)
  show "windowAnchorEligibility r' = windowAnchorEligibility r"
    by (intro ext) (simp only: windowAnchorEligibility_def a p)
qed

lemma selection_cong:
  assumes "r_agents r' = r_agents r" and "map w_uid (r_windows r') = map w_uid (r_windows r)"
    and "r_panes r' = r_panes r"
  shows "firstWindowAnchorPaneUID r' = firstWindowAnchorPaneUID r" "firstWindowShellPaneUID r' = firstWindowShellPaneUID r"
proof -
  have "anchorScan r' w ps acc = anchorScan r w ps acc" for w ps acc
    by (induction ps arbitrary: acc) (simp_all add: eligibility_cong [OF assms(1,2)])
  then show "firstWindowAnchorPaneUID r' = firstWindowAnchorPaneUID r"
    by (simp add: firstWindowAnchorPaneUID_def assms(3) fun_eq_iff)
  show "firstWindowShellPaneUID r' = firstWindowShellPaneUID r"
    by (simp add: firstWindowShellPaneUID_def assms(3) fun_eq_iff)
qed

section \<open>Removing a Pane\<close>

lemma updFirst_nth:
  "distinct (map k xs) \<Longrightarrow> j < length xs \<Longrightarrow> updFirst (\<lambda>x. k x = k (xs ! j)) f xs = xs[j := f (xs ! j)]"
proof (induction xs arbitrary: j)
  case (Cons x xs)
  show ?case
  proof (cases j)
    case (Suc i)
    then have "k x \<noteq> k (xs ! i)" using Cons.prems by force
    with Cons Suc show ?thesis by simp
  qed simp
qed simp

text \<open>What one anchor write does to the Window list.\<close>

definition anchored :: "string \<Rightarrow> window \<Rightarrow> window \<Rightarrow> bool" where
  "anchored a w w' \<longleftrightarrow> w_meta w' = w_meta w \<and> ws_anchor (w_spec w') = a
     \<and> ws_shell (w_spec w') \<in> {ws_shell (w_spec w), ''''}"

lemma setWindowAnchor_nth:
  assumes d: "distinct (map w_uid (r_windows r))" and j: "j < length (r_windows r)"
  obtains w' where "setWindowAnchor (w_uid (r_windows r ! j)) a r = r\<lparr>r_windows := (r_windows r)[j := w']\<rparr>"
    "anchored a (r_windows r ! j) w'"
proof -
  let ?w = "r_windows r ! j" and ?f = "\<lambda>w. w\<lparr>w_spec := (w_spec w)\<lparr>ws_anchor := a\<rparr>\<rparr>"
  have some: "lookupWindow r (w_uid ?w) \<noteq> None" using j by (auto simp: lookup_None)
  have u1: "updWindow (w_uid ?w) ?f r = r\<lparr>r_windows := (r_windows r)[j := ?f ?w]\<rparr>"
    using updFirst_nth [OF d j] by (simp add: updWindow_def)
  have d2: "distinct (map w_uid ((r_windows r)[j := ?f ?w]))"
    using d j by (simp add: map_update) (metis j length_map list_update_id nth_map)
  have u2: "updWindow (w_uid ?w) retireTmux (r\<lparr>r_windows := (r_windows r)[j := ?f ?w]\<rparr>)
      = r\<lparr>r_windows := (r_windows r)[j := retireTmux (?f ?w)]\<rparr>"
    using updFirst_nth [OF d2, of j retireTmux] j by (simp add: updWindow_def)
  show thesis
  proof (cases "IsVirtualWindow (updWindow (w_uid ?w) ?f r) (w_uid ?w)")
    case True
    show thesis
      by (rule that [of "retireTmux (?f ?w)"])
        (use some True u1 u2 in \<open>auto simp: setWindowAnchor_def Let_def anchored_def retireTmux_def split: option.splits\<close>)
  next
    case False
    show thesis
      by (rule that [of "?f ?w"])
        (use some False u1 in \<open>auto simp: setWindowAnchor_def Let_def anchored_def split: option.splits\<close>)
  qed
qed

text \<open>A Window after the loop: no reference to the removed Pane, and a moved one lands on the selection.\<close>

definition movedRefs :: "registry \<Rightarrow> string \<Rightarrow> window \<Rightarrow> window \<Rightarrow> bool" where
  "movedRefs r uid w w' \<longleftrightarrow> w_meta w' = w_meta w
     \<and> ws_anchor (w_spec w') = (if ws_anchor (w_spec w) = uid then firstWindowAnchorPaneUID r (w_uid w) else ws_anchor (w_spec w))
     \<and> ws_shell (w_spec w') \<in> {ws_shell (w_spec w), '''', firstWindowShellPaneUID r (w_uid w)}
     \<and> (ws_shell (w_spec w') = uid \<longrightarrow> uid = '''' \<or> firstWindowShellPaneUID r (w_uid w) = uid)"

lemma moveRefs_nth:
  assumes d: "distinct (map w_uid (r_windows r))" and j: "j < length (r_windows r)"
  obtains w' where "moveRefs uid r j = r\<lparr>r_windows := (r_windows r)[j := w']\<rparr>"
    "movedRefs r uid (r_windows r ! j) w'"
proof -
  let ?w = "r_windows r ! j"
  obtain w1 where w1: "(if ws_anchor (w_spec ?w) = uid
      then setWindowAnchor (w_uid ?w) (firstWindowAnchorPaneUID r (w_uid ?w)) r else r)
        = r\<lparr>r_windows := (r_windows r)[j := w1]\<rparr>"
    "w_meta w1 = w_meta ?w" "ws_shell (w_spec w1) \<in> {ws_shell (w_spec ?w), ''''}"
    "ws_anchor (w_spec w1) = (if ws_anchor (w_spec ?w) = uid then firstWindowAnchorPaneUID r (w_uid ?w) else ws_anchor (w_spec ?w))"
  proof (cases "ws_anchor (w_spec ?w) = uid")
    case True
    obtain w1 where "setWindowAnchor (w_uid ?w) (firstWindowAnchorPaneUID r (w_uid ?w)) r = r\<lparr>r_windows := (r_windows r)[j := w1]\<rparr>"
      "anchored (firstWindowAnchorPaneUID r (w_uid ?w)) ?w w1"
      by (rule setWindowAnchor_nth [OF d j])
    with True show thesis by (intro that [of w1]) (auto simp: anchored_def)
  next
    case False
    then show thesis by (intro that [of ?w]) auto
  qed
  let ?r1 = "r\<lparr>r_windows := (r_windows r)[j := w1]\<rparr>"
  have "map w_uid (r_windows ?r1) = map w_uid (r_windows r)"
    using w1(2) j by (simp add: map_update list_update_same_conv)
  then have sel: "firstWindowShellPaneUID ?r1 = firstWindowShellPaneUID r"
    by (intro selection_cong) simp_all
  show thesis
  proof (cases "ws_shell (w_spec w1) = uid")
    case True
    let ?w2 = "w1\<lparr>w_spec := (w_spec w1)\<lparr>ws_shell := firstWindowShellPaneUID r (w_uid ?w)\<rparr>\<rparr>"
    show thesis
      by (rule that [of ?w2])
        (use True w1 j sel in \<open>simp_all add: moveRefs_def Let_def movedRefs_def\<close>)
  next
    case False
    show thesis
      by (rule that [of w1]) (use False w1 j in \<open>auto simp: moveRefs_def Let_def movedRefs_def\<close>)
  qed
qed

lemma moveRefs_all:
  assumes d: "distinct (map w_uid (r_windows r))" and n: "n \<le> length (r_windows r)"
  shows "\<exists>ws. foldl (moveRefs uid) r [0..<n] = r\<lparr>r_windows := ws\<rparr> \<and> length ws = length (r_windows r)
    \<and> (\<forall>i < n. movedRefs r uid (r_windows r ! i) (ws ! i)) \<and> (\<forall>i. n \<le> i \<longrightarrow> ws ! i = r_windows r ! i)"
  using n
proof (induction n)
  case 0
  then show ?case by (intro exI [of _ "r_windows r"]) simp
next
  case (Suc n)
  then obtain ws where ws: "foldl (moveRefs uid) r [0..<n] = r\<lparr>r_windows := ws\<rparr>" "length ws = length (r_windows r)"
    "\<forall>i < n. movedRefs r uid (r_windows r ! i) (ws ! i)" "\<forall>i. n \<le> i \<longrightarrow> ws ! i = r_windows r ! i" by auto
  let ?q = "r\<lparr>r_windows := ws\<rparr>"
  have meta: "w_meta (ws ! i) = w_meta (r_windows r ! i)" for i
    using ws(3,4) by (cases "i < n") (auto simp: movedRefs_def)
  then have uids: "map w_uid ws = map w_uid (r_windows r)" using ws(2) by (simp add: list_eq_iff_nth_eq)
  have sel: "firstWindowAnchorPaneUID ?q = firstWindowAnchorPaneUID r" "firstWindowShellPaneUID ?q = firstWindowShellPaneUID r"
    using selection_cong [of ?q r] uids by simp_all
  have "distinct (map w_uid (r_windows ?q))" "n < length (r_windows ?q)" using d uids ws(2) Suc.prems by simp_all
  then obtain w' where w': "moveRefs uid ?q n = ?q\<lparr>r_windows := (r_windows ?q)[n := w']\<rparr>"
    "movedRefs ?q uid (r_windows ?q ! n) w'" by (rule moveRefs_nth)
  have m: "movedRefs r uid (r_windows r ! n) w'"
    using w'(2) ws(4) by (simp add: movedRefs_def sel)
  have fold: "foldl (moveRefs uid) r [0..<Suc n] = moveRefs uid ?q n" by (simp add: ws(1))
  have "\<forall>i < Suc n. movedRefs r uid (r_windows r ! i) (ws[n := w'] ! i)"
  proof (intro allI impI)
    fix i assume "i < Suc n"
    then show "movedRefs r uid (r_windows r ! i) (ws[n := w'] ! i)"
      using ws(2,3) m Suc.prems by (cases "i = n") simp_all
  qed
  with w'(1) ws(2,4) fold show ?case
    by (intro exI [of _ "ws[n := w']"]) simp
qed

text \<open>The whole removal, field by field.\<close>

lemma deletePane_view:
  assumes I: "identity r" and p: "lookupPane r uid \<noteq> None" and del: "deletePane uid r = (r', ok')"
  obtains rp ws where "ok'" "rp = r\<lparr>r_panes := filter (\<lambda>p. pn_uid p \<noteq> uid) (r_panes r)\<rparr>"
    "r' = releaseNames uid (r\<lparr>r_panes := filter (\<lambda>p. pn_uid p \<noteq> uid) (r_panes r), r_windows := ws,
       r_agents := map (releasePaneRef uid) (r_agents r)\<rparr>)"
    "list_all2 (movedRefs rp uid) (r_windows r) ws"
proof -
  have d: "distinct (map w_uid (r_windows r))" "distinct (map pn_uid (r_panes r))"
    using I by (auto simp: identity_def allUids_def)
  let ?p = "r\<lparr>r_panes := filter (\<lambda>p. pn_uid p \<noteq> uid) (r_panes r)\<rparr>"
  let ?r1 = "releaseNames uid ?p"
  have r1: "releaseNames uid (r\<lparr>r_panes := delFirst (\<lambda>p. pn_uid p = uid) (r_panes r)\<rparr>) = ?r1"
    using delFirst_filter [OF d(2)] by simp
  obtain ws where ws: "foldl (moveRefs uid) ?r1 [0..<length (r_windows ?r1)] = ?r1\<lparr>r_windows := ws\<rparr>"
    "length ws = length (r_windows ?r1)" "\<forall>i < length (r_windows ?r1). movedRefs ?r1 uid (r_windows ?r1 ! i) (ws ! i)"
    using moveRefs_all [of ?r1 "length (r_windows ?r1)" uid] d(1) by (auto simp: releaseNames_def)
  have sel: "firstWindowAnchorPaneUID ?r1 = firstWindowAnchorPaneUID ?p" "firstWindowShellPaneUID ?r1 = firstWindowShellPaneUID ?p"
    using selection_cong [of ?r1 ?p] by (simp_all add: releaseNames_def)
  have same: "movedRefs ?r1 = movedRefs ?p" by (intro ext) (simp only: movedRefs_def sel)
  have all: "list_all2 (movedRefs ?p uid) (r_windows r) ws"
    using ws(2,3) by (simp add: list_all2_conv_all_nth same) (simp add: releaseNames_def)
  obtain x where x: "lookupPane r uid = Some x" using p by auto
  have "(r', ok') = ((?r1\<lparr>r_windows := ws\<rparr>)\<lparr>r_agents := map (releasePaneRef uid) (r_agents (?r1\<lparr>r_windows := ws\<rparr>))\<rparr>, True)"
    using del by (simp only: deletePane_def x option.case Let_def r1 ws(1))
  then have "ok'" and res: "r' = (?r1\<lparr>r_windows := ws\<rparr>)\<lparr>r_agents := map (releasePaneRef uid) (r_agents r)\<rparr>"
    by (simp_all add: releaseNames_def)
  have "r' = releaseNames uid (r\<lparr>r_panes := filter (\<lambda>p. pn_uid p \<noteq> uid) (r_panes r), r_windows := ws,
       r_agents := map (releasePaneRef uid) (r_agents r)\<rparr>)"
    unfolding res by (simp add: releaseNames_def)
  from that [OF \<open>ok'\<close> refl this all] show thesis .
qed

text \<open>Removing one resource that owns nothing, with its reservations, keeps the identity invariant. Projects and
  ControlSessions are roots: their scope does not depend on an owner.\<close>

definition scoped :: "kind \<Rightarrow> bool" where
  "scoped k \<longleftrightarrow> k = KindWindow \<or> k = KindPane \<or> k = KindAgent"

lemma ownerOf_Some: "ownerOf r k v = Some o' \<Longrightarrow> \<exists>i \<in> set (idents r k). iuid i = v \<and> iowner i = o'"
  by (auto simp: ownerOf_def dest!: find_SomeD)

lemma find_filter_neq: "v \<noteq> u \<Longrightarrow> find (\<lambda>i. iuid i = v) (filter (\<lambda>i. iuid i \<noteq> u) xs) = find (\<lambda>i. iuid i = v) xs"
  by (induction xs) auto

lemma removal_scopes:
  assumes i': "idents r' = (idents r)(k := filter (\<lambda>i. iuid i \<noteq> u) (idents r k))"
    and free: "\<And>k' i. scoped k' \<Longrightarrow> i \<in> set (idents r k') \<Longrightarrow> iuid i \<noteq> u \<Longrightarrow> trimSpace (iowner i) \<noteq> u"
    and o': "scoped k' \<Longrightarrow> trimSpace o' \<noteq> u"
  shows "scopeFor r' k' o' = scopeFor r k' o'" and "scopeFor r k' o' = Inr s \<Longrightarrow> s = '''' \<or> s \<noteq> u"
proof -
  have at: "(v \<in> uidsAt r' kk) = (v \<in> uidsAt r kk)" if "v \<noteq> u" for v kk
    using that by (force simp: uidsAt_def i')
  have own: "ownerOf r' kk v = ownerOf r kk v" if "v \<noteq> u" for v kk
    using that by (simp add: ownerOf_def i' find_filter_neq)
  have up: "trimSpace x \<noteq> u" if "ownerOf r kk v = Some x" "scoped kk" "v \<noteq> u" for kk v x
    using ownerOf_Some [OF that(1)] free that(2,3) by blast
  note upW = up [of KindWindow, unfolded scoped_def, simplified]
    and upA = up [of KindAgent, unfolded scoped_def, simplified]
  have root: "rootScope r' x = rootScope r x" "rootScope r x = Inr s \<Longrightarrow> s \<noteq> u" if "trimSpace x \<noteq> u" for x s
    using that by (auto simp: rootScope_view at split: if_splits)
  have ag: "agentScope r' x = agentScope r x" "agentScope r x = Inr s \<Longrightarrow> s \<noteq> u" if "trimSpace x \<noteq> u" for x s
  proof -
    have "agentScope r' x = agentScope r x \<and> (agentScope r x = Inr s \<longrightarrow> s \<noteq> u)"
    proof (cases "ownerOf r KindWindow (trimSpace x)")
      case (Some w)
      with upW [OF Some that] root [of w] show ?thesis by (simp add: agentScope_view own that)
    qed (simp add: agentScope_view own that)
    then show "agentScope r' x = agentScope r x" "agentScope r x = Inr s \<Longrightarrow> s \<noteq> u" by blast+
  qed
  have pn: "paneScope r' x = paneScope r x" "paneScope r x = Inr s \<Longrightarrow> s \<noteq> u" if "trimSpace x \<noteq> u" for x s
  proof -
    have "paneScope r' x = paneScope r x \<and> (paneScope r x = Inr s \<longrightarrow> s \<noteq> u)"
    proof (cases "ownerOf r KindWindow (trimSpace x)")
      case (Some w)
      with upW [OF Some that] root [of w] show ?thesis by (simp add: paneScope_view own that)
    next
      case None
      show ?thesis
      proof (cases "ownerOf r KindAgent (trimSpace x)")
        case (Some a)
        with None upA [OF Some that] ag [of a] show ?thesis by (simp add: paneScope_view own that)
      qed (simp add: paneScope_view own that None)
    qed
    then show "paneScope r' x = paneScope r x" "paneScope r x = Inr s \<Longrightarrow> s \<noteq> u" by blast+
  qed
  show "scopeFor r' k' o' = scopeFor r k' o'"
    using o' root(1) [of o'] ag(1) [of o'] pn(1) [of o'] by (cases k') (simp_all add: scoped_def)
  show "scopeFor r k' o' = Inr s \<Longrightarrow> s = '''' \<or> s \<noteq> u"
    using o' root(2) [of o' s] ag(2) [of o' s] pn(2) [of o' s] by (cases k') (simp_all add: scoped_def)
qed

lemma removeResource_identity:
  assumes I: "identity r" and u: "u \<in> uidsAt r k"
    and i': "idents r' = (idents r)(k := filter (\<lambda>i. iuid i \<noteq> u) (idents r k))"
    and n': "r_names r' = releaseIn u (r_names r)"
    and free: "\<And>k' i. scoped k' \<Longrightarrow> i \<in> set (idents r k') \<Longrightarrow> iuid i \<noteq> u \<Longrightarrow> trimSpace (iowner i) \<noteq> u"
  shows "identity r'"
proof -
  have d: "distinct (allUids r)" and ne: "u \<noteq> ''''" and s: "slotsOk (r_names r)"
    and dn: "distinct (map nr_uid (r_names r))" and wf: "\<And>n. n \<in> set (r_names r) \<Longrightarrow> nr_uid n \<in> uidsAt r (nr_kind n)"
    using I u by (auto simp: identity_def set_allUids)
  note scopes = removal_scopes [OF i' free]
  have at: "uidsAt r' k' = uidsAt r k' - (if k' = k then {u} else {})" for k'
    by (auto simp: uidsAt_def i')
  have names: "r_names r' = filter (\<lambda>n. nr_uid n \<noteq> u) (r_names r)"
  proof -
    have "nr_scope n \<noteq> u" if n: "n \<in> set (r_names r)" "nr_uid n \<noteq> u" for n
    proof -
      from identity_names [OF I n(1)] obtain i where i: "i \<in> set (idents r (nr_kind n))" "nr_uid n = iuid i"
        "scopeFor r (nr_kind n) (iowner i) = Inr (nr_scope n)" by metis
      then show ?thesis using scopes(2) [OF _ _ _ free [OF _ i(1)] i(3)] n(2) ne by auto
    qed
    then show ?thesis using ne by (auto simp: n' releaseIn_def intro: filter_cong)
  qed
  have uids: "allUids r' = filter (\<lambda>x. x \<noteq> u) (allUids r)"
  proof -
    have other: "filter (\<lambda>x. x \<noteq> u) (map iuid (idents r k')) = map iuid (idents r k')" if "k' \<noteq> k" for k'
      using uidsAt_disjoint [OF d u, of k'] that by (intro filter_True) (auto simp: uidsAt_def)
    have "map iuid (idents r' k') = filter (\<lambda>x. x \<noteq> u) (map iuid (idents r k'))" for k'
    proof (cases "k' = k")
      case False
      then show ?thesis by (simp only: other [OF False] i' fun_upd_other [OF False])
    qed (simp add: i' filter_map comp_def del: idents.simps)
    then show ?thesis by (simp add: allUids_idents del: idents.simps)
  qed
  show ?thesis
    unfolding identity_def
  proof (intro conjI allI ballI)
    show "distinct (allUids r')" "'''' \<notin> set (allUids r')" using I by (simp_all add: uids identity_def)
    show "slotsOk (r_names r')" using s by (simp add: slotsOk_def names distinct_map_filter)
    show "distinct (map nr_uid (r_names r'))" using dn by (simp add: names distinct_map_filter)
    show "nr_uid n \<in> uidsAt r' (nr_kind n)" if "n \<in> set (r_names r')" for n
      using that wf by (auto simp: names at)
    fix k' i assume i: "i \<in> set (idents r' k')"
    then have old: "i \<in> set (idents r k')" by (auto simp: i' split: if_splits)
    have "iuid i \<noteq> u"
    proof (cases "k' = k")
      case False
      have "iuid i \<in> uidsAt r k'" using old by (simp add: uidsAt_def)
      with uidsAt_disjoint [OF d u] False show ?thesis by blast
    qed (use i in \<open>simp add: i'\<close>)
    moreover have "reservedAt r k' i" using I old by (simp add: identity_def)
    ultimately show "reservedAt r' k' i"
      using scopes(1) [OF _ _ _ free [OF _ old]] by (auto simp: reservedAt_def names split: sum.splits)
  qed
qed

text \<open>No scoped resource is owned by a Pane.\<close>

lemma paneOwns_nothing:
  assumes I: "identity r" and u: "u \<in> uidsAt r KindPane" and k: "scoped k" and i: "i \<in> set (idents r k)"
  shows "trimSpace (iowner i) \<noteq> u"
proof
  assume eq: "trimSpace (iowner i) = u"
  have d: "distinct (allUids r)" using I by (simp add: identity_def)
  then have no: "u \<notin> uidsAt r kk" if "kk \<noteq> KindPane" for kk using uidsAt_disjoint [OF d u] that by blast
  have "reservedAt r k i" using I i by (simp add: identity_def)
  then obtain s where "scopeFor r k (iowner i) = Inr s" by (auto simp: reservedAt_def split: sum.splits)
  then show False using eq no k
    by (auto simp: scoped_def rootScope_view agentScope_view paneScope_view ownerOf_None [THEN iffD2] split: if_splits)
qed

lemma deletePane_idents:
  assumes I: "identity r" and p: "lookupPane r uid \<noteq> None" and del: "deletePane uid r = (r', ok')"
  shows "idents r' = (idents r)(KindPane := filter (\<lambda>i. iuid i \<noteq> uid) (idents r KindPane))"
    and "r_names r' = releaseIn uid (r_names r)"
proof -
  obtain rp ws where v: "r' = releaseNames uid (r\<lparr>r_panes := filter (\<lambda>p. pn_uid p \<noteq> uid) (r_panes r), r_windows := ws,
       r_agents := map (releasePaneRef uid) (r_agents r)\<rparr>)" "list_all2 (movedRefs rp uid) (r_windows r) ws"
    using deletePane_view [OF I p del] by blast
  have "map (\<lambda>w. ident (w_meta w)) ws = map (\<lambda>w. ident (w_meta w)) (r_windows r)"
    using v(2) by (induction rule: list_all2_induct) (simp_all add: movedRefs_def)
  moreover have "map (\<lambda>a. ident (a_meta a)) (map (releasePaneRef uid) (r_agents r)) = map (\<lambda>a. ident (a_meta a)) (r_agents r)"
    by (simp add: releasePaneRef_def)
  moreover have "map (\<lambda>p. ident (pn_meta p)) (filter (\<lambda>p. pn_uid p \<noteq> uid) ps)
      = filter (\<lambda>i. iuid i \<noteq> uid) (map (\<lambda>p. ident (pn_meta p)) ps)" for ps
    by (simp add: filter_map comp_def)
  ultimately show "idents r' = (idents r)(KindPane := filter (\<lambda>i. iuid i \<noteq> uid) (idents r KindPane))"
    unfolding v(1) releaseNames_def by (simp add: fun_eq_iff)
  show "r_names r' = releaseIn uid (r_names r)" by (simp add: v(1) releaseNames_def)
qed

text \<open>The Agents afterwards: looked up the same way, with the removed Pane's reference cleared.\<close>

lemma find_releasePaneRef:
  "find (\<lambda>a. a_uid a = u) (map (releasePaneRef uid) as) = map_option (releasePaneRef uid) (find (\<lambda>a. a_uid a = u) as)"
  by (induction as) (auto simp: releasePaneRef_def)

text \<open>Eligibility of the Panes that stay does not notice the cleared references.\<close>

lemma eligibility_released:
  assumes "r_agents r' = map (releasePaneRef uid) (r_agents r)" and "map w_uid (r_windows r') = map w_uid (r_windows r)"
  shows "paneWindowOwnerUID r' p = paneWindowOwnerUID r p"
    and "pn_uid p \<noteq> uid \<Longrightarrow> pn_uid p \<noteq> '''' \<Longrightarrow> windowAnchorEligibility r' w p = windowAnchorEligibility r w p"
proof -
  have a: "lookupAgent r' u = map_option (releasePaneRef uid) (lookupAgent r u)" for u
    by (simp add: lookupAgent_def assms(1) find_releasePaneRef)
  have "w_uid ` set (r_windows r') = w_uid ` set (r_windows r)"
    using arg_cong [OF assms(2), of set] by simp
  then have w: "(lookupWindow r' u = None) = (lookupWindow r u = None)" for u by (simp only: lookup_None)
  have meta: "a_meta (releasePaneRef uid x) = a_meta x" for x by (simp add: releasePaneRef_def)
  show o': "paneWindowOwnerUID r' p = paneWindowOwnerUID r p"
  proof (cases "om_owner (pn_meta p)")
    case (Some ref)
    then show ?thesis
      by (cases "lookupAgent r (or_uid ref)") (simp_all add: paneWindowOwnerUID_def a w meta split: option.split)
  qed (simp add: paneWindowOwnerUID_def)
  show "windowAnchorEligibility r' w p = windowAnchorEligibility r w p" if "pn_uid p \<noteq> uid" "pn_uid p \<noteq> ''''"
  proof -
    have "(case lookupAgent r' (OwnerUID (pn_meta p)) of None \<Rightarrow> AnchorNotManagedAgentPane
        | Some a \<Rightarrow> if ast_pane (a_status a) \<noteq> pn_uid p then AnchorNotManagedAgentPane else AnchorEligible)
      = (case lookupAgent r (OwnerUID (pn_meta p)) of None \<Rightarrow> AnchorNotManagedAgentPane
        | Some a \<Rightarrow> if ast_pane (a_status a) \<noteq> pn_uid p then AnchorNotManagedAgentPane else AnchorEligible)"
      using that by (cases "lookupAgent r (OwnerUID (pn_meta p))") (auto simp: a releasePaneRef_def)
    then show ?thesis by (simp only: windowAnchorEligibility_def o')
  qed
qed

lemma anchorScan_cong:
  "(\<And>p. p \<in> set ps \<Longrightarrow> windowAnchorEligibility r' w p = windowAnchorEligibility r w p)
    \<Longrightarrow> anchorScan r' w ps acc = anchorScan r w ps acc"
  by (induction ps arbitrary: acc) simp_all

lemma scan_in_panes: "firstWindowAnchorPaneUID r w = '''' \<or> firstWindowAnchorPaneUID r w \<in> pn_uid ` set (r_panes r)"
proof -
  have "anchorScan r w ps acc = acc \<or> anchorScan r w ps acc \<in> pn_uid ` set ps" for ps acc
    by (induction ps arbitrary: acc) auto
  then show ?thesis by (simp add: firstWindowAnchorPaneUID_def)
qed

lemma shell_in_panes: "firstWindowShellPaneUID r w = '''' \<or> firstWindowShellPaneUID r w \<in> pn_uid ` set (r_panes r)"
  by (auto simp: firstWindowShellPaneUID_def dest: find_SomeD split: option.splits)

lemma identity_nonempty_panes:
  assumes "identity r" and "p \<in> set (r_panes r)"
  shows "pn_uid p \<noteq> ''''"
proof -
  have "pn_uid p \<in> set (allUids r)" using assms(2) by (auto simp: allUids_def)
  with assms(1) show ?thesis by (auto simp: identity_def)
qed

text \<open>No reference to a Pane is left.\<close>

definition refersToPane :: "string \<Rightarrow> registry \<Rightarrow> bool" where
  "refersToPane uid r \<longleftrightarrow> (\<exists>p \<in> set (r_panes r). pn_uid p = uid)
     \<or> (\<exists>w \<in> set (r_windows r). ws_anchor (w_spec w) = uid \<or> ws_shell (w_spec w) = uid)
     \<or> (\<exists>a \<in> set (r_agents r). ast_pane (a_status a) = uid)
     \<or> (\<exists>n \<in> set (r_names r). nr_uid n = uid)"

lemma deletePane_outcome:
  assumes I: "identity r" and p: "lookupPane r uid \<noteq> None" and del: "deletePane uid r = (r', ok')"
  shows "identity r'" and "\<not> refersToPane uid r'"
    and "list_all2 (\<lambda>w w'. w_meta w' = w_meta w \<and> ws_anchor (w_spec w') =
        (if ws_anchor (w_spec w) = uid then firstWindowAnchorPaneUID r' (w_uid w) else ws_anchor (w_spec w)))
      (r_windows r) (r_windows r')"
proof -
  obtain rp ws where v: "rp = r\<lparr>r_panes := filter (\<lambda>p. pn_uid p \<noteq> uid) (r_panes r)\<rparr>"
    "r' = releaseNames uid (r\<lparr>r_panes := filter (\<lambda>p. pn_uid p \<noteq> uid) (r_panes r), r_windows := ws,
       r_agents := map (releasePaneRef uid) (r_agents r)\<rparr>)" "list_all2 (movedRefs rp uid) (r_windows r) ws"
    using deletePane_view [OF I p del] by blast
  have u: "uid \<in> uidsAt r KindPane" using p by (auto simp: uidsAt_simps lookup_None)
  then have ne: "uid \<noteq> ''''" using I by (auto simp: identity_def set_allUids)
  show "identity r'"
    by (rule removeResource_identity [OF I u deletePane_idents [OF I p del]]) (rule paneOwns_nothing [OF I u])
  have agents: "r_agents r' = map (releasePaneRef uid) (r_agents rp)"
    and panes: "r_panes r' = r_panes rp" and wins: "r_windows r' = ws"
    and names: "r_names r' = releaseIn uid (r_names r)" by (simp_all add: v releaseNames_def)
  have "map w_uid ws = map w_uid (r_windows r)"
    using v(3) by (induction rule: list_all2_induct) (simp_all add: movedRefs_def)
  then have wuids: "map w_uid (r_windows r') = map w_uid (r_windows rp)" by (simp add: v(1) wins)
  have sel: "firstWindowAnchorPaneUID r' w = firstWindowAnchorPaneUID rp w" for w
    unfolding firstWindowAnchorPaneUID_def panes
    by (rule anchorScan_cong, rule eligibility_released(2) [OF agents wuids])
      (use identity_nonempty_panes [OF I] in \<open>auto simp: v(1)\<close>)
  have out: "firstWindowAnchorPaneUID rp w \<noteq> uid" "firstWindowShellPaneUID rp w \<noteq> uid" for w
    using scan_in_panes [of rp w] shell_in_panes [of rp w] ne by (auto simp: v(1))
  show "list_all2 (\<lambda>w w'. w_meta w' = w_meta w \<and> ws_anchor (w_spec w') =
        (if ws_anchor (w_spec w) = uid then firstWindowAnchorPaneUID r' (w_uid w) else ws_anchor (w_spec w)))
      (r_windows r) (r_windows r')"
    using v(3) unfolding wins by (rule list_all2_mono) (simp add: movedRefs_def sel)
  have "list_all (\<lambda>w'. ws_anchor (w_spec w') \<noteq> uid \<and> ws_shell (w_spec w') \<noteq> uid) ws"
    using v(3) by (induction rule: list_all2_induct) (auto simp: movedRefs_def out ne)
  then show "\<not> refersToPane uid r'"
    using ne by (auto simp: refersToPane_def wins list_all_iff panes v(1) agents names releaseIn_def releasePaneRef_def)
qed

section \<open>Setting an anchor\<close>

lemma sameIdents_setWindowAnchor: "sameIdents r (setWindowAnchor w p r)"
proof (cases "lookupWindow r w")
  case (Some x)
  let ?f = "\<lambda>w. w\<lparr>w_spec := (w_spec w)\<lparr>ws_anchor := p\<rparr>\<rparr>"
  have "sameIdents r (updWindow w ?f r)" "sameIdents (updWindow w ?f r) (updWindow w retireTmux (updWindow w ?f r))"
    by (rule sameIdents_upd; simp add: retireTmux_def)+
  then show ?thesis using Some by (simp add: setWindowAnchor_def Let_def sameIdents_def)
qed (simp add: setWindowAnchor_def sameIdents_def)

lemma keeps_setWindowAnchor: "keeps idOK (SetWindowAnchor m w p)"
  unfolding SetWindowAnchor_def by (intro preserve sameIdents_setWindowAnchor)

lemma setWindowAnchor_result:
  assumes "lookupWindow r w = Some x"
  obtains y where "lookupWindow (setWindowAnchor w p r) w = Some y" "ws_anchor (w_spec y) = p" "w_uid y = w"
    "r_agents (setWindowAnchor w p r) = r_agents r" "r_panes (setWindowAnchor w p r) = r_panes r"
    "map w_uid (r_windows (setWindowAnchor w p r)) = map w_uid (r_windows r)"
proof -
  have keep: "map w_uid (updFirst P f ws) = map w_uid ws" if "\<And>v. w_uid (f v) = w_uid v" for P f ws
    using that by (induction ws) simp_all
  have found: "find (\<lambda>v. w_uid v = w) (updFirst (\<lambda>v. w_uid v = w) f ws) = map_option f (find (\<lambda>v. w_uid v = w) ws)"
    if "\<And>v. w_uid (f v) = w_uid v" for f ws using that by (induction ws) simp_all
  let ?f = "\<lambda>v. v\<lparr>w_spec := (w_spec v)\<lparr>ws_anchor := p\<rparr>\<rparr>"
  have u: "w_uid x = w" using assms by (auto simp: lookupWindow_def dest: find_SomeD)
  have one: "lookupWindow (updWindow w ?f r) w = Some (?f x)"
    using assms found [of ?f] by (simp add: lookupWindow_def updWindow_def)
  have two: "lookupWindow (updWindow w retireTmux (updWindow w ?f r)) w = Some (retireTmux (?f x))"
    using one found [of retireTmux] by (simp add: lookupWindow_def updWindow_def retireTmux_def)
  show thesis
  proof (cases "IsVirtualWindow (updWindow w ?f r) w")
    case True
    show thesis
      by (rule that [of "retireTmux (?f x)"])
        (use assms True two u in \<open>simp_all add: setWindowAnchor_def Let_def updWindow_def keep retireTmux_def\<close>)
  next
    case False
    show thesis
      by (rule that [of "?f x"]) (use assms False one u in \<open>simp_all add: setWindowAnchor_def Let_def updWindow_def keep\<close>)
  qed
qed

section \<open>Properties\<close>


definition twoShells :: registry where
  "twoShells = ms_reg (snd (AddPane (demoMutator 9) ''uu'' demoPane ''op'' demoRegistered))"

lemma twoShells_identity: "identity twoShells"
  using keeps_addPane [of "demoMutator 9" "''uu''" demoPane "''op''"] demoRegistered_identity
  by (auto simp: keeps_def idOK_def twoShells_def)


text \<open>C31: The scan that picks a Window's next anchor implements the documented preference in one pass: the
  first eligible tmux Pane in Registry order, otherwise the first eligible Pane of any kind, otherwise none;
  and the answer is always an eligible Pane of the Registry or empty.\<close>

theorem anchor_scan_is_the_preference:
  assumes "identity r"
  shows "firstWindowAnchorPaneUID r w = (case preferredAnchor r w of Some p \<Rightarrow> pn_uid p | None \<Rightarrow> '''')
    \<and> (firstWindowAnchorPaneUID r w = '''' \<longleftrightarrow> (\<forall>p \<in> set (r_panes r). \<not> eligibleIn r w p))"
proof -
  have ne: "\<forall>p \<in> set (r_panes r). pn_uid p \<noteq> ''''" using identity_nonempty_panes [OF assms] by blast
  show ?thesis
    using firstWindowAnchor_preferred [OF ne, of w] preferredAnchor_None [of r w] preferredAnchor_eligible [of r w] ne
    by (auto split: option.splits)
qed

theorem anchor_scan_is_the_preference_witness:
  "firstWindowAnchorPaneUID twoShells ''uu'' = ''uuu'' \<and> map_option pn_uid (preferredAnchor twoShells ''uu'') = Some ''uuu''"
proof
  show p: "map_option pn_uid (preferredAnchor twoShells ''uu'') = Some ''uuu''" by code_simp
  with anchor_scan_is_the_preference [OF twoShells_identity, of "''uu''"]
  show "firstWindowAnchorPaneUID twoShells ''uu'' = ''uuu''" by (auto split: option.splits)
qed

text \<open>C32: \<open>SetWindowAnchor\<close> fails exactly when the Window is unknown or the Pane is not eligible for it, and a
  failure changes nothing; a success stores that Pane as the Window's anchor, returns that Window, and the
  Pane is still eligible afterwards.\<close>

theorem set_window_anchor_is_guarded:
  "case SetWindowAnchor m w p s of
     (Inl e, s') \<Rightarrow> ms_reg s' = ms_reg s
       \<and> \<not> (lookupWindow (ms_reg s) w \<noteq> None \<and> windowAnchorRefEligible (ms_reg s) w p)
   | (Inr x, s') \<Rightarrow> lookupWindow (ms_reg s) w \<noteq> None \<and> windowAnchorRefEligible (ms_reg s) w p
       \<and> lookupWindow (ms_reg s') w = Some x \<and> ws_anchor (w_spec x) = p \<and> windowAnchorRefEligible (ms_reg s') w p"
proof (cases "lookupWindow (ms_reg s) w = None \<or> \<not> windowAnchorRefEligible (ms_reg s) w p")
  case True
  then show ?thesis by (auto simp: SetWindowAnchor_def andThen_def getReg_def throw_def split: option.splits)
next
  case False
  let ?r = "setWindowAnchor w p (ms_reg s)"
  from False obtain x where "lookupWindow (ms_reg s) w = Some x" by auto
  then obtain y where y: "lookupWindow ?r w = Some y" "ws_anchor (w_spec y) = p"
    "r_agents ?r = r_agents (ms_reg s)" "r_panes ?r = r_panes (ms_reg s)"
    "map w_uid (r_windows ?r) = map w_uid (r_windows (ms_reg s))" by (rule setWindowAnchor_result)
  have el: "windowAnchorRefEligible (?r\<lparr>r_updated := t\<rparr>) w p" for t
  proof -
    have "windowAnchorEligibility (?r\<lparr>r_updated := t\<rparr>) = windowAnchorEligibility (ms_reg s)"
      by (rule eligibility_cong) (simp_all add: y)
    moreover have "lookupPane (?r\<lparr>r_updated := t\<rparr>) p = lookupPane (ms_reg s) p" by (simp add: lookupPane_def y)
    ultimately show ?thesis using False by (simp add: windowAnchorRefEligible_def split: option.splits)
  qed
  obtain t wd where "Now m (ms_world s) = (t, wd)" by fastforce
  then have "SetWindowAnchor m w p s = (Inr y, s\<lparr>ms_reg := ?r\<lparr>r_updated := t\<rparr>, ms_world := wd\<rparr>)"
    using False y(1) by (auto simp: SetWindowAnchor_def andThen_def getReg_def modReg_def stamp_def clock_def
        theWindow_def lookupWindow_def return_def split: option.splits)
  then show ?thesis using el y(1,2) False by (simp add: lookupWindow_def)
qed

end
