(* ===== verification/Adoption.thy ===== *)
theory Adoption
  imports Anchors
begin

text \<open>
  Which Registry object a live tmux object is the runtime of: the runtime observation of \<^verbatim>\<open>model.go\<close> and the
  binding matcher of \<^verbatim>\<open>adoption.go\<close>. A matcher lives for one reconciliation pass and pairs a uid at most once.
  A \<open>map[string]bool\<close> used as a set is a set of uids; a nil matcher or Registry is not represented.
\<close>

section \<open>What a pass observed\<close>

record runtime_observation =
  ro_process :: "string set"
  ro_windows :: "string set"
  ro_panes :: "string set"
  ro_sessions :: "string set"
  ro_sessions_observed :: bool
  ro_unobserved :: "string set"

definition BoundWindow :: "runtime_observation \<Rightarrow> string \<Rightarrow> bool" where
  "BoundWindow o' uid \<longleftrightarrow> uid \<in> ro_windows o'"

definition BoundPane :: "runtime_observation \<Rightarrow> string \<Rightarrow> bool" where
  "BoundPane o' uid \<longleftrightarrow> uid \<in> ro_panes o'"

definition BoundSession :: "runtime_observation \<Rightarrow> string \<Rightarrow> bool \<times> bool" where
  "BoundSession o' uid = (uid \<in> ro_sessions o', ro_sessions_observed o')"

definition IsUnobserved :: "runtime_observation \<Rightarrow> string \<Rightarrow> bool" where
  "IsUnobserved o' uid \<longleftrightarrow> uid \<in> ro_unobserved o'"

section \<open>The matcher\<close>

datatype adoption_match =
    AdoptionRebind string | AdoptionAdopt string | AdoptionUnmatched | AdoptionForeign | AdoptionRefused

definition Matched :: "adoption_match \<Rightarrow> bool" where
  "Matched a \<longleftrightarrow> (case a of AdoptionRebind _ \<Rightarrow> True | AdoptionAdopt _ \<Rightarrow> True | _ \<Rightarrow> False)"

record matcher =
  bm_runtime :: runtime_observation
  bm_claimed :: "string set"
  bm_foreign :: bool
  bm_unattributed :: bool

definition DeletedPaneMirrorPrefix :: string where
  "DeletedPaneMirrorPrefix = ''deleted:''"

definition NewBindingMatcher :: "runtime_observation \<Rightarrow> matcher" where
  "NewBindingMatcher o' = \<lparr>bm_runtime = o', bm_claimed = {}, bm_foreign = False, bm_unattributed = False\<rparr>"

definition NewRepairBindingMatcher :: "runtime_observation \<Rightarrow> matcher" where
  "NewRepairBindingMatcher o' = \<lparr>bm_runtime = o', bm_claimed = {}, bm_foreign = True, bm_unattributed = False\<rparr>"

definition NewApprovedOrphanBindingMatcher :: "runtime_observation \<Rightarrow> matcher" where
  "NewApprovedOrphanBindingMatcher o' = \<lparr>bm_runtime = o', bm_claimed = {}, bm_foreign = False, bm_unattributed = True\<rparr>"

definition Claim :: "string \<Rightarrow> matcher \<Rightarrow> matcher" where
  "Claim uid b = (let u = trimSpace uid in if u = '''' then b else b\<lparr>bm_claimed := insert u (bm_claimed b)\<rparr>)"

definition Claimed :: "matcher \<Rightarrow> string \<Rightarrow> bool" where
  "Claimed b uid \<longleftrightarrow> trimSpace uid \<in> bm_claimed b"

definition bindMatch ::
  "matcher \<Rightarrow> string \<Rightarrow> (string \<Rightarrow> bool) \<Rightarrow> (string \<Rightarrow> bool) \<Rightarrow> string list \<Rightarrow> string set \<Rightarrow> adoption_match \<times> matcher" where
  "bindMatch b observedUID known ownedByScope candidates boundElsewhere =
     (let observed = trimSpace observedUID; claim = (\<lambda>u. b\<lparr>bm_claimed := insert u (bm_claimed b)\<rparr>) in
      if observed = '''' \<and> bm_unattributed b then (AdoptionRefused, b)
      else if observed \<noteq> '''' then
        (if \<not> known observed then (if bm_foreign b then AdoptionRefused else AdoptionForeign, b)
         else if \<not> ownedByScope observed \<or> observed \<in> bm_claimed b then (AdoptionRefused, b)
         else (AdoptionRebind observed, claim observed))
      else (case find (\<lambda>u. u \<notin> bm_claimed b \<and> u \<notin> boundElsewhere) candidates of
          Some u \<Rightarrow> (AdoptionAdopt u, claim u)
        | None \<Rightarrow> (AdoptionUnmatched, b)))"

definition windowCandidates :: "registry \<Rightarrow> string \<Rightarrow> string list" where
  "windowCandidates r projectUID = filter (\<lambda>u. \<not> IsVirtualWindow r u) (map w_uid (WindowsOf r projectUID))"

definition MatchWindow :: "matcher \<Rightarrow> registry \<Rightarrow> string \<Rightarrow> string \<Rightarrow> adoption_match \<times> matcher" where
  "MatchWindow b r projectUID observedUID =
     (if trimSpace projectUID = '''' then (AdoptionRefused, b)
      else bindMatch b observedUID (\<lambda>u. lookupWindow r u \<noteq> None)
        (\<lambda>u. map_option (\<lambda>w. OwnerUID (w_meta w)) (lookupWindow r u) = Some projectUID)
        (windowCandidates r projectUID) (ro_windows (bm_runtime b)))"

definition paneUIDsInWindowOrder :: "registry \<Rightarrow> string \<Rightarrow> string list" where
  "paneUIDsInWindowOrder r windowUID =
     (let owners = windowUID # map a_uid (filter (\<lambda>a. OwnerUID (a_meta a) = windowUID) (r_agents r))
      in map pn_uid (filter (\<lambda>p. OwnerUID (pn_meta p) \<in> set owners) (r_panes r)))"

definition MatchPane :: "matcher \<Rightarrow> registry \<Rightarrow> string \<Rightarrow> string \<Rightarrow> adoption_match \<times> matcher" where
  "MatchPane b r windowUID observedUID =
     (if trimSpace windowUID = '''' then (AdoptionRefused, b)
      else if take (length DeletedPaneMirrorPrefix) (trimSpace observedUID) = DeletedPaneMirrorPrefix then (AdoptionRefused, b)
      else (let owned = paneUIDsInWindowOrder r windowUID in
        bindMatch b observedUID (\<lambda>u. lookupPane r u \<noteq> None) (\<lambda>u. u \<in> set owned) owned (ro_panes (bm_runtime b))))"

section \<open>A pass\<close>

text \<open>
  A pass is a sequence of calls on one matcher. The Registry is an argument of each: the import path mints objects
  between two of them and claims what it minted.
\<close>

datatype pass_call = WindowCall registry string string | PaneCall registry string string | ClaimCall string

fun passStep :: "pass_call \<Rightarrow> matcher \<Rightarrow> adoption_match option \<times> matcher" where
  "passStep (WindowCall r scope observed) b = (case MatchWindow b r scope observed of (a, b') \<Rightarrow> (Some a, b'))"
| "passStep (PaneCall r scope observed) b = (case MatchPane b r scope observed of (a, b') \<Rightarrow> (Some a, b'))"
| "passStep (ClaimCall u) b = (None, Claim u b)"

fun passOutcomes :: "pass_call list \<Rightarrow> matcher \<Rightarrow> adoption_match option list" where
  "passOutcomes [] b = []"
| "passOutcomes (c # cs) b = (case passStep c b of (a, b') \<Rightarrow> a # passOutcomes cs b')"

fun pairedUID :: "adoption_match option \<Rightarrow> string option" where
  "pairedUID (Some (AdoptionRebind u)) = Some u"
| "pairedUID (Some (AdoptionAdopt u)) = Some u"
| "pairedUID _ = None"

definition pairedUIDs :: "adoption_match option list \<Rightarrow> string list" where
  "pairedUIDs outs = List.map_filter pairedUID outs"

text \<open>What an outcome promises of the call it answers, on the matcher it was given.\<close>

fun inScope :: "pass_call \<Rightarrow> string \<Rightarrow> bool" where
  "inScope (WindowCall r scope observed) u \<longleftrightarrow> (\<exists>w \<in> set (r_windows r). w_uid w = u \<and> OwnerUID (w_meta w) = scope)"
| "inScope (PaneCall r scope observed) u \<longleftrightarrow> u \<in> set (paneUIDsInWindowOrder r scope)"
| "inScope (ClaimCall v) u \<longleftrightarrow> False"

fun observedBy :: "pass_call \<Rightarrow> string" where
  "observedBy (WindowCall r scope observed) = trimSpace observed"
| "observedBy (PaneCall r scope observed) = trimSpace observed"
| "observedBy (ClaimCall v) = ''''"

fun liveElsewhere :: "runtime_observation \<Rightarrow> pass_call \<Rightarrow> string \<Rightarrow> bool" where
  "liveElsewhere o' (WindowCall r scope observed) u \<longleftrightarrow> BoundWindow o' u"
| "liveElsewhere o' (PaneCall r scope observed) u \<longleftrightarrow> BoundPane o' u"
| "liveElsewhere o' (ClaimCall v) u \<longleftrightarrow> False"

fun honours :: "runtime_observation \<Rightarrow> pass_call \<Rightarrow> adoption_match option \<Rightarrow> bool" where
  "honours o' c (Some (AdoptionRebind u)) \<longleftrightarrow> inScope c u \<and> observedBy c = u"
| "honours o' c (Some (AdoptionAdopt u)) \<longleftrightarrow> inScope c u \<and> observedBy c = '''' \<and> \<not> liveElsewhere o' c u"
| "honours o' c _ \<longleftrightarrow> True"

lemma bindMatch_outcome:
  assumes "bindMatch b observed known owned cs live = (a, b')"
  shows "bm_runtime b' = bm_runtime b \<and> bm_claimed b \<subseteq> bm_claimed b'"
    and "pairedUID (Some a) = Some u \<Longrightarrow> u \<notin> bm_claimed b \<and> u \<in> bm_claimed b'"
    and "a = AdoptionRebind u \<Longrightarrow> owned u \<and> trimSpace observed = u"
    and "a = AdoptionAdopt u \<Longrightarrow> u \<in> set cs \<and> trimSpace observed = '''' \<and> u \<notin> live"
proof -
  show "bm_runtime b' = bm_runtime b \<and> bm_claimed b \<subseteq> bm_claimed b'"
    using assms by (auto simp: bindMatch_def Let_def split: if_splits option.splits)
  show "pairedUID (Some a) = Some u \<Longrightarrow> u \<notin> bm_claimed b \<and> u \<in> bm_claimed b'"
    using assms by (auto simp: bindMatch_def Let_def split: if_splits option.splits dest!: find_SomeD)
  show "a = AdoptionRebind u \<Longrightarrow> owned u \<and> trimSpace observed = u"
    using assms by (auto simp: bindMatch_def Let_def split: if_splits option.splits)
  show "a = AdoptionAdopt u \<Longrightarrow> u \<in> set cs \<and> trimSpace observed = '''' \<and> u \<notin> live"
    using assms by (auto simp: bindMatch_def Let_def split: if_splits option.splits dest!: find_SomeD)
qed

lemma window_scope:
  "map_option (\<lambda>w. OwnerUID (w_meta w)) (lookupWindow r u) = Some p \<Longrightarrow> \<exists>w \<in> set (r_windows r). w_uid w = u \<and> OwnerUID (w_meta w) = p"
  using lookup_Some(3) by fastforce

lemma windowCandidates_scope:
  "u \<in> set (windowCandidates r p) \<Longrightarrow> \<exists>w \<in> set (r_windows r). w_uid w = u \<and> OwnerUID (w_meta w) = p"
  by (auto simp: windowCandidates_def WindowsOf_def)

text \<open>One call: it pairs a uid that was free, within its scope, and claims it, or it changes nothing but what a
  \<open>Claim\<close> adds.\<close>

lemma passStep_outcome:
  assumes "passStep c b = (out, b')"
  shows "honours (bm_runtime b) c out \<and> bm_runtime b' = bm_runtime b \<and> bm_claimed b \<subseteq> bm_claimed b'
    \<and> (\<forall>u. pairedUID out = Some u \<longrightarrow> u \<notin> bm_claimed b \<and> u \<in> bm_claimed b')"
proof (cases c)
  case (ClaimCall v)
  with assms show ?thesis by (auto simp: Claim_def Let_def)
next
  case (WindowCall r scope observed)
  with assms obtain a where out: "out = Some a" and m: "MatchWindow b r scope observed = (a, b')" by (auto split: prod.splits)
  show ?thesis
  proof (cases "trimSpace scope = ''''")
    case False
    with m have "bindMatch b observed (\<lambda>u. lookupWindow r u \<noteq> None)
        (\<lambda>u. map_option (\<lambda>w. OwnerUID (w_meta w)) (lookupWindow r u) = Some scope)
        (windowCandidates r scope) (ro_windows (bm_runtime b)) = (a, b')" by (simp add: MatchWindow_def)
    note o = bindMatch_outcome [OF this]
    have "honours (bm_runtime b) c out"
      using o(3,4) window_scope windowCandidates_scope by (cases a) (simp_all add: out WindowCall BoundWindow_def)
    then show ?thesis using o(1,2) by (simp add: out)
  qed (use m in \<open>auto simp: MatchWindow_def out\<close>)
next
  case (PaneCall r scope observed)
  with assms obtain a where out: "out = Some a" and m: "MatchPane b r scope observed = (a, b')" by (auto split: prod.splits)
  show ?thesis
  proof (cases "trimSpace scope = '''' \<or> take (length DeletedPaneMirrorPrefix) (trimSpace observed) = DeletedPaneMirrorPrefix")
    case False
    with m have "bindMatch b observed (\<lambda>u. lookupPane r u \<noteq> None) (\<lambda>u. u \<in> set (paneUIDsInWindowOrder r scope))
        (paneUIDsInWindowOrder r scope) (ro_panes (bm_runtime b)) = (a, b')" by (auto simp: MatchPane_def Let_def)
    note o = bindMatch_outcome [OF this]
    have "honours (bm_runtime b) c out"
      using o(3,4) by (cases a) (simp_all add: out PaneCall BoundPane_def)
    then show ?thesis using o(1,2) by (simp add: out)
  qed (use m in \<open>auto simp: MatchPane_def out split: if_splits\<close>)
qed

lemma pairedUIDs_simps [simp]:
  "pairedUIDs [] = []"
  "pairedUIDs (x # xs) = (case pairedUID x of None \<Rightarrow> pairedUIDs xs | Some u \<Rightarrow> u # pairedUIDs xs)"
  unfolding pairedUIDs_def by (simp_all add: List.map_filter_simps)

lemma pairedUIDs_fresh: "u \<in> set (pairedUIDs (passOutcomes cs b)) \<Longrightarrow> u \<notin> bm_claimed b"
proof (induction cs arbitrary: b)
  case (Cons c cs)
  obtain a b' where s: "passStep c b = (a, b')" by fastforce
  from passStep_outcome [OF s] Cons show ?case by (auto simp: s split: option.splits)
qed simp

text \<open>one Registry object is the runtime of at most one live tmux object. Over a whole reconciliation pass, on
  any matcher, whatever Registries the calls read and however Windows, Panes and claims are interleaved, no uid is
  paired twice, no uid that was already claimed is paired, and every answer is honest: a rebound uid is the one the
  live object carries, an adopted one belongs to the scope of the call, was mirrored by no live object before the
  pass, and went to an object that carried no uid.\<close>

theorem each_uid_is_paired_once:
  shows "distinct (pairedUIDs (passOutcomes cs b)) \<and> set (pairedUIDs (passOutcomes cs b)) \<inter> bm_claimed b = {}
    \<and> list_all2 (honours (bm_runtime b)) cs (passOutcomes cs b)"
proof (induction cs arbitrary: b)
  case (Cons c cs)
  obtain a b' where s: "passStep c b = (a, b')" by fastforce
  note o1 = passStep_outcome [OF s]
  have rt: "bm_runtime b' = bm_runtime b" using o1 by simp
  have "u \<notin> set (pairedUIDs (passOutcomes cs b'))" if "pairedUID a = Some u" for u
    using pairedUIDs_fresh o1 that by blast
  then show ?case using Cons.IH [of b'] o1 by (auto simp: s rt split: option.splits)
qed simp
end
