(* ===== verification/Termination.thy ===== *)
theory Termination
  imports Anchors
begin

text \<open>
  Termination evidence: \<^verbatim>\<open>internal/core/metadata/termination.go\<close> and the receipt predicates of
  \<^verbatim>\<open>process_runtime.go\<close> and \<^verbatim>\<open>process_host_lost_offline.go\<close>. A receipt says why a managed process stopped;
  \<open>RecordTermination\<close> applies it under the activation generation guard. The diagnostic of a refused receipt
  is its class, not its text.
\<close>

section \<open>The closed vocabularies\<close>

definition ValidTerminationSource :: "termination_source \<Rightarrow> bool" where
  "ValidTerminationSource s \<longleftrightarrow>
     s \<in> {TerminationSourceSupervisor, TerminationSourceControlAction, TerminationSourceReconcile}"

definition ValidTerminationClassification :: "termination_class \<Rightarrow> bool" where
  "ValidTerminationClassification c \<longleftrightarrow> c \<in> {TerminationIntentional, TerminationInterrupted, TerminationNormal,
     TerminationKilled, TerminationAbnormal, TerminationUnknown}"

definition validTerminationPairing :: "termination_source \<Rightarrow> termination_class \<Rightarrow> bool" where
  "validTerminationPairing s c = (case s of
     TerminationSourceControlAction \<Rightarrow> c = TerminationIntentional \<or> c = TerminationInterrupted
   | TerminationSourceSupervisor \<Rightarrow> c = TerminationNormal \<or> c = TerminationAbnormal \<or> c = TerminationKilled
   | TerminationSourceReconcile \<Rightarrow> c = TerminationUnknown
   | _ \<Rightarrow> False)"

text \<open>\<open>strings.EqualFold(strings.TrimSpace(signal), "HUP")\<close>: no letter of HUP folds to a non-ASCII rune.\<close>

definition upperByte :: "char \<Rightarrow> char" where
  "upperByte c = (if 97 \<le> byte c \<and> byte c \<le> 122 then char_of (byte c - 32) else c)"

definition isHangup :: "string \<Rightarrow> bool" where
  "isHangup signal \<longleftrightarrow> map upperByte (trimSpace signal) = ''HUP''"

definition validTerminationEvidenceShape :: "termination_record \<Rightarrow> bool" where
  "validTerminationEvidenceShape r \<longleftrightarrow> t_class r = TerminationKilled \<longrightarrow>
     t_source r = TerminationSourceSupervisor \<and> t_exit r = None \<and> isHangup (t_signal r)"

definition ClassifyProcessExit :: "int \<Rightarrow> string \<Rightarrow> termination_class" where
  "ClassifyProcessExit exitCode signal =
     (if isHangup signal then TerminationKilled
      else if trimSpace signal \<noteq> '''' then TerminationAbnormal
      else if exitCode = 0 then TerminationNormal
      else TerminationAbnormal)"

text \<open>\<open>sameEvidence\<close> on two pointers: everything but the observation time.\<close>

definition sameEvidence :: "termination_record option \<Rightarrow> termination_record option \<Rightarrow> bool" where
  "sameEvidence a b = (case (a, b) of
     (None, None) \<Rightarrow> True
   | (Some x, Some y) \<Rightarrow> t_source x = t_source y \<and> t_class x = t_class y \<and> t_pane x = t_pane y
       \<and> t_agent x = t_agent y \<and> t_generation x = t_generation y \<and> t_signal x = t_signal y
       \<and> t_operation x = t_operation y \<and> t_exit x = t_exit y
   | _ \<Rightarrow> False)"

section \<open>Process Wait receipts\<close>

definition validProcessWaitStatus :: "termination_record \<Rightarrow> bool" where
  "validProcessWaitStatus r = (case t_exit r of
     Some code \<Rightarrow>
       if code < 0 \<or> code > 255 \<or> t_signal r \<noteq> '''' then False
       else validTerminationEvidenceShape r
         \<and> (t_class r = TerminationNormal \<or> t_class r = ClassifyProcessExit code (t_signal r))
   | None \<Rightarrow>
       if t_signal r = '''' then False
       else validTerminationEvidenceShape r
         \<and> (t_class r = TerminationNormal \<or> t_class r = ClassifyProcessExit 0 (t_signal r)))"

definition MatchesProcessWait :: "process_binding \<Rightarrow> termination_record option \<Rightarrow> bool" where
  "MatchesProcessWait b receipt = (case receipt of
     None \<Rightarrow> False
   | Some r \<Rightarrow>
       if t_source r \<noteq> TerminationSourceSupervisor \<or> timeIsZero (t_observed r) then False
       else if t_pane r \<noteq> pb_pane b \<or> t_agent r \<noteq> pb_agent b \<or> t_generation r \<noteq> pb_generation b
         \<or> t_operation r \<noteq> pb_operation b then False
       else validProcessWaitStatus r)"

definition SameProcessWait :: "termination_record option \<Rightarrow> termination_record option \<Rightarrow> bool" where
  "SameProcessWait a b = (case (a, b) of
     (Some x, Some y) \<Rightarrow> sameEvidence a b \<and> t_observed x = t_observed y | _ \<Rightarrow> False)"

definition MatchesProcessHostLostRetirement :: "process_binding \<Rightarrow> termination_record option \<Rightarrow> bool" where
  "MatchesProcessHostLostRetirement b receipt = (case receipt of
     None \<Rightarrow> False
   | Some r \<Rightarrow> t_source r = TerminationSourceReconcile \<and> t_class r = TerminationUnknown
       \<and> \<not> timeIsZero (t_observed r) \<and> t_exit r = None \<and> t_signal r = ''''
       \<and> t_pane r = pb_pane b \<and> t_agent r = pb_agent b \<and> t_generation r = pb_generation b
       \<and> t_operation r = pb_operation b)"

section \<open>Issuing a generation\<close>

record activation_options =
  ao_generation :: string
  ao_runtime :: string
  ao_agent :: string
  ao_operation :: string

definition startActivation :: "activation_options \<Rightarrow> time \<Rightarrow> pane \<Rightarrow> pane" where
  "startActivation opts now p = p\<lparr>pn_status := (pn_status p)
     \<lparr>pnst_activation := \<lparr>act_kind = RuntimeUnset, act_process = None,
        act_generation = trimSpace (ao_generation opts), act_runtime = trimSpace (ao_runtime opts),
        act_agent = trimSpace (ao_agent opts), act_operation = trimSpace (ao_operation opts),
        act_started = now, act_codex = None, act_claude = None\<rparr>,
      pnst_termination := None, pnst_teardown := None\<rparr>\<rparr>"

definition clearAgentTermination :: "agent \<Rightarrow> agent" where
  "clearAgentTermination a = a\<lparr>a_status := (a_status a)\<lparr>ast_termination := None\<rparr>\<rparr>"

definition RecordPaneActivation ::
  "'w mutator \<Rightarrow> string \<Rightarrow> activation_options \<Rightarrow> ('w mstate, pane) comp" where
  "RecordPaneActivation m paneUID opts =
     (let op = ''record pane activation''; agentUID = trimSpace (ao_agent opts) in
      if trimSpace (ao_generation opts) = '''' then throw (inputErr op ErrInvalidRegistry)
      else andThen getReg (\<lambda>reg.
        if lookupPane reg paneUID = None then throw (stateErr op ErrNotFound)
        else if agentUID \<noteq> '''' \<and> lookupAgent reg agentUID = None then throw (stateErr op ErrNotFound)
        else andThen (clock m) (\<lambda>now.
          andThen (modReg (\<lambda>r.
            (if agentUID \<noteq> '''' then updAgent agentUID clearAgentTermination else (\<lambda>x. x))
              (updPane paneUID (startActivation opts now) r)))
          (\<lambda>_. andThen (modReg (\<lambda>r. r\<lparr>r_updated := now\<rparr>)) (\<lambda>_. thePane paneUID)))))"

section \<open>Offering a receipt\<close>

datatype refusal =
    NoRefusal | UnknownPane | ReplacedGeneration | NotOwningAgent | UnknownAgent | UnboundAgent
  | RecordedVerbatim | RecordedInterrupted | RecordedIntentional

record termination_outcome =
  to_applied :: bool
  to_duplicate :: bool
  to_stale :: bool
  to_reason :: refusal

definition staleTermination :: "refusal \<Rightarrow> termination_outcome" where
  "staleTermination why = \<lparr>to_applied = False, to_duplicate = False, to_stale = True, to_reason = why\<rparr>"

definition duplicateTermination :: "refusal \<Rightarrow> termination_outcome" where
  "duplicateTermination why = \<lparr>to_applied = False, to_duplicate = True, to_stale = False, to_reason = why\<rparr>"

definition appliedTermination :: termination_outcome where
  "appliedTermination = \<lparr>to_applied = True, to_duplicate = False, to_stale = False, to_reason = NoRefusal\<rparr>"

definition receiptCheck :: "termination_record \<Rightarrow> check" where
  "receiptCheck rc = (let bad = inputErr ''record termination'' ErrInvalidRegistry in allChecks
     [guardErr (\<not> ValidTerminationSource (t_source rc)) bad,
      guardErr (\<not> ValidTerminationClassification (t_class rc)) bad,
      guardErr (\<not> validTerminationPairing (t_source rc) (t_class rc)) bad,
      guardErr (\<not> validTerminationEvidenceShape rc) bad,
      guardErr (trimSpace (t_pane rc) = '''') bad])"

definition trimReceipt :: "termination_record \<Rightarrow> termination_record" where
  "trimReceipt rc = rc\<lparr>t_pane := trimSpace (t_pane rc), t_agent := trimSpace (t_agent rc),
     t_generation := trimSpace (t_generation rc), t_signal := trimSpace (t_signal rc),
     t_operation := trimSpace (t_operation rc)\<rparr>"

text \<open>The evidence an absence pass left on a Pane or an Agent for this receipt's materialization.\<close>

definition projectedUnknown :: "termination_record \<Rightarrow> termination_record option \<Rightarrow> bool" where
  "projectedUnknown rc stored = (case stored of
     None \<Rightarrow> False
   | Some t \<Rightarrow> t_source t = TerminationSourceReconcile \<and> t_class t = TerminationUnknown
       \<and> t_pane t = t_pane rc \<and> t_agent t = t_agent rc \<and> t_generation t = t_generation rc)"

definition mayRefineProjectedUnknown :: "pane \<Rightarrow> agent \<Rightarrow> termination_record \<Rightarrow> bool" where
  "mayRefineProjectedUnknown p a rc =
     (if t_source rc \<noteq> TerminationSourceSupervisor \<or> ast_pane (a_status a) \<noteq> '''' then False
      else projectedUnknown rc (pnst_termination (pn_status p)) \<and> projectedUnknown rc (ast_termination (a_status a)))"

text \<open>The guards on the Agent a receipt names; \<open>None\<close> admits it.\<close>

definition agentRefusal :: "registry \<Rightarrow> pane \<Rightarrow> termination_record \<Rightarrow> refusal option" where
  "agentRefusal reg p rc =
     (if t_agent rc = '''' then None
      else if om_owner (pn_meta p) \<noteq> Some \<lparr>or_kind = KindAgent, or_uid = t_agent rc\<rparr> then Some NotOwningAgent
      else (case lookupAgent reg (t_agent rc) of
          None \<Rightarrow> Some UnknownAgent
        | Some a \<Rightarrow>
            if ast_pane (a_status a) \<noteq> t_pane rc \<and> \<not> mayRefineProjectedUnknown p a rc then Some UnboundAgent
            else None))"

text \<open>The stored receipt that makes an offered one a duplicate.\<close>

definition storedRefusal :: "termination_record option \<Rightarrow> termination_record \<Rightarrow> refusal option" where
  "storedRefusal stored rc = (case stored of
     None \<Rightarrow> None
   | Some t \<Rightarrow>
       if sameEvidence stored (Some rc) then Some RecordedVerbatim
       else if t_source t = TerminationSourceControlAction \<and> t_class t = TerminationInterrupted
       then Some RecordedInterrupted
       else if t_source t = TerminationSourceControlAction \<and> t_class t = TerminationIntentional
         \<and> t_class rc \<noteq> TerminationIntentional then Some RecordedIntentional
       else None)"

definition terminationRefusal :: "registry \<Rightarrow> termination_record \<Rightarrow> termination_outcome option" where
  "terminationRefusal reg rc = (case lookupPane reg (t_pane rc) of
     None \<Rightarrow> Some (staleTermination UnknownPane)
   | Some p \<Rightarrow>
       if act_generation (pnst_activation (pn_status p)) \<noteq> t_generation rc
       then Some (staleTermination ReplacedGeneration)
       else (case agentRefusal reg p rc of
           Some why \<Rightarrow> Some (staleTermination why)
         | None \<Rightarrow> map_option duplicateTermination (storedRefusal (pnst_termination (pn_status p)) rc)))"

definition clearClaudeRegistration :: "pane \<Rightarrow> pane" where
  "clearClaudeRegistration p = p\<lparr>pn_status := (pn_status p)\<lparr>pnst_activation := (pnst_activation (pn_status p))
     \<lparr>act_claude := map_option (\<lambda>c. c\<lparr>cb_registration := None, cb_generation := '''', cb_session := ''''\<rparr>)
        (act_claude (pnst_activation (pn_status p)))\<rparr>\<rparr>\<rparr>"

text \<open>The rows the store writes.\<close>

definition paneStored :: "termination_record \<Rightarrow> pane \<Rightarrow> pane" where
  "paneStored rc p = clearClaudeRegistration (p\<lparr>pn_status := (pn_status p)\<lparr>pnst_termination := Some rc\<rparr>\<rparr>)"

definition agentStored :: "termination_record \<Rightarrow> agent \<Rightarrow> agent" where
  "agentStored rc a = a\<lparr>a_status := (a_status a)\<lparr>ast_termination := Some rc\<rparr>\<rparr>"

definition storeTermination :: "termination_record \<Rightarrow> registry \<Rightarrow> registry" where
  "storeTermination rc r =
     (if t_agent rc = '''' then (\<lambda>x. x) else updAgent (t_agent rc) (agentStored rc))
     (updPane (t_pane rc) (paneStored rc) r)"

definition stampReceipt :: "time \<Rightarrow> termination_record \<Rightarrow> termination_record" where
  "stampReceipt now rc = (if timeIsZero (t_observed rc) then rc\<lparr>t_observed := now\<rparr> else rc)"

definition RecordTermination ::
  "'w mutator \<Rightarrow> termination_record \<Rightarrow> ('w mstate, termination_outcome) comp" where
  "RecordTermination m receipt =
     andThen (liftE (receiptCheck receipt)) (\<lambda>_. andThen getReg (\<lambda>reg.
       let rc = trimReceipt receipt in
       case terminationRefusal reg rc of
         Some out \<Rightarrow> return out
       | None \<Rightarrow> andThen (clock m) (\<lambda>now.
           andThen (modReg (\<lambda>r. (storeTermination (stampReceipt now rc) r)\<lparr>r_updated := now\<rparr>))
             (\<lambda>_. return appliedTermination))))"

section \<open>Observing a runtime handle, and compensation\<close>

definition ObservePaneActivationRuntime ::
  "'w mutator \<Rightarrow> string \<Rightarrow> string \<Rightarrow> string \<Rightarrow> ('w mstate, bool) comp" where
  "ObservePaneActivationRuntime m paneUID generation runtimeID =
     andThen getReg (\<lambda>reg. case lookupPane reg paneUID of
       None \<Rightarrow> throw (stateErr ''observe pane activation runtime'' ErrNotFound)
     | Some p \<Rightarrow>
         if trimSpace generation = '''' \<or> act_generation (pnst_activation (pn_status p)) \<noteq> trimSpace generation
         then return False
         else if act_runtime (pnst_activation (pn_status p)) = trimSpace runtimeID then return False
         else andThen (modReg (updPane paneUID (\<lambda>q. q\<lparr>pn_status := (pn_status q)
                \<lparr>pnst_activation := (pnst_activation (pn_status q))\<lparr>act_runtime := trimSpace runtimeID\<rparr>\<rparr>\<rparr>)))
           (\<lambda>_. andThen (stamp m) (\<lambda>_. return True)))"

text \<open>\<open>stored != nil && stored.OperationID == operationID\<close>.\<close>

definition writtenBy :: "string \<Rightarrow> termination_record option \<Rightarrow> bool" where
  "writtenBy operation stored = (case stored of None \<Rightarrow> False | Some t \<Rightarrow> t_operation t = operation)"

definition clearPaneTermination :: "pane \<Rightarrow> pane" where
  "clearPaneTermination p = p\<lparr>pn_status := (pn_status p)\<lparr>pnst_termination := None\<rparr>\<rparr>"

definition ClearTermination :: "'w mutator \<Rightarrow> string \<Rightarrow> string \<Rightarrow> ('w mstate, bool) comp" where
  "ClearTermination m paneUID operationID =
     (let operation = trimSpace operationID in
      if operation = '''' then throw (inputErr ''clear termination'' ErrInvalidRegistry)
      else andThen getReg (\<lambda>reg. case lookupPane reg paneUID of
        None \<Rightarrow> return False
      | Some p \<Rightarrow>
          let fromPane = writtenBy operation (pnst_termination (pn_status p));
              fromAgent = (case om_owner (pn_meta p) of
                None \<Rightarrow> False
              | Some owner \<Rightarrow> or_kind owner = KindAgent \<and> (case lookupAgent reg (or_uid owner) of
                  None \<Rightarrow> False | Some a \<Rightarrow> writtenBy operation (ast_termination (a_status a))))
          in andThen (modReg (\<lambda>r.
               (if fromAgent then updAgent (OwnerUID (pn_meta p)) clearAgentTermination else (\<lambda>x. x))
                 ((if fromPane then updPane paneUID clearPaneTermination else (\<lambda>x. x)) r)))
             (\<lambda>_. if fromPane \<or> fromAgent then andThen (stamp m) (\<lambda>_. return True) else return False)))"

section \<open>One offer\<close>

text \<open>Every run of \<open>RecordTermination\<close>: refused with nothing changed, or admitted by every guard.\<close>

lemma RecordTermination_run:
  obtains (bad) e where "RecordTermination m receipt s = (Inl e, s)" "receiptCheck receipt = Inl e"
  | (refused) out where "RecordTermination m receipt s = (Inr out, s)"
      "receiptCheck receipt = ok" "terminationRefusal (ms_reg s) (trimReceipt receipt) = Some out"
  | (applied) now w where "receiptCheck receipt = ok" "terminationRefusal (ms_reg s) (trimReceipt receipt) = None"
      "RecordTermination m receipt s = (Inr appliedTermination, s\<lparr>ms_reg :=
         (storeTermination (stampReceipt now (trimReceipt receipt)) (ms_reg s))\<lparr>r_updated := now\<rparr>, ms_world := w\<rparr>)"
proof (cases "receiptCheck receipt")
  case (Inl e)
  then show thesis by (intro bad) (simp_all add: RecordTermination_def andThen_def liftE_def throw_def)
next
  case (Inr x)
  then have okc: "receiptCheck receipt = ok" by (simp add: ok_def)
  show thesis
  proof (cases "terminationRefusal (ms_reg s) (trimReceipt receipt)")
    case None
    obtain now w where "Now m (ms_world s) = (now, w)" by fastforce
    with Inr None show thesis
      by (intro applied [OF okc None, where now = now and w = w])
        (simp add: RecordTermination_def andThen_def liftE_def return_def getReg_def modReg_def clock_def Let_def)
  next
    case (Some out)
    with Inr show thesis
      by (intro refused [OF _ okc Some])
        (simp add: RecordTermination_def andThen_def liftE_def return_def getReg_def Let_def)
  qed
qed

lemma refused_not_applied: "terminationRefusal r rc = Some out \<Longrightarrow> out \<noteq> appliedTermination"
  by (auto simp: terminationRefusal_def staleTermination_def duplicateTermination_def appliedTermination_def
      split: option.splits if_splits)

lemma trimReceipt_simps [simp]:
  "t_source (trimReceipt rc) = t_source rc" "t_class (trimReceipt rc) = t_class rc"
  "t_exit (trimReceipt rc) = t_exit rc" "t_observed (trimReceipt rc) = t_observed rc"
  "t_pane (trimReceipt rc) = trimSpace (t_pane rc)" "t_agent (trimReceipt rc) = trimSpace (t_agent rc)"
  "t_generation (trimReceipt rc) = trimSpace (t_generation rc)"
  "t_operation (trimReceipt rc) = trimSpace (t_operation rc)"
  by (simp_all add: trimReceipt_def)

lemma stampReceipt_simps [simp]:
  "t_source (stampReceipt now rc) = t_source rc" "t_class (stampReceipt now rc) = t_class rc"
  "t_exit (stampReceipt now rc) = t_exit rc" "t_pane (stampReceipt now rc) = t_pane rc"
  "t_agent (stampReceipt now rc) = t_agent rc" "t_generation (stampReceipt now rc) = t_generation rc"
  "t_operation (stampReceipt now rc) = t_operation rc" "t_signal (stampReceipt now rc) = t_signal rc"
  by (simp_all add: stampReceipt_def)

lemma sameEvidence_stamp [simp]: "sameEvidence (Some (stampReceipt now rc)) (Some rc)"
  by (simp add: sameEvidence_def)

lemma paneStored_simps [simp]:
  "pn_meta (paneStored rc p) = pn_meta p" "pnst_termination (pn_status (paneStored rc p)) = Some rc"
  "act_generation (pnst_activation (pn_status (paneStored rc p))) = act_generation (pnst_activation (pn_status p))"
  by (simp_all add: paneStored_def clearClaudeRegistration_def)

lemma agentStored_simps [simp]:
  "a_meta (agentStored rc a) = a_meta a" "ast_termination (a_status (agentStored rc a)) = Some rc"
  "ast_pane (a_status (agentStored rc a)) = ast_pane (a_status a)"
  "ast_phase (a_status (agentStored rc a)) = ast_phase (a_status a)"
  by (simp_all add: agentStored_def)

lemma storeTermination_lookup:
  "lookupPane (storeTermination rc r) u = (if u = t_pane rc then map_option (paneStored rc) (lookupPane r u) else lookupPane r u)"
  "lookupAgent (storeTermination rc r) u =
     (if t_agent rc \<noteq> '''' \<and> u = t_agent rc then map_option (agentStored rc) (lookupAgent r u) else lookupAgent r u)"
proof -
  have p: "find (\<lambda>p. pn_uid p = u) (updFirst (\<lambda>p. pn_uid p = v) (paneStored rc) ps)
      = (if u = v then map_option (paneStored rc) (find (\<lambda>p. pn_uid p = u) ps) else find (\<lambda>p. pn_uid p = u) ps)" for u v ps
    by (induction ps) auto
  have a: "find (\<lambda>x. a_uid x = u) (updFirst (\<lambda>x. a_uid x = v) (agentStored rc) xs)
      = (if u = v then map_option (agentStored rc) (find (\<lambda>x. a_uid x = u) xs) else find (\<lambda>x. a_uid x = u) xs)" for u v xs
    by (induction xs) auto
  show "lookupPane (storeTermination rc r) u = (if u = t_pane rc then map_option (paneStored rc) (lookupPane r u) else lookupPane r u)"
    by (simp add: storeTermination_def lookupPane_def updPane_def updAgent_def p)
  show "lookupAgent (storeTermination rc r) u =
     (if t_agent rc \<noteq> '''' \<and> u = t_agent rc then map_option (agentStored rc) (lookupAgent r u) else lookupAgent r u)"
    by (simp add: storeTermination_def lookupAgent_def updPane_def updAgent_def a)
qed

lemma lookup_updated [simp]:
  "lookupPane (r\<lparr>r_updated := t\<rparr>) u = lookupPane r u" "lookupAgent (r\<lparr>r_updated := t\<rparr>) u = lookupAgent r u"
  by (simp_all add: lookup_defs)

text \<open>Admission, read off the guards.\<close>

lemma terminationRefusal_None:
  assumes "terminationRefusal r rc = None"
  obtains p where "lookupPane r (t_pane rc) = Some p" "act_generation (pnst_activation (pn_status p)) = t_generation rc"
    "agentRefusal r p rc = None" "storedRefusal (pnst_termination (pn_status p)) rc = None"
  using assms by (auto simp: terminationRefusal_def split: option.splits if_splits)

lemma agentRefusal_None:
  assumes "agentRefusal r p rc = None" and "t_agent rc \<noteq> ''''"
  obtains a where "lookupAgent r (t_agent rc) = Some a" "om_owner (pn_meta p) = Some \<lparr>or_kind = KindAgent, or_uid = t_agent rc\<rparr>"
    "ast_pane (a_status a) = t_pane rc \<or> mayRefineProjectedUnknown p a rc"
  using assms by (auto simp: agentRefusal_def split: option.splits if_splits)

text \<open>What one offer does to the evidence of one Pane.\<close>

definition evidenceAt :: "registry \<Rightarrow> string \<Rightarrow> termination_record option" where
  "evidenceAt r u = (case lookupPane r u of None \<Rightarrow> None | Some p \<Rightarrow> pnst_termination (pn_status p))"

definition generationAt :: "registry \<Rightarrow> string \<Rightarrow> string option" where
  "generationAt r u = map_option (\<lambda>p. act_generation (pnst_activation (pn_status p))) (lookupPane r u)"

lemma offer_generation: "generationAt (ms_reg (snd (RecordTermination m receipt s))) u = generationAt (ms_reg s) u"
  by (rule RecordTermination_run [of m receipt s])
    (auto simp: generationAt_def storeTermination_lookup option.map_comp comp_def)

lemma offer_evidence:
  obtains (same) "evidenceAt (ms_reg (snd (RecordTermination m receipt s))) u = evidenceAt (ms_reg s) u"
  | (stored) now where "u = trimSpace (t_pane receipt)" "receiptCheck receipt = ok"
      "evidenceAt (ms_reg (snd (RecordTermination m receipt s))) u = Some (stampReceipt now (trimReceipt receipt))"
      "storedRefusal (evidenceAt (ms_reg s) u) (trimReceipt receipt) = None"
proof (rule RecordTermination_run [of m receipt s])
  fix now w
  assume c: "receiptCheck receipt = ok" and adm: "terminationRefusal (ms_reg s) (trimReceipt receipt) = None"
    and run: "RecordTermination m receipt s = (Inr appliedTermination, s\<lparr>ms_reg :=
         (storeTermination (stampReceipt now (trimReceipt receipt)) (ms_reg s))\<lparr>r_updated := now\<rparr>, ms_world := w\<rparr>)"
  obtain p where p: "lookupPane (ms_reg s) (trimSpace (t_pane receipt)) = Some p"
    "storedRefusal (pnst_termination (pn_status p)) (trimReceipt receipt) = None"
    using terminationRefusal_None [OF adm] by auto
  show thesis
  proof (cases "u = trimSpace (t_pane receipt)")
    case True
    then show thesis using p c run by (intro stored [of now]) (simp_all add: evidenceAt_def storeTermination_lookup)
  next
    case False
    then show thesis using run by (intro same) (simp add: evidenceAt_def storeTermination_lookup)
  qed
qed (auto intro: same)

section \<open>Sequences of offers\<close>

definition offerAll :: "'w mutator \<Rightarrow> termination_record list \<Rightarrow> 'w mstate \<Rightarrow> 'w mstate" where
  "offerAll m rcs s = foldl (\<lambda>t rc. snd (RecordTermination m rc t)) s rcs"

text \<open>Recorded intent: an interruption keeps its receipt, an intended deletion its kind.\<close>

definition intentHeld :: "termination_record \<Rightarrow> termination_record option \<Rightarrow> bool" where
  "intentHeld t stored = (case stored of
     None \<Rightarrow> False
   | Some t' \<Rightarrow> t_source t' = TerminationSourceControlAction \<and> t_class t' = t_class t
       \<and> (t_class t = TerminationInterrupted \<longrightarrow> t' = t))"

lemma offer_keeps_intent:
  assumes "intentHeld t (evidenceAt (ms_reg s) u)" and "t_class t \<in> {TerminationIntentional, TerminationInterrupted}"
  shows "intentHeld t (evidenceAt (ms_reg (snd (RecordTermination m receipt s))) u)"
proof (rule offer_evidence [of m receipt s u])
  fix now
  assume st: "evidenceAt (ms_reg (snd (RecordTermination m receipt s))) u = Some (stampReceipt now (trimReceipt receipt))"
    and adm: "storedRefusal (evidenceAt (ms_reg s) u) (trimReceipt receipt) = None" and c: "receiptCheck receipt = ok"
  obtain t' where t': "evidenceAt (ms_reg s) u = Some t'" "t_source t' = TerminationSourceControlAction"
    "t_class t' = t_class t" using assms(1) by (auto simp: intentHeld_def split: option.splits)
  then have "t_class t = TerminationIntentional" "t_class receipt = TerminationIntentional"
    using adm assms(2) by (auto simp: storedRefusal_def split: if_splits)
  moreover from this c have "t_source receipt = TerminationSourceControlAction"
    by (auto simp: receiptCheck_def allChecks_ok validTerminationPairing_def Let_def split: termination_source.splits)
  ultimately show ?thesis by (simp add: st intentHeld_def)
qed (simp add: assms)

lemma offerAll_keeps_intent:
  "intentHeld t (evidenceAt (ms_reg s) u) \<Longrightarrow> t_class t \<in> {TerminationIntentional, TerminationInterrupted}
    \<Longrightarrow> intentHeld t (evidenceAt (ms_reg (offerAll m rcs s)) u)"
  by (induction rcs arbitrary: s) (simp_all add: offerAll_def offer_keeps_intent)

lemma offerAll_generation: "generationAt (ms_reg (offerAll m rcs s)) u = generationAt (ms_reg s) u"
  by (induction rcs arbitrary: s) (simp_all add: offerAll_def offer_generation)

section \<open>Compensation\<close>


lemma updFirst_found_rel:
  assumes "find P xs = Some x0" and "Q x0"
  shows "list_all2 (\<lambda>x y. y = x \<or> (P x \<and> Q x \<and> y = f x)) xs (updFirst P f xs)"
  using assms by (induction xs) (auto intro: list_all2_refl split: if_splits)

lemma ClearTermination_run:
  assumes "ClearTermination m u opid s = (res, s')"
  shows "\<exists>ps as t. ms_reg s' = (ms_reg s)\<lparr>r_panes := ps, r_agents := as, r_updated := t\<rparr>
    \<and> list_all2 (\<lambda>p p'. p' = p \<or> (pn_uid p = u \<and> writtenBy (trimSpace opid) (pnst_termination (pn_status p))
         \<and> p' = clearPaneTermination p)) (r_panes (ms_reg s)) ps
    \<and> list_all2 (\<lambda>a a'. a' = a \<or> (writtenBy (trimSpace opid) (ast_termination (a_status a))
         \<and> a' = clearAgentTermination a)) (r_agents (ms_reg s)) as" (is "?goal s'")
proof -
  let ?r = "ms_reg s" and ?o = "trimSpace opid"
  have refl: "?goal t" if "ms_reg t = ?r" for t
    using that by (intro exI [of _ "r_panes ?r"] exI [of _ "r_agents ?r"] exI [of _ "r_updated ?r"])
      (simp add: list_all2_refl)
  show ?thesis
  proof (cases "?o = '''' \<or> lookupPane ?r u = None")
    case True
    then have "s' = s" using assms
      by (auto simp: ClearTermination_def Let_def throw_def andThen_def getReg_def return_def split: if_splits)
    then have "ms_reg s' = ?r" by simp
    from refl [OF this] show ?thesis .
  next
    case False
    then obtain p where p: "lookupPane ?r u = Some p" by auto
    define fp where "fp = writtenBy ?o (pnst_termination (pn_status p))"
    define fa where "fa = (case om_owner (pn_meta p) of None \<Rightarrow> False
      | Some owner \<Rightarrow> or_kind owner = KindAgent \<and> (case lookupAgent ?r (or_uid owner) of
          None \<Rightarrow> False | Some a \<Rightarrow> writtenBy ?o (ast_termination (a_status a))))"
    define ps where "ps = (if fp then updFirst (\<lambda>q. pn_uid q = u) clearPaneTermination (r_panes ?r) else r_panes ?r)"
    define as where "as = (if fa then updFirst (\<lambda>a. a_uid a = OwnerUID (pn_meta p)) clearAgentTermination (r_agents ?r) else r_agents ?r)"
    have panes: "list_all2 (\<lambda>p p'. p' = p \<or> (pn_uid p = u \<and> writtenBy ?o (pnst_termination (pn_status p))
         \<and> p' = clearPaneTermination p)) (r_panes ?r) ps"
      using updFirst_found_rel [of "\<lambda>q. pn_uid q = u" "r_panes ?r" p "\<lambda>q. writtenBy ?o (pnst_termination (pn_status q))"] p
      by (auto simp: ps_def fp_def lookupPane_def intro: list_all2_refl)
    have agents: "list_all2 (\<lambda>a a'. a' = a \<or> (writtenBy ?o (ast_termination (a_status a))
         \<and> a' = clearAgentTermination a)) (r_agents ?r) as"
    proof (cases fa)
      case True
      then obtain a where "find (\<lambda>a. a_uid a = OwnerUID (pn_meta p)) (r_agents ?r) = Some a"
        "writtenBy ?o (ast_termination (a_status a))"
        by (auto simp: fa_def lookupAgent_def OwnerUID_def split: option.splits)
      from updFirst_found_rel [where Q = "\<lambda>a. writtenBy ?o (ast_termination (a_status a))", OF this, of clearAgentTermination]
      show ?thesis using True by (auto simp: as_def elim: list_all2_mono)
    qed (simp add: as_def list_all2_refl)
    obtain now w where now: "Now m (ms_world s) = (now, w)" by fastforce
    note ds = ClearTermination_def andThen_def getReg_def modReg_def stamp_def clock_def return_def updPane_def updAgent_def
    have "ms_reg s' = ?r\<lparr>r_panes := ps, r_agents := as, r_updated := (if fp \<or> fa then now else r_updated ?r)\<rparr>"
      using assms False p now
      by (cases fp; cases fa) (auto simp: ds Let_def fa_def [symmetric] fp_def [symmetric] ps_def as_def)
    with panes agents show ?thesis by blast
  qed
qed

section \<open>Examples\<close>

text \<open>Two shells, the first of which was activated under generation \<open>g1\<close>.\<close>

definition activated :: "nat mstate" where
  "activated = snd (RecordPaneActivation (demoMutator 9) ''uuu''
     \<lparr>ao_generation = ''g1'', ao_runtime = ''%1'', ao_agent = '''', ao_operation = ''op''\<rparr>
     (demoState\<lparr>ms_reg := twoShells\<rparr>))"

definition crashed :: termination_record where
  "crashed = \<lparr>t_source = TerminationSourceSupervisor, t_class = TerminationAbnormal, t_observed = 5,
     t_pane = ''uuu'', t_agent = '''', t_generation = ''g1'', t_exit = Some 1, t_signal = '''', t_operation = ''sup''\<rparr>"

definition deleted :: termination_record where
  "deleted = \<lparr>t_source = TerminationSourceControlAction, t_class = TerminationIntentional, t_observed = 0,
     t_pane = ''uuu'', t_agent = '''', t_generation = ''g1'', t_exit = None, t_signal = '''', t_operation = ''del''\<rparr>"

section \<open>Properties\<close>



text \<open>C34: Recorded intent is sticky. Once a Pane holds a control action's receipt, no sequence of further
  offers, whatever their sources, generations or order, makes its evidence anything but a control action's
  receipt of the same kind, and an interruption keeps exactly the receipt it has; the Pane's generation never
  changes either.\<close>

theorem recorded_intent_is_sticky:
  assumes "evidenceAt (ms_reg s) u = Some t" and "t_source t = TerminationSourceControlAction"
    and "t_class t \<in> {TerminationIntentional, TerminationInterrupted}"
  shows "(\<exists>t'. evidenceAt (ms_reg (offerAll m rcs s)) u = Some t' \<and> t_source t' = TerminationSourceControlAction
      \<and> t_class t' = t_class t \<and> (t_class t = TerminationInterrupted \<longrightarrow> t' = t))
    \<and> generationAt (ms_reg (offerAll m rcs s)) u = generationAt (ms_reg s) u"
proof -
  have "intentHeld t (evidenceAt (ms_reg s) u)" using assms by (simp add: intentHeld_def)
  from offerAll_keeps_intent [OF this assms(3), of m rcs] show ?thesis
    by (auto simp: intentHeld_def offerAll_generation split: option.splits)
qed

theorem recorded_intent_is_sticky_witness:
  "map_option t_class (evidenceAt (ms_reg (offerAll (demoMutator 9) [crashed, crashed]
     (offerAll (demoMutator 9) [deleted] activated))) ''uuu'') = Some TerminationIntentional"
proof -
  have e: "evidenceAt (ms_reg (offerAll (demoMutator 9) [deleted] activated)) ''uuu'' = Some (deleted\<lparr>t_observed := 7\<rparr>)"
    by code_simp
  from recorded_intent_is_sticky [OF e, of "demoMutator 9" "[crashed, crashed]"]
  show ?thesis by (auto simp: deleted_def)
qed

text \<open>Offering an applied receipt again changes nothing: the second offer is reported as recorded verbatim,
  or as stale when the first one had refined the evidence of an Agent that no longer binds the Pane.\<close>

theorem repeated_receipt_changes_nothing:
  assumes first: "RecordTermination m receipt s = (Inr appliedTermination, s1)"
    and second: "RecordTermination m' receipt s1 = (res, s2)"
  shows "s2 = s1 \<and> (res = Inr (duplicateTermination RecordedVerbatim) \<or> res = Inr (staleTermination UnboundAgent))"
proof -
  let ?rc = "trimReceipt receipt"
  obtain now w where c: "receiptCheck receipt = ok" and adm: "terminationRefusal (ms_reg s) ?rc = None"
    and s1: "s1 = s\<lparr>ms_reg := (storeTermination (stampReceipt now ?rc) (ms_reg s))\<lparr>r_updated := now\<rparr>, ms_world := w\<rparr>"
    using first refused_not_applied by (cases rule: RecordTermination_run [of m receipt s]) auto
  obtain p where p: "lookupPane (ms_reg s) (t_pane ?rc) = Some p"
    "act_generation (pnst_activation (pn_status p)) = t_generation ?rc" "agentRefusal (ms_reg s) p ?rc = None"
    using terminationRefusal_None [OF adm] by metis
  let ?p' = "paneStored (stampReceipt now ?rc) p"
  have p': "lookupPane (ms_reg s1) (t_pane ?rc) = Some ?p'" using p by (simp add: s1 storeTermination_lookup)
  have stored: "storedRefusal (pnst_termination (pn_status ?p')) ?rc = Some RecordedVerbatim"
    by (simp add: storedRefusal_def)
  have agent: "agentRefusal (ms_reg s1) ?p' ?rc \<in> {None, Some UnboundAgent}"
  proof (cases "t_agent ?rc = ''''")
    case False
    obtain a where "lookupAgent (ms_reg s) (t_agent ?rc) = Some a"
      "om_owner (pn_meta p) = Some \<lparr>or_kind = KindAgent, or_uid = t_agent ?rc\<rparr>"
      by (rule agentRefusal_None [OF p(3) False]) blast
    then show ?thesis using False by (simp add: agentRefusal_def s1 storeTermination_lookup)
  qed (simp add: agentRefusal_def)
  have ref: "terminationRefusal (ms_reg s1) ?rc \<in> {Some (duplicateTermination RecordedVerbatim), Some (staleTermination UnboundAgent)}"
    using agent stored p p' by (auto simp: terminationRefusal_def)
  then obtain out where out: "terminationRefusal (ms_reg s1) ?rc = Some out" by blast
  from out second c have "(res, s2) = (Inr out, s1)"
    by (cases rule: RecordTermination_run [of m' receipt s1]) (auto simp: ok_def)
  with out ref show ?thesis by auto
qed

theorem repeated_receipt_changes_nothing_witness:
  "fst (RecordTermination (demoMutator 9) crashed (snd (RecordTermination (demoMutator 9) crashed activated)))
     \<in> {Inr (duplicateTermination RecordedVerbatim), Inr (staleTermination UnboundAgent)}"
proof -
  let ?m = "demoMutator 9"
  have f: "fst (RecordTermination ?m crashed activated) = Inr appliedTermination" by code_simp
  have "RecordTermination ?m crashed activated = (Inr appliedTermination, snd (RecordTermination ?m crashed activated))"
    by (simp add: prod_eq_iff f)
  from repeated_receipt_changes_nothing [OF this surjective_pairing] show ?thesis by blast
qed

text \<open>C35: Issuing a new generation retires the receipts of the old one. After a successful
  \<open>RecordPaneActivation\<close> the Pane carries exactly the new generation and no termination evidence, and every
  receipt for that Pane under any other generation is refused as stale with nothing changed.\<close>

theorem new_generation_retires_receipts:
  assumes act: "RecordPaneActivation m u opts s = (Inr p, s1)"
    and rc: "receiptCheck rc = ok" "trimSpace (t_pane rc) = u" "trimSpace (t_generation rc) \<noteq> trimSpace (ao_generation opts)"
  shows "generationAt (ms_reg s1) u = Some (trimSpace (ao_generation opts)) \<and> evidenceAt (ms_reg s1) u = None
    \<and> RecordTermination m' rc s1 = (Inr (staleTermination ReplacedGeneration), s1)"
proof -
  let ?ag = "trimSpace (ao_agent opts)"
  obtain now w where now: "Now m (ms_world s) = (now, w)" by fastforce
  have ne: "trimSpace (ao_generation opts) \<noteq> ''''" "lookupPane (ms_reg s) u \<noteq> None"
    "\<not> (?ag \<noteq> '''' \<and> lookupAgent (ms_reg s) ?ag = None)"
    using act by (auto simp: RecordPaneActivation_def Let_def throw_def andThen_def getReg_def split: if_splits)
  then obtain q where q: "lookupPane (ms_reg s) u = Some q" by auto
  let ?r = "(if ?ag \<noteq> '''' then updAgent ?ag clearAgentTermination else (\<lambda>x. x))
     (updPane u (startActivation opts now) (ms_reg s))"
  have f: "lookupPane (?r\<lparr>r_updated := t\<rparr>) u = Some (startActivation opts now q)" for t
  proof -
    have "find (\<lambda>p. pn_uid p = u) (updFirst (\<lambda>p. pn_uid p = u) (startActivation opts now) ps)
      = map_option (startActivation opts now) (find (\<lambda>p. pn_uid p = u) ps)" for ps
      by (rule find_updFirst_same) (simp add: startActivation_def)
    then show ?thesis using q by (simp add: lookupPane_def updPane_def updAgent_def)
  qed
  have s1: "ms_reg s1 = ?r\<lparr>r_updated := now\<rparr>"
    using act ne now f [of now] by (auto simp: RecordPaneActivation_def Let_def andThen_def getReg_def modReg_def
        clock_def thePane_def return_def)
  have l: "lookupPane (ms_reg s1) u = Some (startActivation opts now q)" using f s1 by simp
  then have "terminationRefusal (ms_reg s1) (trimReceipt rc) = Some (staleTermination ReplacedGeneration)"
    using rc by (simp add: terminationRefusal_def startActivation_def)
  with rc(1) have "RecordTermination m' rc s1 = (Inr (staleTermination ReplacedGeneration), s1)"
    by (cases rule: RecordTermination_run [of m' rc s1]) (auto simp: ok_def)
  then show ?thesis using l by (simp add: generationAt_def evidenceAt_def startActivation_def)
qed

theorem new_generation_retires_receipts_witness:
  "RecordTermination (demoMutator 9) (crashed\<lparr>t_generation := ''g0''\<rparr>) activated
     = (Inr (staleTermination ReplacedGeneration), activated)"
proof -
  let ?a = "RecordPaneActivation (demoMutator 9) ''uuu''
     \<lparr>ao_generation = ''g1'', ao_runtime = ''%1'', ao_agent = '''', ao_operation = ''op''\<rparr>
     (demoState\<lparr>ms_reg := twoShells\<rparr>)"
  have "\<not> isl (fst ?a)" by code_simp
  then have run: "?a = (Inr (projr (fst ?a)), activated)" by (simp add: prod_eq_iff activated_def)
  show ?thesis
    by (rule new_generation_retires_receipts [OF run, THEN conjunct2, THEN conjunct2]) code_simp+
qed

text \<open>\<open>ClearTermination\<close> touches nothing but receipts of its own operation: whatever it returns, the
  Registry differs at most in the update time, in the evidence of the named Pane, and in the evidence of
  Agents, and every cleared receipt carried exactly the (trimmed) operation id.\<close>

theorem clear_termination_is_scoped:
  "\<exists>ps as t. ms_reg (snd (ClearTermination m u opid s)) = (ms_reg s)\<lparr>r_panes := ps, r_agents := as, r_updated := t\<rparr>
    \<and> list_all2 (\<lambda>p p'. p' = p \<or> (pn_uid p = u \<and> writtenBy (trimSpace opid) (pnst_termination (pn_status p))
         \<and> p' = clearPaneTermination p)) (r_panes (ms_reg s)) ps
    \<and> list_all2 (\<lambda>a a'. a' = a \<or> (writtenBy (trimSpace opid) (ast_termination (a_status a))
         \<and> a' = clearAgentTermination a)) (r_agents (ms_reg s)) as"
  by (rule ClearTermination_run [OF surjective_pairing])


text \<open>What a supervisor reads from a reaped child is always a receipt the Registry accepts: classified by
  \<open>ClassifyProcessExit\<close>, a status with an exit code from 0 to 255 and no signal, or with a signal and no code,
  passes every static check and is the Wait of its binding. \<open>ClassifyProcessExit\<close> never claims intent
  or ignorance, and reports normal only for status 0 without a signal.\<close>

definition waitReceipt :: "process_binding \<Rightarrow> time \<Rightarrow> int \<Rightarrow> string \<Rightarrow> termination_record" where
  "waitReceipt b at code signal = \<lparr>t_source = TerminationSourceSupervisor,
     t_class = ClassifyProcessExit (if signal = '''' then code else 0) signal, t_observed = at,
     t_pane = pb_pane b, t_agent = pb_agent b, t_generation = pb_generation b,
     t_exit = (if signal = '''' then Some code else None), t_signal = signal, t_operation = pb_operation b\<rparr>"

lemma hangup_nonempty: "isHangup signal \<Longrightarrow> signal \<noteq> ''''"
  by (auto simp: isHangup_def)

lemma classify_closed:
  "ClassifyProcessExit code signal \<in> {TerminationKilled, TerminationAbnormal, TerminationNormal}"
  by (simp add: ClassifyProcessExit_def)

theorem wait_receipts_are_accepted:
  assumes "0 \<le> code" and "code \<le> 255" and "trimSpace (pb_pane b) \<noteq> ''''" and "\<not> timeIsZero at"
  shows "receiptCheck (waitReceipt b at code signal) = ok
    \<and> MatchesProcessWait b (Some (waitReceipt b at code signal))
    \<and> ClassifyProcessExit code signal \<in> {TerminationKilled, TerminationAbnormal, TerminationNormal}
    \<and> (ClassifyProcessExit code signal = TerminationNormal \<longleftrightarrow> code = 0 \<and> trimSpace signal = '''')"
proof -
  let ?r = "waitReceipt b at code signal"
  have killed: "t_class ?r = TerminationKilled \<longleftrightarrow> isHangup signal"
    by (auto simp: waitReceipt_def ClassifyProcessExit_def)
  have shape: "validTerminationEvidenceShape ?r"
    unfolding validTerminationEvidenceShape_def killed
    by (auto simp: waitReceipt_def dest: hangup_nonempty)
  have "t_class ?r \<in> {TerminationKilled, TerminationAbnormal, TerminationNormal}"
    using classify_closed by (simp add: waitReceipt_def)
  then have "validTerminationPairing (t_source ?r) (t_class ?r)" "ValidTerminationClassification (t_class ?r)"
    "ValidTerminationSource (t_source ?r)"
    by (auto simp: waitReceipt_def validTerminationPairing_def ValidTerminationClassification_def ValidTerminationSource_def)
  moreover have "t_pane ?r = pb_pane b" by (simp add: waitReceipt_def)
  ultimately have c: "receiptCheck ?r = ok" using shape assms(3) by (simp add: receiptCheck_def Let_def allChecks_ok)
  have fields: "t_exit ?r = (if signal = '''' then Some code else None)" "t_signal ?r = signal"
    "t_class ?r = ClassifyProcessExit (if signal = '''' then code else 0) signal"
    "t_source ?r = TerminationSourceSupervisor" "t_observed ?r = at" "t_pane ?r = pb_pane b"
    "t_agent ?r = pb_agent b" "t_generation ?r = pb_generation b" "t_operation ?r = pb_operation b"
    by (simp_all add: waitReceipt_def)
  have "validProcessWaitStatus ?r"
    using shape assms(1,2) fields by (cases "signal = ''''") (simp_all add: validProcessWaitStatus_def)
  then have "MatchesProcessWait b (Some ?r)"
    using assms(4) by (simp add: MatchesProcessWait_def fields)
  moreover have "ClassifyProcessExit code signal = TerminationNormal \<longleftrightarrow> code = 0 \<and> trimSpace signal = ''''"
    by (auto simp: ClassifyProcessExit_def isHangup_def)
  ultimately show ?thesis using c classify_closed by blast
qed

theorem wait_receipts_are_accepted_witness:
  "receiptCheck (waitReceipt \<lparr>pb_host = ''h'', pb_project = ''p'', pb_window = ''w'', pb_agent = ''a'', pb_pane = ''q'',
     pb_generation = ''g'', pb_operation = ''o''\<rparr> 9 0 ''hup'') = ok"
proof -
  let ?b = "\<lparr>pb_host = ''h'', pb_project = ''p'', pb_window = ''w'', pb_agent = ''a'', pb_pane = ''q'',
     pb_generation = ''g'', pb_operation = ''o''\<rparr>"
  have "trimSpace (pb_pane ?b) \<noteq> ''''" "\<not> timeIsZero 9" by code_simp+
  from wait_receipts_are_accepted [OF _ _ this, of 0 "''hup''"] show ?thesis by simp
qed

end
