(* ===== verification/Generation.thy ===== *)
theory Generation
  imports Model
begin

text \<open>
  \<^verbatim>\<open>internal/core/codexgeneration\<close> and the Codex identities it reads from \<^verbatim>\<open>internal/core/metadata\<close>: the
  lifecycle projection of an endpoint generation, the decision whether a presented live authority is
  the stored one, the mutation classes, and the consumer projection shared by notifications, sidebar,
  status bar and reply. The SHA-256 of a fence is a parameter \<open>digest\<close>.
\<close>

section \<open>Endpoint, authority and operation identities\<close>

definition tokenRune :: "rune \<Rightarrow> bool" where
  "tokenRune r \<longleftrightarrow> (97 \<le> r \<and> r \<le> 122) \<or> (65 \<le> r \<and> r \<le> 90) \<or> (48 \<le> r \<and> r \<le> 57)
     \<or> r = 45 \<or> r = 95 \<or> r = 46 \<or> r = 58"

definition ValidCodexIdentityToken :: "string \<Rightarrow> bool" where
  "ValidCodexIdentityToken value \<longleftrightarrow>
     \<not> (value = '''' \<or> value \<noteq> trimSpace value \<or> length value > 128) \<and> list_all tokenRune (runesOf value)"

definition endpointValid :: "codex_endpoint \<Rightarrow> bool" where
  "endpointValid e \<longleftrightarrow> ValidCodexIdentityToken (ce_domain e) \<and> ValidCodexIdentityToken (ce_generation e)"

definition endpointSame :: "codex_endpoint \<Rightarrow> codex_endpoint \<Rightarrow> bool" where
  "endpointSame e f \<longleftrightarrow> endpointValid e \<and> endpointValid f \<and> ce_domain e = ce_domain f
     \<and> ce_generation e = ce_generation f"

definition authorityValid :: "codex_authority \<Rightarrow> bool" where
  "authorityValid a \<longleftrightarrow> ValidCodexIdentityToken (ca_domain a) \<and> ValidCodexIdentityToken (ca_generation a)
     \<and> ValidCodexIdentityToken (ca_broker a) \<and> ca_connection a \<noteq> 0 \<and> ca_binding a \<noteq> 0"

definition authorityEndpoint :: "codex_authority \<Rightarrow> codex_endpoint" where
  "authorityEndpoint a = \<lparr>ce_domain = ca_domain a, ce_generation = ca_generation a\<rparr>"

definition authorizes :: "codex_authority \<Rightarrow> codex_authority \<Rightarrow> bool" where
  "authorizes a presented \<longleftrightarrow> authorityValid a \<and> authorityValid presented \<and> a = presented"

definition operationValidFor :: "codex_operation \<Rightarrow> codex_endpoint option \<Rightarrow> bool" where
  "operationValidFor r endpoint \<longleftrightarrow> (case endpoint of
     None \<Rightarrow> False
   | Some e \<Rightarrow> ValidCodexIdentityToken (co_id r) \<and> endpointSame (co_endpoint r) e)"

definition lifecycleValidFor :: "codex_lifecycle \<Rightarrow> codex_endpoint option \<Rightarrow> bool" where
  "lifecycleValidFor r endpoint \<longleftrightarrow> (case endpoint of
     None \<Rightarrow> False
   | Some e \<Rightarrow> endpointValid e \<and>
       (if cl_state r \<in> {StateDraining, StateHandoverPending, StateRecovering, StateBlocked}
        then (case cl_operation r of None \<Rightarrow> False | Some op \<Rightarrow> operationValidFor op endpoint)
        else if cl_state r \<in> {StatePreparing, StateCurrent, StateRetired} then cl_operation r = None
        else False))"

definition receiptValidFor :: "codex_receipt \<Rightarrow> codex_endpoint option \<Rightarrow> bool" where
  "receiptValidFor r old \<longleftrightarrow> (case old of
     None \<Rightarrow> False
   | Some e \<Rightarrow> endpointValid e \<and> endpointValid (crr_successor r) \<and> ce_domain e = ce_domain (crr_successor r)
       \<and> \<not> endpointSame e (crr_successor r) \<and> ValidCodexIdentityToken (crr_operation r)
       \<and> ValidCodexIdentityToken (crr_agent r) \<and> ValidCodexIdentityToken (crr_pane r)
       \<and> trimSpace (crr_runtime r) \<noteq> '''' \<and> trimSpace (crr_generation r) \<noteq> ''''
       \<and> ValidCodexIdentityToken (crr_thread r))"

section \<open>The live authority decision\<close>

datatype authority_decision =
    AuthorityAllowed | AuthorityLegacyUnavailable | AuthorityEndpointMismatch
  | AuthorityBrokerRuntimeMismatch | AuthorityConnectionStale | AuthorityBindingStale

fun DecideAuthority ::
  "codex_endpoint option \<Rightarrow> codex_authority option \<Rightarrow> codex_authority option \<Rightarrow> authority_decision" where
  "DecideAuthority (Some durable) (Some stored) (Some presented) =
     (if \<not> endpointValid durable \<or> \<not> authorityValid stored \<or> \<not> authorityValid presented
      then AuthorityLegacyUnavailable
      else if \<not> endpointSame durable (authorityEndpoint stored) \<or> \<not> endpointSame durable (authorityEndpoint presented)
      then AuthorityEndpointMismatch
      else if ca_broker stored \<noteq> ca_broker presented then AuthorityBrokerRuntimeMismatch
      else if ca_connection stored \<noteq> ca_connection presented then AuthorityConnectionStale
      else if ca_binding stored \<noteq> ca_binding presented then AuthorityBindingStale
      else AuthorityAllowed)"
| "DecideAuthority _ _ _ = AuthorityLegacyUnavailable"

section \<open>Lifecycle projection\<close>

record lifecycle_input =
  li_interaction :: interaction_kind
  li_endpoint :: "codex_endpoint option"
  li_state :: generation_state
  li_operation :: "codex_operation option"

record lifecycle_projection =
  lp_state :: string
  lp_badge :: string
  lp_attention :: string

definition emptyLifecycle :: lifecycle_projection where
  "emptyLifecycle = \<lparr>lp_state = '''', lp_badge = '''', lp_attention = ''''\<rparr>"

definition GenerationStates :: "generation_state list" where
  "GenerationStates = [StatePreparing, StateCurrent, StateDraining, StateHandoverPending, StateRetired,
     StateRecovering, StateBlocked]"

definition Authoritative :: "lifecycle_input \<Rightarrow> bool" where
  "Authoritative i =
     (case li_endpoint i of
        None \<Rightarrow> False
      | Some e \<Rightarrow>
          if li_state i = StateNone \<or> \<not> endpointValid e \<or> li_state i \<notin> set GenerationStates then False
          else if li_state i \<in> {StateDraining, StateHandoverPending, StateRecovering, StateBlocked}
          then (case li_operation i of None \<Rightarrow> False | Some op \<Rightarrow> operationValidFor op (li_endpoint i))
          else li_state i \<in> {StatePreparing, StateCurrent, StateRetired} \<and> li_operation i = None)"

fun projectInteraction :: "interaction_kind \<Rightarrow> lifecycle_projection" where
  "projectInteraction InteractionInProgress =
     \<lparr>lp_state = ''thinking'', lp_badge = ''in_progress'', lp_attention = ''busy''\<rparr>"
| "projectInteraction InteractionApprovalRequired =
     \<lparr>lp_state = ''waiting'', lp_badge = ''approval_required'', lp_attention = ''reply''\<rparr>"
| "projectInteraction InteractionInputRequired =
     \<lparr>lp_state = ''waiting'', lp_badge = ''input_required'', lp_attention = ''reply''\<rparr>"
| "projectInteraction InteractionResponseComplete =
     \<lparr>lp_state = ''waiting'', lp_badge = ''response_complete'', lp_attention = ''reply''\<rparr>"
| "projectInteraction InteractionIdle = \<lparr>lp_state = ''idle'', lp_badge = '''', lp_attention = ''''\<rparr>"
| "projectInteraction _ = emptyLifecycle"

definition ValidAgentInteractionKind :: "interaction_kind \<Rightarrow> bool" where
  "ValidAgentInteractionKind k \<longleftrightarrow> k \<in> set AgentInteractionKinds"

definition ProjectLifecycle :: "lifecycle_input \<Rightarrow> lifecycle_projection" where
  "ProjectLifecycle i =
     (let base = projectInteraction
            (if ValidAgentInteractionKind (li_interaction i) then li_interaction i else InteractionUnknown)
      in if li_state i = StateNone then base
      else if \<not> Authoritative i then emptyLifecycle
      else case li_state i of
        StateCurrent \<Rightarrow> base
      | StateDraining \<Rightarrow>
          if lp_badge base = '''' then \<lparr>lp_state = ''draining'', lp_badge = ''draining'', lp_attention = ''''\<rparr>
          else base\<lparr>lp_state := ''draining''\<rparr>
      | StateHandoverPending \<Rightarrow> \<lparr>lp_state = ''draining'', lp_badge = ''handover_pending'', lp_attention = ''''\<rparr>
      | StateRecovering \<Rightarrow> \<lparr>lp_state = ''recovering'', lp_badge = ''recovering'', lp_attention = ''''\<rparr>
      | StateBlocked \<Rightarrow> \<lparr>lp_state = ''blocked'', lp_badge = ''blocked'', lp_attention = ''''\<rparr>
      | _ \<Rightarrow> emptyLifecycle)"

section \<open>Mutation classes\<close>

datatype mutation_owner = MutationOwnerExact | MutationOwnerForeign
datatype mutation_freshness = MutationCurrent | MutationStale
datatype mutation_target = MutationTargetExact | MutationTargetSibling
datatype mutation_effect = MutationSemanticEffect | MutationZeroWrite

record mutation_class =
  mc_owner :: mutation_owner
  mc_freshness :: mutation_freshness
  mc_target :: mutation_target
  mc_effect :: mutation_effect

text \<open>The eight rows, in the order of the three nested loops.\<close>

definition classRow :: "mutation_owner \<Rightarrow> mutation_freshness \<Rightarrow> mutation_target \<Rightarrow> mutation_class" where
  "classRow owner fresh target = \<lparr>mc_owner = owner, mc_freshness = fresh, mc_target = target,
     mc_effect = (if owner = MutationOwnerExact \<and> fresh = MutationCurrent \<and> target = MutationTargetExact
        then MutationSemanticEffect else MutationZeroWrite)\<rparr>"

definition RuntimeMutationClasses :: "mutation_class list" where
  "RuntimeMutationClasses =
     concat (map (\<lambda>owner. concat (map (\<lambda>fresh.
        map (classRow owner fresh) [MutationTargetExact, MutationTargetSibling])
          [MutationCurrent, MutationStale])) [MutationOwnerExact, MutationOwnerForeign])"

record mutation_input =
  mi_durable :: "codex_endpoint option"
  mi_stored :: "codex_authority option"
  mi_presented :: "codex_authority option"
  mi_target :: string
  mi_event :: string

record mutation_decision =
  mdc_class :: mutation_class
  mdc_authority :: authority_decision

definition DecideRuntimeMutation :: "mutation_input \<Rightarrow> mutation_decision" where
  "DecideRuntimeMutation i =
     (let owner = (case (mi_durable i, mi_presented i) of
            (Some e, Some p) \<Rightarrow> if endpointSame e (authorityEndpoint p) then MutationOwnerExact else MutationOwnerForeign
          | _ \<Rightarrow> MutationOwnerForeign);
          authority = DecideAuthority (mi_durable i) (mi_stored i) (mi_presented i);
          fresh = (case (mi_stored i, mi_presented i) of
            (Some s, Some p) \<Rightarrow> if authorizes s p then MutationCurrent else MutationStale
          | _ \<Rightarrow> MutationStale);
          target = (if trimSpace (mi_target i) \<noteq> '''' \<and> mi_target i = mi_event i
            then MutationTargetExact else MutationTargetSibling);
          row = (case filter (\<lambda>c. mc_owner c = owner \<and> mc_freshness c = fresh \<and> mc_target c = target)
              RuntimeMutationClasses of c # _ \<Rightarrow> c
            | [] \<Rightarrow> \<lparr>mc_owner = owner, mc_freshness = fresh, mc_target = target, mc_effect = MutationZeroWrite\<rparr>)
      in \<lparr>mdc_class = (if authority \<noteq> AuthorityAllowed then row\<lparr>mc_effect := MutationZeroWrite\<rparr> else row),
          mdc_authority = authority\<rparr>)"

text \<open>The two writers are optional functions on the world they write.\<close>

definition runWriter :: "('w \<Rightarrow> 'w) option \<Rightarrow> 'w \<Rightarrow> 'w" where
  "runWriter f w = (case f of None \<Rightarrow> w | Some g \<Rightarrow> g w)"

definition ApplyRuntimeMutation ::
  "mutation_input \<Rightarrow> ('w \<Rightarrow> 'w) option \<Rightarrow> ('w \<Rightarrow> 'w) option \<Rightarrow> 'w \<Rightarrow> mutation_decision \<times> 'w" where
  "ApplyRuntimeMutation i registryWrite tmuxWrite w =
     (let decision = DecideRuntimeMutation i
      in (decision, if mc_effect (mdc_class decision) = MutationSemanticEffect
            then runWriter tmuxWrite (runWriter registryWrite w) else w))"

section \<open>Consumers\<close>

fun formatUint :: "nat \<Rightarrow> string" where
  "formatUint n = (if n < 10 then [char_of (48 + n)] else formatUint (n div 10) @ [char_of (48 + n mod 10)])"

declare formatUint.simps [simp del]

fun joinNul :: "string list \<Rightarrow> string" where
  "joinNul [] = ''''"
| "joinNul [s] = s"
| "joinNul (s # ss) = s @ CHR 0x00 # joinNul ss"

definition fenceParts :: "codex_endpoint \<Rightarrow> codex_authority \<Rightarrow> string list" where
  "fenceParts e a = [ce_domain e, ce_generation e, ca_broker a, formatUint (unat (ca_connection a)),
     formatUint (unat (ca_binding a))]"

definition ConsumerFence :: "(string \<Rightarrow> string) \<Rightarrow> codex_endpoint \<Rightarrow> codex_authority \<Rightarrow> string" where
  "ConsumerFence digest e a =
     (if \<not> endpointValid e \<or> \<not> authorityValid a \<or> \<not> endpointSame e (authorityEndpoint a) then ''''
      else ''sha256:'' @ digest (joinNul (fenceParts e a)))"

record consumer_projection =
  cp_endpoint :: codex_endpoint
  cp_fence :: string
  cp_lifecycle :: lifecycle_projection
  cp_notification :: bool
  cp_sidebar :: bool
  cp_statusbar :: bool
  cp_reply :: bool
  cp_effect :: mutation_effect
  cp_reason :: authority_decision

definition ProjectConsumers ::
  "(string \<Rightarrow> string) \<Rightarrow> lifecycle_input \<Rightarrow> mutation_input \<Rightarrow> bool \<Rightarrow> consumer_projection" where
  "ProjectConsumers digest lc mutation notify =
     (let out = \<lparr>cp_endpoint = (case li_endpoint lc of None \<Rightarrow> \<lparr>ce_domain = '''', ce_generation = ''''\<rparr> | Some e \<Rightarrow> e),
                cp_fence = '''', cp_lifecycle = ProjectLifecycle lc, cp_notification = False, cp_sidebar = False,
                cp_statusbar = False, cp_reply = False, cp_effect = MutationZeroWrite,
                cp_reason = AuthorityLegacyUnavailable\<rparr>
      in case (li_endpoint lc, mi_presented mutation) of
           (Some e, Some p) \<Rightarrow>
             if \<not> Authoritative lc then out
             else let decision = DecideRuntimeMutation mutation;
                      out = out\<lparr>cp_reason := mdc_authority decision, cp_effect := mc_effect (mdc_class decision)\<rparr>
               in if mc_effect (mdc_class decision) \<noteq> MutationSemanticEffect \<or> \<not> endpointSame e (authorityEndpoint p)
                  then out
                  else let actionable = (lp_attention (cp_lifecycle out) = ''reply'')
                    in out\<lparr>cp_fence := ConsumerFence digest e p, cp_notification := (notify \<and> actionable),
                         cp_sidebar := actionable, cp_statusbar := actionable,
                         cp_reply := (actionable \<and> (li_interaction lc = InteractionApprovalRequired
                            \<or> li_interaction lc = InteractionInputRequired))\<rparr>
         | _ \<Rightarrow> out)"

section \<open>The decisions as relations\<close>

lemma authority_eqI:
  "authorityEndpoint a = authorityEndpoint b \<Longrightarrow> ca_broker a = ca_broker b \<Longrightarrow> ca_connection a = ca_connection b \<Longrightarrow>
   ca_binding a = ca_binding b \<Longrightarrow> a = (b :: codex_authority)"
  by (cases a; cases b) (simp add: authorityEndpoint_def)

lemma endpointSame_iff: "endpointSame e f \<longleftrightarrow> endpointValid e \<and> e = f"
  by (cases e; cases f) (auto simp: endpointSame_def)

lemma authorityEndpoint_valid: "authorityValid a \<Longrightarrow> endpointValid (authorityEndpoint a)"
  by (simp add: authorityValid_def endpointValid_def authorityEndpoint_def)

lemma DecideAuthority_allowed:
  "DecideAuthority d s p = AuthorityAllowed \<longleftrightarrow>
     (\<exists>a. s = Some a \<and> p = Some a \<and> authorityValid a \<and> d = Some (authorityEndpoint a))"
proof (cases "\<exists>e a b. d = Some e \<and> s = Some a \<and> p = Some b")
  case True
  then obtain e a b where args: "d = Some e" "s = Some a" "p = Some b" by blast
  have "a = b" "authorityValid a" "e = authorityEndpoint a" if "DecideAuthority d s p = AuthorityAllowed"
    using that authority_eqI [of a b] by (auto simp: args endpointSame_iff split: if_splits)
  moreover have "DecideAuthority d s p = AuthorityAllowed"
    if "a = b" "authorityValid a" "e = authorityEndpoint a"
    using that by (simp add: args endpointSame_iff authorityEndpoint_valid)
  ultimately show ?thesis using args by blast
qed (auto elim: DecideAuthority.elims split: if_splits)

lemma classRow_lookup:
  "filter (\<lambda>c. mc_owner c = ow \<and> mc_freshness c = fr \<and> mc_target c = ta) RuntimeMutationClasses = [classRow ow fr ta]"
  by (cases ow; cases fr; cases ta) (simp_all add: RuntimeMutationClasses_def classRow_def)

text \<open>The abstract rule: one authority, stored and presented, of the durable endpoint, naming its own runtime.\<close>

definition exactMutation :: "mutation_input \<Rightarrow> bool" where
  "exactMutation i \<longleftrightarrow> (case (mi_durable i, mi_stored i, mi_presented i) of
     (Some e, Some s, Some p) \<Rightarrow> authorityValid p \<and> s = p \<and> e = authorityEndpoint p
       \<and> trimSpace (mi_target i) \<noteq> '''' \<and> mi_event i = mi_target i
   | _ \<Rightarrow> False)"

lemma DecideRuntimeMutation_exact:
  "mc_effect (mdc_class (DecideRuntimeMutation i)) = MutationSemanticEffect \<longleftrightarrow> exactMutation i"
proof (cases "DecideAuthority (mi_durable i) (mi_stored i) (mi_presented i) = AuthorityAllowed")
  case True
  then obtain a where "mi_stored i = Some a" "mi_presented i = Some a" "authorityValid a"
    "mi_durable i = Some (authorityEndpoint a)" by (auto simp: DecideAuthority_allowed)
  with True show ?thesis
    by (auto simp: DecideRuntimeMutation_def classRow_lookup exactMutation_def endpointSame_iff
        authorityEndpoint_valid authorizes_def classRow_def)
next
  case False
  then show ?thesis
    by (auto simp: DecideRuntimeMutation_def exactMutation_def DecideAuthority_allowed Let_def
        split: option.splits)
qed

lemma DecideRuntimeMutation_authority:
  "mdc_authority (DecideRuntimeMutation i) = DecideAuthority (mi_durable i) (mi_stored i) (mi_presented i)"
  by (simp add: DecideRuntimeMutation_def Let_def)

subsection \<open>The fence key\<close>

lemma formatUint_digits: "c \<in> set (formatUint n) \<Longrightarrow> 48 \<le> byte c \<and> byte c \<le> 57"
proof (induction n rule: formatUint.induct)
  case (1 n)
  then show ?case by (subst (asm) (2) formatUint.simps) (auto split: if_splits)
qed

text \<open>Reading the digits back.\<close>

definition parseUint :: "string \<Rightarrow> nat" where
  "parseUint s = foldl (\<lambda>n c. n * 10 + (byte c - 48)) 0 s"

lemma parse_format: "parseUint (formatUint n) = n"
proof (induction n rule: formatUint.induct)
  case (1 n)
  then show ?case by (subst formatUint.simps) (auto simp: parseUint_def)
qed

lemma token_no_nul: "ValidCodexIdentityToken s \<Longrightarrow> CHR 0x00 \<notin> set s"
proof
  assume "ValidCodexIdentityToken s" "CHR 0x00 \<in> set s"
  moreover have "byte (CHR 0x00) = 0" by (simp add: byte_def)
  ultimately show False
    using ascii_byte_rune [of "CHR 0x00" s] by (auto simp: ValidCodexIdentityToken_def tokenRune_def list_all_iff)
qed

lemma formatUint_no_nul: "CHR 0x00 \<notin> set (formatUint n)"
  using formatUint_digits [of "CHR 0x00" n] by (auto simp: byte_def)

lemma append_nul_inj:
  "s @ CHR 0x00 # x = t @ CHR 0x00 # y \<Longrightarrow> CHR 0x00 \<notin> set s \<Longrightarrow> CHR 0x00 \<notin> set t \<Longrightarrow> s = t \<and> x = y"
proof (induction s arbitrary: t)
  case Nil
  then show ?case by (cases t) auto
next
  case (Cons c s)
  then show ?case by (cases t) auto
qed

lemma joinNul_inj:
  "joinNul ss = joinNul ts \<Longrightarrow> length ss = length ts \<Longrightarrow>
   \<forall>s \<in> set ss. CHR 0x00 \<notin> set s \<Longrightarrow> \<forall>t \<in> set ts. CHR 0x00 \<notin> set t \<Longrightarrow> ss = ts"
proof (induction ss arbitrary: ts rule: joinNul.induct)
  case (2 s)
  then show ?case by (cases ts) auto
next
  case (3 s s' ss)
  then obtain t t' ts' where ts: "ts = t # t' # ts'" by (cases ts; cases "tl ts") auto
  with 3 append_nul_inj [of s "joinNul (s' # ss)" t "joinNul (t' # ts')"] show ?case by auto
qed simp

lemma fenceParts_no_nul:
  "endpointValid e \<Longrightarrow> authorityValid a \<Longrightarrow> \<forall>s \<in> set (fenceParts e a). CHR 0x00 \<notin> set s"
  by (auto simp: fenceParts_def endpointValid_def authorityValid_def token_no_nul formatUint_no_nul)

lemma fenceKey_inj:
  assumes "joinNul (fenceParts e a) = joinNul (fenceParts f b)"
    and "endpointValid e" "authorityValid a" "e = authorityEndpoint a"
    and "endpointValid f" "authorityValid b" "f = authorityEndpoint b"
  shows "a = b"
proof -
  have "fenceParts e a = fenceParts f b"
    using joinNul_inj [OF assms(1)] fenceParts_no_nul assms by (simp add: fenceParts_def)
  then have "e = f" "ca_broker a = ca_broker b"
    "formatUint (unat (ca_connection a)) = formatUint (unat (ca_connection b))"
    "formatUint (unat (ca_binding a)) = formatUint (unat (ca_binding b))"
    by (auto simp: fenceParts_def intro: codex_endpoint.equality)
  then have "ca_connection a = ca_connection b" "ca_binding a = ca_binding b"
    by (metis parse_format word_unat_eq_iff)+
  with \<open>e = f\<close> \<open>ca_broker a = ca_broker b\<close> assms(4,7) show ?thesis by (intro authority_eqI) auto
qed

section \<open>Properties\<close>

definition demoAuthority :: codex_authority where
  "demoAuthority = \<lparr>ca_domain = ''d1'', ca_generation = ''g1'', ca_broker = ''b1'', ca_connection = 7, ca_binding = 3\<rparr>"

definition demoMutation :: mutation_input where
  "demoMutation = \<lparr>mi_durable = Some (authorityEndpoint demoAuthority), mi_stored = Some demoAuthority,
     mi_presented = Some demoAuthority, mi_target = ''%7'', mi_event = ''%7''\<rparr>"

definition demoLifecycle :: lifecycle_input where
  "demoLifecycle = \<lparr>li_interaction = InteractionApprovalRequired, li_endpoint = Some (authorityEndpoint demoAuthority),
     li_state = StateCurrent, li_operation = None\<rparr>"

text \<open>C27: The mutation table implements its rule: an event is given its semantic effect exactly when the durable
  endpoint, the stored and the presented authority are present and valid, agree in all five
  dimensions, and the event names the exact runtime it targets; every other event of the eight
  classes leaves the world unchanged, with neither writer called, and an allowed one runs the
  Registry writer before the tmux writer.\<close>

theorem mutation_implements_rule:
  "ApplyRuntimeMutation i registryWrite tmuxWrite w =
     (DecideRuntimeMutation i,
      if exactMutation i then runWriter tmuxWrite (runWriter registryWrite w) else w)
   \<and> (mc_effect (mdc_class (DecideRuntimeMutation i)) = MutationSemanticEffect) = exactMutation i"
  by (simp add: ApplyRuntimeMutation_def DecideRuntimeMutation_exact Let_def)

text \<open>An authority is allowed exactly when the presented one is the stored one, valid, and of the durable
  endpoint; a refusal names the first dimension that differs, endpoint before broker before
  connection before binding.\<close>

theorem authority_refusals_name_first_difference:
  assumes "endpointValid e" and "authorityValid s" and "authorityValid p"
  shows "(DecideAuthority (Some e) (Some s) (Some p) = AuthorityAllowed \<longleftrightarrow> s = p \<and> e = authorityEndpoint p)
    \<and> (DecideAuthority (Some e) (Some s) (Some p) = AuthorityEndpointMismatch \<longleftrightarrow>
        \<not> (e = authorityEndpoint s \<and> e = authorityEndpoint p))
    \<and> (DecideAuthority (Some e) (Some s) (Some p) = AuthorityBrokerRuntimeMismatch \<longleftrightarrow>
        e = authorityEndpoint s \<and> e = authorityEndpoint p \<and> ca_broker s \<noteq> ca_broker p)
    \<and> (DecideAuthority (Some e) (Some s) (Some p) = AuthorityConnectionStale \<longleftrightarrow>
        e = authorityEndpoint s \<and> e = authorityEndpoint p \<and> ca_broker s = ca_broker p
        \<and> ca_connection s \<noteq> ca_connection p)
    \<and> (DecideAuthority (Some e) (Some s) (Some p) = AuthorityBindingStale \<longleftrightarrow>
        s \<noteq> p \<and> s = p\<lparr>ca_binding := ca_binding s\<rparr> \<and> e = authorityEndpoint p)"
proof -
  have "DecideAuthority (Some e) (Some s) (Some p) = AuthorityAllowed \<longleftrightarrow> s = p \<and> e = authorityEndpoint p"
    using assms by (auto simp del: DecideAuthority.simps simp: DecideAuthority_allowed)
  moreover have "DecideAuthority (Some e) (Some s) (Some p) = AuthorityBindingStale \<longleftrightarrow>
      s \<noteq> p \<and> s = p\<lparr>ca_binding := ca_binding s\<rparr> \<and> e = authorityEndpoint p"
    using assms by (cases s; cases p) (auto simp: endpointSame_iff authorityEndpoint_def)
  ultimately show ?thesis using assms by (auto simp: endpointSame_iff)
qed

theorem authority_refusals_name_first_difference_witness:
  "DecideAuthority (Some (authorityEndpoint demoAuthority)) (Some demoAuthority)
     (Some (demoAuthority\<lparr>ca_binding := 4\<rparr>)) = AuthorityBindingStale"
proof -
  have v: "endpointValid (authorityEndpoint demoAuthority)" "authorityValid demoAuthority"
    "authorityValid (demoAuthority\<lparr>ca_binding := 4\<rparr>)" by code_simp+
  have "demoAuthority \<noteq> demoAuthority\<lparr>ca_binding := 4\<rparr>
      \<and> demoAuthority = (demoAuthority\<lparr>ca_binding := 4\<rparr>)\<lparr>ca_binding := ca_binding demoAuthority\<rparr>
      \<and> authorityEndpoint demoAuthority = authorityEndpoint (demoAuthority\<lparr>ca_binding := 4\<rparr>)"
    by (simp add: demoAuthority_def authorityEndpoint_def)
  then show ?thesis using authority_refusals_name_first_difference [OF v] by blast
qed

text \<open>C28: No surface is actionable without authority: a notification, sidebar, status bar or reply affordance
  is offered only when the mutation is exact, the lifecycle is authoritative for that endpoint and
  its generation current or draining, and the interaction waits for the user; a reply affordance
  only for an approval or an input; and then the fence is the digest of exactly that tuple.\<close>

theorem actionable_surfaces_need_authority:
  assumes "c = ProjectConsumers digest lc i notify"
    and "cp_notification c \<or> cp_sidebar c \<or> cp_statusbar c \<or> cp_reply c"
  shows "exactMutation i \<and> Authoritative lc \<and> li_state lc \<in> {StateCurrent, StateDraining}
    \<and> li_interaction lc \<in> {InteractionApprovalRequired, InteractionInputRequired, InteractionResponseComplete}
    \<and> (cp_reply c \<longrightarrow> li_interaction lc \<noteq> InteractionResponseComplete)
    \<and> (cp_notification c \<longrightarrow> notify)
    \<and> (\<exists>p. mi_presented i = Some p \<and> li_endpoint lc = Some (authorityEndpoint p)
         \<and> cp_fence c = ''sha256:'' @ digest (joinNul (fenceParts (authorityEndpoint p) p)))"
proof -
  obtain e p where ep: "li_endpoint lc = Some e" "mi_presented i = Some p" and a: "Authoritative lc"
    using assms by (auto simp: ProjectConsumers_def Let_def split: option.splits if_splits)
  from assms ep a have x: "exactMutation i" and same: "endpointSame e (authorityEndpoint p)"
    and reply: "lp_attention (ProjectLifecycle lc) = ''reply''"
    and c: "cp_fence c = ConsumerFence digest e p" "cp_notification c = notify"
      "cp_reply c = (li_interaction lc = InteractionApprovalRequired \<or> li_interaction lc = InteractionInputRequired)"
    by (auto simp: ProjectConsumers_def Let_def DecideRuntimeMutation_exact [symmetric] split: if_splits)
  from x ep have v: "authorityValid p" by (auto simp: exactMutation_def split: option.splits)
  have st: "li_state lc \<in> {StateCurrent, StateDraining}"
    and it: "li_interaction lc \<in> {InteractionApprovalRequired, InteractionInputRequired, InteractionResponseComplete}"
    using reply a ep
    by (cases "li_state lc"; cases "li_interaction lc";
        auto simp: ProjectLifecycle_def Let_def emptyLifecycle_def Authoritative_def ValidAgentInteractionKind_def
          AgentInteractionKinds_def GenerationStates_def split: if_splits)+
  have "e = authorityEndpoint p" using same by (simp add: endpointSame_iff)
  with v have "cp_fence c = ''sha256:'' @ digest (joinNul (fenceParts (authorityEndpoint p) p))"
    by (simp add: c ConsumerFence_def endpointSame_iff authorityEndpoint_valid)
  with x a st it ep c \<open>e = authorityEndpoint p\<close> show ?thesis by auto
qed

theorem actionable_surfaces_need_authority_witness:
  "cp_reply (ProjectConsumers id demoLifecycle demoMutation True) \<and> exactMutation demoMutation"
proof -
  have r: "cp_reply (ProjectConsumers id demoLifecycle demoMutation True)" by code_simp
  with actionable_surfaces_need_authority [of _ id demoLifecycle demoMutation True] show ?thesis by blast
qed

text \<open>C29: The fence key identifies the authority: the text that is digested for two valid authorities is the same
  only when all five dimensions are, and it is read back from its parts.\<close>

theorem fence_key_is_injective:
  assumes "authorityValid a" and "authorityValid b"
  shows "joinNul (fenceParts (authorityEndpoint a) a) = joinNul (fenceParts (authorityEndpoint b) b) \<longleftrightarrow> a = b"
  using fenceKey_inj [of "authorityEndpoint a" a "authorityEndpoint b" b] assms authorityEndpoint_valid by auto

theorem fence_key_is_injective_witness:
  "authorityValid demoAuthority \<and> authorityValid (demoAuthority\<lparr>ca_connection := 8\<rparr>)
   \<and> joinNul (fenceParts (authorityEndpoint demoAuthority) demoAuthority)
     \<noteq> joinNul (fenceParts (authorityEndpoint (demoAuthority\<lparr>ca_connection := 8\<rparr>)) (demoAuthority\<lparr>ca_connection := 8\<rparr>))"
proof -
  have v: "authorityValid demoAuthority" "authorityValid (demoAuthority\<lparr>ca_connection := 8\<rparr>)" by code_simp+
  moreover have "demoAuthority \<noteq> demoAuthority\<lparr>ca_connection := 8\<rparr>" by (simp add: demoAuthority_def)
  ultimately show ?thesis using fence_key_is_injective [OF v] by blast
qed

end
