(* ===== verification/Progress.thy ===== *)
theory Progress
  imports Model "HOL-Library.Multiset"
begin

text \<open>
  \<^verbatim>\<open>internal/core/agentprogress/reducer.go\<close>: the reducer of provider events into the one current-turn
  Agent progress projection. It retains at most 32 opaque item references per turn, saturates its
  diagnostic counters and emits at most one durable write per 250 ms. A Go map is an association list
  with distinct keys; a nil map is \<open>None\<close>, on which a write panics.
\<close>

section \<open>State\<close>

text \<open>250 ms in nanoseconds.\<close>

definition MinWriteInterval :: int where "MinWriteInterval = 250000000"

definition AgentProgressItemsCap :: nat where "AgentProgressItemsCap = 32"

definition AgentProgressSource :: string where "AgentProgressSource = ''provider-control-plane''"

definition ValidAgentProgressActivity :: "progress_activity \<Rightarrow> bool" where
  "ValidAgentProgressActivity a \<longleftrightarrow> a = ProgressNone \<or> a \<in> set AgentProgressActivities"

datatype progress_event_kind =
    EventTurnStarted | EventTurnTerminal | EventPlanUpdated | EventDiffUpdated | EventItemStarted
  | EventItemCompleted | EventKindOther "8 word"

record progress_event =
  pe_kind :: progress_event_kind
  pe_thread :: string
  pe_turn :: string
  pe_item :: string
  pe_activity :: progress_activity
  pe_completed :: "8 word"
  pe_in_progress :: "8 word"
  pe_total :: "8 word"
  pe_plan_truncated :: bool
  pe_files :: "16 word"
  pe_files_truncated :: bool
  pe_started :: time
  pe_observed :: time
  pe_unknown :: "32 word"

record diagnostics =
  dg_dropped :: "32 word"
  dg_unknown :: "32 word"
  dg_overflow :: "32 word"

record item_state =
  it_activity :: progress_activity
  it_sequence :: "64 word"
  it_active :: bool

definition zeroItem :: item_state where
  "zeroItem = \<lparr>it_activity = ProgressNone, it_sequence = 0, it_active = False\<rparr>"

type_synonym items = "(string \<times> item_state) list"

record reducer =
  rd_progress :: progress
  rd_items :: "items option"
  rd_sequence :: "64 word"
  rd_overflowed :: bool
  rd_diagnostics :: diagnostics
  rd_pending :: bool
  rd_clear :: bool
  rd_last :: progress
  rd_last_write :: time

definition zeroReducer :: reducer where
  "zeroReducer = \<lparr>rd_progress = emptyProgress, rd_items = None, rd_sequence = 0, rd_overflowed = False,
     rd_diagnostics = \<lparr>dg_dropped = 0, dg_unknown = 0, dg_overflow = 0\<rparr>, rd_pending = False, rd_clear = False,
     rd_last = emptyProgress, rd_last_write = zeroTime\<rparr>"

section \<open>Saturating counters and map access\<close>

definition saturatingIncrement :: "32 word \<Rightarrow> 32 word" where
  "saturatingIncrement v = (if v \<noteq> - 1 then v + 1 else v)"

definition saturatingAdd :: "32 word \<Rightarrow> 32 word \<Rightarrow> 32 word" where
  "saturatingAdd v increment = (if increment > - 1 - v then - 1 else v + increment)"

definition drop1 :: "reducer \<Rightarrow> reducer" where
  "drop1 r = r\<lparr>rd_diagnostics := (rd_diagnostics r)\<lparr>dg_dropped := saturatingIncrement (dg_dropped (rd_diagnostics r))\<rparr>\<rparr>"

definition itemsLen :: "reducer \<Rightarrow> nat" where
  "itemsLen r = (case rd_items r of None \<Rightarrow> 0 | Some m \<Rightarrow> length m)"

definition getItem :: "reducer \<Rightarrow> string \<Rightarrow> item_state option" where
  "getItem r ref = (case rd_items r of None \<Rightarrow> None | Some m \<Rightarrow> map_of m ref)"

fun putEntry :: "string \<Rightarrow> item_state \<Rightarrow> items \<Rightarrow> items" where
  "putEntry ref it [] = [(ref, it)]"
| "putEntry ref it ((k, v) # m) = (if k = ref then (k, it) # m else (k, v) # putEntry ref it m)"

definition putItem :: "reducer \<Rightarrow> string \<Rightarrow> item_state \<Rightarrow> error + reducer" where
  "putItem r ref it = (case rd_items r of
     None \<Rightarrow> Inl (Panic ''assignment to entry in nil map'')
   | Some m \<Rightarrow> Inr (r\<lparr>rd_items := Some (putEntry ref it m)\<rparr>))"

section \<open>Items\<close>

text \<open>The loop of \<open>refreshActivity\<close> over the items, in the order the list gives them.\<close>

fun latestActive :: "items \<Rightarrow> nat \<times> item_state \<Rightarrow> nat \<times> item_state" where
  "latestActive [] acc = acc"
| "latestActive ((_, it) # m) (n, latest) =
     (if \<not> it_active it then latestActive m (n, latest)
      else latestActive m (n + 1, if it_sequence it > it_sequence latest then it else latest))"

definition refreshActivity :: "reducer \<Rightarrow> reducer" where
  "refreshActivity r = (let (n, latest) = latestActive (case rd_items r of None \<Rightarrow> [] | Some m \<Rightarrow> m) (0, zeroItem)
     in r\<lparr>rd_progress := (rd_progress r)\<lparr>pg_active_items := of_nat n,
            pg_activity := (if rd_overflowed r then ProgressMisc else it_activity latest)\<rparr>\<rparr>)"

definition overflow :: "reducer \<Rightarrow> reducer" where
  "overflow r = (let r = drop1 (r\<lparr>rd_overflowed := True\<rparr>)
     in r\<lparr>rd_diagnostics := (rd_diagnostics r)\<lparr>dg_overflow := saturatingIncrement (dg_overflow (rd_diagnostics r))\<rparr>,
          rd_progress := (rd_progress r)\<lparr>pg_activity := ProgressMisc\<rparr>\<rparr>)"

definition observeItemStarted :: "reducer \<Rightarrow> progress_event \<Rightarrow> error + reducer" where
  "observeItemStarted r ev =
     (if pe_item ev = '''' \<or> \<not> ValidAgentProgressActivity (pe_activity ev) \<or> pe_activity ev = ProgressNone
      then Inr (drop1 r)
      else if getItem r (pe_item ev) \<noteq> None then Inr r
      else if itemsLen r \<ge> AgentProgressItemsCap then Inr (overflow r)
      else let r = r\<lparr>rd_sequence := rd_sequence r + 1\<rparr>
        in map_sum id refreshActivity
             (putItem r (pe_item ev) \<lparr>it_activity = pe_activity ev, it_sequence = rd_sequence r, it_active = True\<rparr>))"

definition observeItemCompleted :: "reducer \<Rightarrow> progress_event \<Rightarrow> error + reducer" where
  "observeItemCompleted r ev =
     (if pe_item ev = '''' then Inr (drop1 r)
      else case getItem r (pe_item ev) of
        None \<Rightarrow> if itemsLen r \<ge> AgentProgressItemsCap then Inr (overflow r)
                else putItem r (pe_item ev) zeroItem
      | Some it \<Rightarrow>
          if \<not> it_active it then Inr r
          else map_sum id refreshActivity (putItem r (pe_item ev) (it\<lparr>it_active := False\<rparr>)))"

section \<open>Operations\<close>

definition resetTurn :: "reducer \<Rightarrow> string \<Rightarrow> time \<Rightarrow> time \<Rightarrow> reducer" where
  "resetTurn r turn started observed = r\<lparr>
     rd_progress := emptyProgress\<lparr>pg_turn := turn, pg_started := started, pg_observed := observed,
       pg_source := AgentProgressSource\<rparr>,
     rd_items := Some [], rd_sequence := 0, rd_overflowed := False, rd_pending := False, rd_clear := False\<rparr>"

definition BeginTurn :: "reducer \<Rightarrow> string \<Rightarrow> time \<Rightarrow> time \<Rightarrow> reducer" where
  "BeginTurn r turn started observed = (let r = resetTurn r turn started observed
     in if turn \<noteq> '''' then r\<lparr>rd_pending := True\<rparr> else r)"

definition Invalidate :: "reducer \<Rightarrow> reducer \<times> bool" where
  "Invalidate r = (let durable = \<not> progressIsZero (rd_last r) in
     (r\<lparr>rd_progress := emptyProgress, rd_items := None, rd_pending := False, rd_clear := durable\<rparr>, durable))"

definition sameSemanticProgress :: "progress \<Rightarrow> progress \<Rightarrow> bool" where
  "sameSemanticProgress a b \<longleftrightarrow> a\<lparr>pg_observed := zeroTime\<rparr> = b\<lparr>pg_observed := zeroTime\<rparr>"

text \<open>The event switch of \<open>Observe\<close>: \<open>None\<close> is its default branch, an unknown kind.\<close>

definition observeKind :: "reducer \<Rightarrow> progress_event \<Rightarrow> (error + reducer) option" where
  "observeKind r ev = (case pe_kind ev of
     EventPlanUpdated \<Rightarrow> Some (Inr (r\<lparr>rd_progress := (rd_progress r)\<lparr>pg_completed := pe_completed ev,
         pg_in_progress := pe_in_progress ev, pg_total := pe_total ev,
         pg_plan_truncated := pe_plan_truncated ev\<rparr>\<rparr>))
   | EventDiffUpdated \<Rightarrow> Some (Inr (r\<lparr>rd_progress := (rd_progress r)\<lparr>pg_files := pe_files ev,
         pg_files_truncated := pe_files_truncated ev\<rparr>\<rparr>))
   | EventItemStarted \<Rightarrow> Some (observeItemStarted r ev)
   | EventItemCompleted \<Rightarrow> Some (observeItemCompleted r ev)
   | _ \<Rightarrow> None)"

text \<open>What \<open>Observe\<close> does with an event of the current turn.\<close>

definition observeTurn :: "reducer \<Rightarrow> progress_event \<Rightarrow> error + reducer \<times> bool" where
  "observeTurn r ev = (case observeKind r ev of
     None \<Rightarrow> Inr (r, False)
   | Some (Inl e) \<Rightarrow> Inl e
   | Some (Inr r') \<Rightarrow>
       if sameSemanticProgress (rd_progress r) (rd_progress r') then Inr (r', False)
       else Inr ((if \<not> timeIsZero (pe_observed ev)
                  then r'\<lparr>rd_progress := (rd_progress r')\<lparr>pg_observed := pe_observed ev\<rparr>\<rparr> else r')
                 \<lparr>rd_pending := True\<rparr>, True))"

definition countUnknown :: "reducer \<Rightarrow> progress_event \<Rightarrow> reducer" where
  "countUnknown r ev = (if pe_unknown ev > 0
     then r\<lparr>rd_diagnostics := (rd_diagnostics r)\<lparr>dg_unknown := saturatingAdd (dg_unknown (rd_diagnostics r)) (pe_unknown ev)\<rparr>\<rparr>
     else r)"

definition Observe :: "reducer \<Rightarrow> progress_event \<Rightarrow> error + reducer \<times> bool" where
  "Observe r0 ev = (let r = countUnknown r0 ev in
     if pe_turn ev = '''' then Inr (r, False)
     else if pe_kind ev = EventTurnStarted then
       (if pe_turn ev = pg_turn (rd_progress r) then Inr (r, False)
        else Inr ((resetTurn r (pe_turn ev) (pe_started ev) (pe_observed ev))\<lparr>rd_pending := True\<rparr>, True))
     else if pe_turn ev \<noteq> pg_turn (rd_progress r) \<or> pg_turn (rd_progress r) = '''' then Inr (drop1 r, False)
     else if pe_kind ev = EventTurnTerminal then
       (let clear = \<not> progressIsZero (rd_last r)
        in Inr (r\<lparr>rd_progress := emptyProgress, rd_items := None, rd_pending := False, rd_clear := clear\<rparr>, clear))
     else if \<not> timeIsZero (pe_observed ev) \<and> \<not> timeIsZero (pg_observed (rd_progress r))
       \<and> pe_observed ev < pg_observed (rd_progress r) then Inr (drop1 r, False)
     else observeTurn r ev)"

definition Flush :: "reducer \<Rightarrow> time \<Rightarrow> reducer \<times> progress option" where
  "Flush r now =
     (if rd_clear r then (r\<lparr>rd_clear := False, rd_last := emptyProgress\<rparr>, Some emptyProgress)
      else if \<not> rd_pending r then (r, None)
      else if \<not> timeIsZero (rd_last_write r) \<and> now - rd_last_write r < MinWriteInterval then (r, None)
      else (r\<lparr>rd_pending := False, rd_last_write := now, rd_last := rd_progress r\<rparr>, Some (rd_progress r)))"

section \<open>Traces\<close>

datatype progress_call =
    CallBegin string time time | CallObserve progress_event | CallInvalidate | CallFlush time

definition progressStep :: "reducer \<Rightarrow> progress_call \<Rightarrow> error + reducer \<times> (time \<times> progress) list" where
  "progressStep r c = (case c of
     CallBegin turn started observed \<Rightarrow> Inr (BeginTurn r turn started observed, [])
   | CallObserve ev \<Rightarrow> map_sum id (\<lambda>(r, _). (r, [])) (Observe r ev)
   | CallInvalidate \<Rightarrow> Inr (fst (Invalidate r), [])
   | CallFlush now \<Rightarrow> (case Flush r now of (r', None) \<Rightarrow> Inr (r', []) | (r', Some p) \<Rightarrow> Inr (r', [(now, p)])))"

text \<open>A run of calls, with the durable writes it emitted in order.\<close>

fun progressRun :: "reducer \<Rightarrow> progress_call list \<Rightarrow> error + reducer \<times> (time \<times> progress) list" where
  "progressRun r [] = Inr (r, [])"
| "progressRun r (c # cs) = (case progressStep r c of
     Inl e \<Rightarrow> Inl e
   | Inr (r', out) \<Rightarrow> map_sum id (\<lambda>(r'', out'). (r'', out @ out')) (progressRun r' cs))"

section \<open>The item table\<close>

definition activeItems :: "items \<Rightarrow> items" where
  "activeItems m = filter (\<lambda>kv. it_active (snd kv)) m"

text \<open>
  What the table of a turn looks like: distinct references, at most 32 of them, and active items with
  distinct sequence numbers between 1 and the counter.
\<close>

definition itemsOK :: "64 word \<Rightarrow> items \<Rightarrow> bool" where
  "itemsOK q m \<longleftrightarrow> distinct (map fst m) \<and> length m \<le> AgentProgressItemsCap \<and> unat q \<le> length m
     \<and> (\<forall>it \<in> snd ` set (activeItems m). 0 < it_sequence it \<and> it_sequence it \<le> q
          \<and> it_activity it \<in> set AgentProgressActivities)
     \<and> distinct (map (\<lambda>kv. it_sequence (snd kv)) (activeItems m))"

lemma putEntry_new: "map_of m ref = None \<Longrightarrow> putEntry ref it m = m @ [(ref, it)]"
  by (induction m) (auto split: if_splits)

lemma putEntry_old:
  "map_of m ref = Some old \<Longrightarrow>
   \<exists>xs ys. m = xs @ (ref, old) # ys \<and> putEntry ref it m = xs @ (ref, it) # ys"
proof (induction m)
  case (Cons kv m)
  obtain k v where kv: "kv = (k, v)" by fastforce
  show ?case
  proof (cases "k = ref")
    case True
    with Cons.prems kv show ?thesis by (intro exI [of _ "[]"] exI [of _ m]) simp
  next
    case False
    with Cons kv obtain xs ys where "m = xs @ (ref, old) # ys" "putEntry ref it m = xs @ (ref, it) # ys"
      by auto
    with False kv show ?thesis by (intro exI [of _ "kv # xs"] exI [of _ ys]) simp
  qed
qed simp

lemma activeItems_append:
  "activeItems (m @ [kv]) = activeItems m @ (if it_active (snd kv) then [kv] else [])"
  by (simp add: activeItems_def)

lemma itemsOK_Nil [simp]: "itemsOK 0 []"
  by (simp add: itemsOK_def activeItems_def)

lemma itemsOK_start:
  assumes "itemsOK q m" and "map_of m ref = None" and "length m < AgentProgressItemsCap"
    and "a \<in> set AgentProgressActivities"
  shows "itemsOK (q + 1) (m @ [(ref, \<lparr>it_activity = a, it_sequence = q + 1, it_active = True\<rparr>)])"
proof -
  have small: "unat q < 32" using assms(1,3) by (simp add: itemsOK_def AgentProgressItemsCap_def)
  then have q1: "unat (q + 1) = unat q + 1" by (simp add: unat_word_ariths)
  then have lt: "q < q + 1" by (simp add: word_less_nat_alt)
  have "0 < q + 1" using lt by (metis word_gt_0 word_not_simps(1))
  moreover have "q + 1 \<notin> (\<lambda>kv. it_sequence (snd kv)) ` set (activeItems m)"
    and "\<forall>it \<in> snd ` set (activeItems m). it_sequence it \<le> q + 1"
    using assms(1) lt unfolding itemsOK_def by (force, fastforce)
  moreover have "ref \<notin> fst ` set m" using assms(2) by (simp add: map_of_eq_None_iff)
  ultimately show ?thesis
    using assms q1 by (auto simp: itemsOK_def activeItems_append)
qed

lemma itemsOK_finish:
  assumes "itemsOK q m" and "map_of m ref = None" and "length m < AgentProgressItemsCap"
  shows "itemsOK q (m @ [(ref, zeroItem)])"
proof -
  have "ref \<notin> fst ` set m" using assms(2) by (simp add: map_of_eq_None_iff)
  then show ?thesis using assms by (auto simp: itemsOK_def activeItems_def zeroItem_def)
qed

lemma itemsOK_deactivate:
  assumes "itemsOK q m" and "map_of m ref = Some it"
  shows "itemsOK q (putEntry ref (it\<lparr>it_active := False\<rparr>) m)"
proof -
  obtain xs ys where "m = xs @ (ref, it) # ys" "putEntry ref (it\<lparr>it_active := False\<rparr>) m = xs @ (ref, it\<lparr>it_active := False\<rparr>) # ys"
    using putEntry_old [OF assms(2)] by blast
  with assms(1) show ?thesis by (auto simp: itemsOK_def activeItems_def split: if_splits)
qed

lemma latestActive_count: "fst (latestActive m (n, l)) = n + length (activeItems m)"
  by (induction m "(n, l)" arbitrary: n l rule: latestActive.induct) (auto simp: activeItems_def)

text \<open>The maximum by sequence number: the loop's result is determined by what it ranges over.\<close>

lemma latestActive_max:
  "snd (latestActive m (n, l)) \<in> insert l (snd ` set (activeItems m))
   \<and> (\<forall>it \<in> insert l (snd ` set (activeItems m)). it_sequence it \<le> it_sequence (snd (latestActive m (n, l))))"
proof (induction m arbitrary: n l)
  case (Cons kv m)
  obtain k it where kv: "kv = (k, it)" by fastforce
  show ?case
  proof (cases "it_active it")
    case True
    define l' where "l' = (if it_sequence it > it_sequence l then it else l)"
    have "it_sequence l \<le> it_sequence l'" "it_sequence it \<le> it_sequence l'" "l' = it \<or> l' = l"
      by (auto simp: l'_def)
    moreover have "latestActive (kv # m) (n, l) = latestActive m (n + 1, l')"
      using True by (simp add: kv l'_def)
    moreover have "activeItems (kv # m) = kv # activeItems m" using True by (simp add: kv activeItems_def)
    ultimately show ?thesis using Cons.IH [of "n + 1" l'] by (auto simp: kv)
  next
    case False
    then have "latestActive (kv # m) (n, l) = latestActive m (n, l)" "activeItems (kv # m) = activeItems m"
      by (simp_all add: kv activeItems_def)
    with Cons.IH [of n l] show ?thesis by simp
  qed
qed (simp add: activeItems_def)

lemma activeItems_inj:
  assumes "itemsOK q m" and "x \<in> snd ` set (activeItems m)" and "y \<in> snd ` set (activeItems m)"
    and "it_sequence x = it_sequence y"
  shows "x = y"
proof -
  from assms(2,3) obtain i j where "(i, x) \<in> set (activeItems m)" "(j, y) \<in> set (activeItems m)" by auto
  moreover have "inj_on (\<lambda>kv. it_sequence (snd kv)) (set (activeItems m))"
    using assms(1) by (simp add: itemsOK_def distinct_map)
  ultimately have "(i, x) = (j, y)" using assms(4) unfolding inj_on_def by (metis snd_conv)
  then show ?thesis by simp
qed

text \<open>Go iterates a map in no fixed order: every order of the same table gives the same activity.\<close>

lemma latestActive_order:
  assumes "itemsOK q m" and "mset m' = mset m"
  shows "latestActive m' (0, zeroItem) = latestActive m (0, zeroItem)"
proof -
  have ms: "mset (activeItems m') = mset (activeItems m)"
    using assms(2) by (simp add: activeItems_def)
  then have eq: "snd ` set (activeItems m') = snd ` set (activeItems m)" and "length (activeItems m') = length (activeItems m)"
    by (metis set_mset_mset, metis size_mset)
  then have "fst (latestActive m' (0, zeroItem)) = fst (latestActive m (0, zeroItem))"
    by (simp add: latestActive_count)
  moreover have "snd (latestActive m' (0, zeroItem)) = snd (latestActive m (0, zeroItem))"
  proof -
    let ?S = "insert zeroItem (snd ` set (activeItems m))"
    let ?a = "snd (latestActive m' (0, zeroItem))" and ?b = "snd (latestActive m (0, zeroItem))"
    have in_S: "?a \<in> ?S" "?b \<in> ?S" and "it_sequence ?a = it_sequence ?b"
      using latestActive_max [of m' 0 zeroItem] latestActive_max [of m 0 zeroItem]
      unfolding eq by (blast, blast, meson order.antisym)
    moreover have "it_sequence x \<noteq> it_sequence zeroItem" if "x \<in> snd ` set (activeItems m)" for x
      using assms(1) that by (auto simp: itemsOK_def zeroItem_def)
    ultimately show ?thesis using activeItems_inj [OF assms(1)] by (metis insert_iff)
  qed
  ultimately show ?thesis by (rule prod_eqI)
qed

section \<open>The reducer invariant\<close>

text \<open>The projection agrees with the item table, and is bounded.\<close>

definition projectionOK :: "progress \<Rightarrow> items \<Rightarrow> bool" where
  "projectionOK p m \<longleftrightarrow> pg_turn p \<noteq> '''' \<and> pg_source p = AgentProgressSource
     \<and> ValidAgentProgressActivity (pg_activity p)
     \<and> pg_active_items p = of_nat (length (activeItems m))"

text \<open>A reducer is idle, with nothing projected, or in a turn with its table.\<close>

definition turnOK :: "reducer \<Rightarrow> bool" where
  "turnOK r \<longleftrightarrow> (rd_items r = None \<and> rd_progress r = emptyProgress \<and> \<not> rd_pending r)
     \<or> (\<exists>m. rd_items r = Some m \<and> itemsOK (rd_sequence r) m \<and> projectionOK (rd_progress r) m \<and> \<not> rd_clear r)"

definition reducerInv :: "reducer \<Rightarrow> bool" where
  "reducerInv r \<longleftrightarrow> turnOK r \<and> (\<not> rd_pending r \<and> \<not> rd_clear r \<longrightarrow> rd_last r = rd_progress r)"

lemma emptyProgress_turn [simp]: "pg_turn emptyProgress = ''''" "pg_source emptyProgress = ''''"
  by (simp_all add: emptyProgress_def)

lemma turnOK_turn: "turnOK r \<Longrightarrow> pg_turn (rd_progress r) \<noteq> '''' \<Longrightarrow>
  \<exists>m. rd_items r = Some m \<and> itemsOK (rd_sequence r) m \<and> projectionOK (rd_progress r) m \<and> \<not> rd_clear r"
  by (auto simp: turnOK_def)

lemma latestActive_activity:
  assumes "itemsOK q m"
  shows "ValidAgentProgressActivity (it_activity (snd (latestActive m (0, zeroItem))))"
  using latestActive_max [of m 0 zeroItem] assms
  by (auto simp: itemsOK_def ValidAgentProgressActivity_def zeroItem_def)

lemma Misc_valid [simp]: "ValidAgentProgressActivity ProgressMisc"
  by (simp add: ValidAgentProgressActivity_def AgentProgressActivities_def)

lemma refreshActivity_simps [simp]:
  "rd_items (refreshActivity r) = rd_items r" "rd_sequence (refreshActivity r) = rd_sequence r"
  "rd_clear (refreshActivity r) = rd_clear r" "rd_last (refreshActivity r) = rd_last r"
  "rd_pending (refreshActivity r) = rd_pending r" "rd_last_write (refreshActivity r) = rd_last_write r"
  by (simp_all add: refreshActivity_def split: prod.splits)

lemma refreshActivity_projection:
  assumes "rd_items r = Some m" and "itemsOK q m" and "pg_turn (rd_progress r) \<noteq> ''''"
    and "pg_source (rd_progress r) = AgentProgressSource"
  shows "projectionOK (rd_progress (refreshActivity r)) m"
  using assms latestActive_activity [OF assms(2)] latestActive_count [of m 0 zeroItem]
  by (cases "latestActive m (0, zeroItem)") (simp add: refreshActivity_def projectionOK_def)

text \<open>What an item event keeps: it never panics in a turn, and touches neither the flags nor the last write.\<close>

definition sameFlags :: "reducer \<Rightarrow> reducer \<Rightarrow> bool" where
  "sameFlags r r' \<longleftrightarrow> rd_pending r' = rd_pending r \<and> rd_clear r' = rd_clear r \<and> rd_last r' = rd_last r
     \<and> rd_last_write r' = rd_last_write r \<and> pg_observed (rd_progress r') = pg_observed (rd_progress r)
     \<and> pg_turn (rd_progress r') = pg_turn (rd_progress r)"

definition inTurn :: "reducer \<Rightarrow> items \<Rightarrow> bool" where
  "inTurn r m \<longleftrightarrow> rd_items r = Some m \<and> itemsOK (rd_sequence r) m \<and> projectionOK (rd_progress r) m"

lemma drop1_simps [simp]:
  "rd_items (drop1 r) = rd_items r" "rd_sequence (drop1 r) = rd_sequence r" "rd_progress (drop1 r) = rd_progress r"
  "rd_pending (drop1 r) = rd_pending r" "rd_clear (drop1 r) = rd_clear r" "rd_last (drop1 r) = rd_last r"
  "rd_last_write (drop1 r) = rd_last_write r"
  by (simp_all add: drop1_def)

lemma refresh_flags: "sameFlags r (refreshActivity r)"
  by (auto simp: sameFlags_def refreshActivity_def split: prod.splits)

lemma inTurn_refresh:
  assumes "rd_items r = Some m" and "itemsOK (rd_sequence r) m" and "projectionOK (rd_progress r) m'"
  shows "inTurn (refreshActivity r) m"
  using assms by (simp add: inTurn_def) (rule refreshActivity_projection, auto simp: projectionOK_def)

lemma overflow_inTurn: "inTurn r m \<Longrightarrow> inTurn (overflow r) m \<and> sameFlags r (overflow r)"
  by (auto simp: inTurn_def overflow_def Let_def projectionOK_def sameFlags_def)

lemma observeItemStarted_inTurn:
  assumes "inTurn r m"
  shows "\<exists>r' m'. observeItemStarted r ev = Inr r' \<and> inTurn r' m' \<and> sameFlags r r'"
proof -
  have items: "rd_items r = Some m" "itemsOK (rd_sequence r) m" "projectionOK (rd_progress r) m"
    using assms by (auto simp: inTurn_def)
  let ?bad = "pe_item ev = '''' \<or> \<not> ValidAgentProgressActivity (pe_activity ev) \<or> pe_activity ev = ProgressNone"
  let ?it = "\<lparr>it_activity = pe_activity ev, it_sequence = rd_sequence r + 1, it_active = True\<rparr>"
  consider "?bad" | "\<not> ?bad" "map_of m (pe_item ev) \<noteq> None"
    | "\<not> ?bad" "map_of m (pe_item ev) = None" "length m \<ge> AgentProgressItemsCap"
    | "\<not> ?bad" "map_of m (pe_item ev) = None" "length m < AgentProgressItemsCap"
    by linarith
  then show ?thesis
  proof cases
    case 1
    with assms show ?thesis by (auto simp: observeItemStarted_def inTurn_def sameFlags_def)
  next
    case 2
    with assms items show ?thesis by (auto simp: observeItemStarted_def getItem_def sameFlags_def)
  next
    case 3
    with overflow_inTurn [OF assms] items show ?thesis
      by (auto simp: observeItemStarted_def getItem_def itemsLen_def)
  next
    case 4
    let ?m = "m @ [(pe_item ev, ?it)]"
    let ?r = "r\<lparr>rd_sequence := rd_sequence r + 1, rd_items := Some ?m\<rparr>"
    have "observeItemStarted r ev = Inr (refreshActivity ?r)"
      using 4 items by (simp add: observeItemStarted_def getItem_def itemsLen_def putItem_def Let_def putEntry_new)
    moreover have "itemsOK (rd_sequence r + 1) ?m"
      using 4 items by (intro itemsOK_start) (auto simp: ValidAgentProgressActivity_def)
    then have "inTurn (refreshActivity ?r) ?m" using items(3) by (intro inTurn_refresh [where m' = m]) auto
    moreover have "sameFlags r (refreshActivity ?r)"
      using refresh_flags [of ?r] by (simp add: sameFlags_def)
    ultimately show ?thesis by blast
  qed
qed

lemma observeItemCompleted_inTurn:
  assumes "inTurn r m"
  shows "\<exists>r' m'. observeItemCompleted r ev = Inr r' \<and> inTurn r' m' \<and> sameFlags r r'"
proof (cases "pe_item ev = ''''")
  case True
  with assms show ?thesis by (auto simp: observeItemCompleted_def inTurn_def sameFlags_def)
next
  case False
  have items: "rd_items r = Some m" "itemsOK (rd_sequence r) m" "projectionOK (rd_progress r) m"
    using assms by (auto simp: inTurn_def)
  show ?thesis
  proof (cases "map_of m (pe_item ev)")
    case None
    show ?thesis
    proof (cases "length m \<ge> AgentProgressItemsCap")
      case True
      with None False overflow_inTurn [OF assms] items show ?thesis
        by (auto simp: observeItemCompleted_def getItem_def itemsLen_def)
    next
      case small: False
      let ?m = "m @ [(pe_item ev, zeroItem)]"
      have "observeItemCompleted r ev = Inr (r\<lparr>rd_items := Some ?m\<rparr>)"
        using None False small items
        by (simp add: observeItemCompleted_def getItem_def itemsLen_def putItem_def putEntry_new)
      moreover have "itemsOK (rd_sequence r) ?m" using None small items by (intro itemsOK_finish) auto
      moreover have "activeItems ?m = activeItems m" by (simp add: activeItems_append zeroItem_def)
      ultimately show ?thesis
        using items(3) by (intro exI [of _ "r\<lparr>rd_items := Some ?m\<rparr>"] exI [of _ ?m])
          (simp add: inTurn_def sameFlags_def projectionOK_def)
    qed
  next
    case (Some it)
    let ?m = "putEntry (pe_item ev) (it\<lparr>it_active := False\<rparr>) m"
    let ?r = "r\<lparr>rd_items := Some ?m\<rparr>"
    show ?thesis
    proof (cases "it_active it")
      case True
      with Some False items have "observeItemCompleted r ev = Inr (refreshActivity ?r)"
        by (simp add: observeItemCompleted_def getItem_def putItem_def)
      moreover have "inTurn (refreshActivity ?r) ?m"
        using items itemsOK_deactivate [OF items(2) Some] by (intro inTurn_refresh [where m' = m]) auto
      moreover have "sameFlags r (refreshActivity ?r)"
        using refresh_flags [of ?r] by (simp add: sameFlags_def)
      ultimately show ?thesis by blast
    next
      case inactive: False
      with Some False items assms show ?thesis by (auto simp: observeItemCompleted_def getItem_def sameFlags_def)
    qed
  qed
qed

section \<open>Every call keeps the invariant\<close>

lemma sameSemantic_eq:
  "sameSemanticProgress a b \<Longrightarrow> pg_observed a = pg_observed b \<Longrightarrow> a = b"
  by (cases a; cases b) (simp add: sameSemanticProgress_def)

lemma turnOK_iff:
  "turnOK r \<longleftrightarrow> (rd_items r = None \<and> rd_progress r = emptyProgress \<and> \<not> rd_pending r)
     \<or> (\<exists>m. inTurn r m \<and> \<not> rd_clear r)"
  by (auto simp: turnOK_def inTurn_def)

lemma inTurn_observed [simp]:
  "inTurn (r\<lparr>rd_progress := (rd_progress r)\<lparr>pg_observed := t\<rparr>, rd_pending := b\<rparr>) m = inTurn r m"
  "inTurn (r\<lparr>rd_progress := (rd_progress r)\<lparr>pg_observed := t\<rparr>\<rparr>) m = inTurn r m"
  "inTurn (r\<lparr>rd_pending := b\<rparr>) m = inTurn r m"
  by (simp_all add: inTurn_def projectionOK_def)

lemma observeKind_inTurn:
  assumes "inTurn r m"
  shows "observeKind r ev = None \<or> (\<exists>r' m'. observeKind r ev = Some (Inr r') \<and> inTurn r' m' \<and> sameFlags r r')"
proof (cases "pe_kind ev")
  case EventItemStarted
  with observeItemStarted_inTurn [OF assms, of ev] show ?thesis by (auto simp: observeKind_def)
next
  case EventItemCompleted
  with observeItemCompleted_inTurn [OF assms, of ev] show ?thesis by (auto simp: observeKind_def)
qed (use assms in \<open>auto simp: observeKind_def inTurn_def sameFlags_def projectionOK_def\<close>)

lemma observeTurn_inv:
  assumes "inTurn r m" and "\<not> rd_clear r" and sync: "\<not> rd_pending r \<longrightarrow> rd_last r = rd_progress r"
  shows "\<exists>r' b. observeTurn r ev = Inr (r', b) \<and> reducerInv r' \<and> rd_last r' = rd_last r
    \<and> rd_last_write r' = rd_last_write r"
proof (cases "observeKind r ev")
  case None
  with assms show ?thesis by (auto simp: observeTurn_def reducerInv_def turnOK_iff)
next
  case (Some res)
  with observeKind_inTurn [OF assms(1), of ev] obtain r' m'
    where r': "observeKind r ev = Some (Inr r')" "inTurn r' m'" "sameFlags r r'" by auto
  then have flags: "rd_clear r' = rd_clear r" "rd_pending r' = rd_pending r" "rd_last r' = rd_last r"
    "rd_last_write r' = rd_last_write r" "pg_observed (rd_progress r') = pg_observed (rd_progress r)"
    by (auto simp: sameFlags_def)
  show ?thesis
  proof (cases "sameSemanticProgress (rd_progress r) (rd_progress r')")
    case True
    with flags(5) have "rd_progress r' = rd_progress r" by (metis sameSemantic_eq)
    with True r' flags assms show ?thesis by (auto simp: observeTurn_def reducerInv_def turnOK_iff)
  next
    case False
    let ?t = "if \<not> timeIsZero (pe_observed ev)
        then r'\<lparr>rd_progress := (rd_progress r')\<lparr>pg_observed := pe_observed ev\<rparr>\<rparr> else r'"
    have "inTurn (?t\<lparr>rd_pending := True\<rparr>) m'" "\<not> rd_clear (?t\<lparr>rd_pending := True\<rparr>)"
      using r'(2) flags assms(2) by auto
    then have "reducerInv (?t\<lparr>rd_pending := True\<rparr>)" by (auto simp: reducerInv_def turnOK_iff)
    moreover have "observeTurn r ev = Inr (?t\<lparr>rd_pending := True\<rparr>, True)"
      using r'(1) False by (simp add: observeTurn_def)
    ultimately show ?thesis using flags by auto
  qed
qed

lemma countUnknown_simps [simp]:
  "rd_items (countUnknown r ev) = rd_items r" "rd_sequence (countUnknown r ev) = rd_sequence r"
  "rd_progress (countUnknown r ev) = rd_progress r" "rd_pending (countUnknown r ev) = rd_pending r"
  "rd_clear (countUnknown r ev) = rd_clear r" "rd_last (countUnknown r ev) = rd_last r"
  "rd_last_write (countUnknown r ev) = rd_last_write r"
  by (simp_all add: countUnknown_def)

lemma reducerInv_cong:
  "reducerInv r \<Longrightarrow> rd_items r' = rd_items r \<Longrightarrow> rd_sequence r' = rd_sequence r \<Longrightarrow> rd_progress r' = rd_progress r \<Longrightarrow>
   rd_pending r' = rd_pending r \<Longrightarrow> rd_clear r' = rd_clear r \<Longrightarrow> rd_last r' = rd_last r \<Longrightarrow> reducerInv r'"
  by (simp add: reducerInv_def turnOK_def)

lemma resetTurn_inTurn: "turn \<noteq> '''' \<Longrightarrow> inTurn (resetTurn r turn s t) []"
  by (simp add: inTurn_def resetTurn_def projectionOK_def activeItems_def ValidAgentProgressActivity_def
      emptyProgress_def)

lemma resetTurn_flags [simp]:
  "rd_clear (resetTurn r turn s t) = False" "rd_pending (resetTurn r turn s t) = False"
  "rd_last (resetTurn r turn s t) = rd_last r" "rd_last_write (resetTurn r turn s t) = rd_last_write r"
  by (simp_all add: resetTurn_def)

lemma Observe_inv:
  assumes "reducerInv r"
  shows "\<exists>r' b. Observe r ev = Inr (r', b) \<and> reducerInv r' \<and> rd_last r' = rd_last r
    \<and> rd_last_write r' = rd_last_write r"
proof -
  define q where "q = countUnknown r ev"
  have q: "reducerInv q" unfolding q_def by (rule reducerInv_cong [OF assms]) simp_all
  have frame: "rd_last q = rd_last r" "rd_last_write q = rd_last_write r" by (simp_all add: q_def)
  have drop: "reducerInv (drop1 q)" by (rule reducerInv_cong [OF q]) simp_all
  let ?new = "pe_kind ev = EventTurnStarted" and ?other = "pe_turn ev \<noteq> pg_turn (rd_progress q) \<or> pg_turn (rd_progress q) = ''''"
  let ?late = "\<not> timeIsZero (pe_observed ev) \<and> \<not> timeIsZero (pg_observed (rd_progress q))
       \<and> pe_observed ev < pg_observed (rd_progress q)"
  consider "pe_turn ev = ''''" | "pe_turn ev \<noteq> ''''" ?new | "pe_turn ev \<noteq> ''''" "\<not> ?new" ?other
    | "pe_turn ev \<noteq> ''''" "\<not> ?new" "\<not> ?other" "pe_kind ev = EventTurnTerminal"
    | "pe_turn ev \<noteq> ''''" "\<not> ?new" "\<not> ?other" "pe_kind ev \<noteq> EventTurnTerminal" ?late
    | "pe_turn ev \<noteq> ''''" "\<not> ?new" "\<not> ?other" "pe_kind ev \<noteq> EventTurnTerminal" "\<not> ?late" by blast
  then show ?thesis
  proof cases
    case 1
    with q frame show ?thesis by (auto simp: Observe_def Let_def simp flip: q_def)
  next
    case 2
    have "reducerInv ((resetTurn q (pe_turn ev) (pe_started ev) (pe_observed ev))\<lparr>rd_pending := True\<rparr>)"
      using resetTurn_inTurn [OF 2(1)] by (auto simp: reducerInv_def turnOK_iff)
    with 2 q frame show ?thesis by (auto simp: Observe_def Let_def simp flip: q_def)
  next
    case 3
    with drop frame show ?thesis by (auto simp: Observe_def Let_def simp flip: q_def)
  next
    case 4
    then show ?thesis using frame
      by (auto simp: Observe_def Let_def reducerInv_def turnOK_def simp flip: q_def)
  next
    case 5
    with drop frame show ?thesis by (auto simp: Observe_def Let_def simp flip: q_def)
  next
    case 6
    then obtain m where m: "inTurn q m" "\<not> rd_clear q" using q by (auto simp: reducerInv_def turnOK_iff)
    have "\<not> rd_pending q \<longrightarrow> rd_last q = rd_progress q" using q m by (simp add: reducerInv_def)
    from observeTurn_inv [OF m this, of ev] 6 frame show ?thesis
      by (auto simp: Observe_def Let_def simp flip: q_def)
  qed
qed

text \<open>What the callers respect: a turn begins with its reference, and no flush at the zero time.\<close>

definition properCall :: "progress_call \<Rightarrow> bool" where
  "properCall c = (case c of CallBegin turn _ _ \<Rightarrow> turn \<noteq> '''' | CallFlush now \<Rightarrow> now \<noteq> zeroTime | _ \<Rightarrow> True)"

text \<open>A durable write is a clear or a bounded projection of a turn.\<close>

definition writeOK :: "progress \<Rightarrow> bool" where
  "writeOK p \<longleftrightarrow> p = emptyProgress \<or> pg_turn p \<noteq> '''' \<and> pg_source p = AgentProgressSource
     \<and> ValidAgentProgressActivity (pg_activity p) \<and> unat (pg_active_items p) \<le> AgentProgressItemsCap"

lemma projectionOK_write:
  assumes "itemsOK q m" and "projectionOK p m"
  shows "writeOK p"
proof -
  have "length (activeItems m) \<le> 32"
    using assms(1) length_filter_le [of "\<lambda>kv. it_active (snd kv)" m]
    unfolding itemsOK_def activeItems_def AgentProgressItemsCap_def by linarith
  then have "unat (of_nat (length (activeItems m)) :: 8 word) \<le> 32"
    by (simp add: unat_of_nat)
  with assms(2) show ?thesis by (simp add: writeOK_def projectionOK_def AgentProgressItemsCap_def)
qed

text \<open>One flush: nothing, a clear, or a write at least 250 ms after the previous one.\<close>

definition flushOK :: "reducer \<Rightarrow> time \<Rightarrow> reducer \<Rightarrow> progress option \<Rightarrow> bool" where
  "flushOK r now r' out \<longleftrightarrow> (case out of
     None \<Rightarrow> r' = r
   | Some p \<Rightarrow> writeOK p \<and> rd_last r' = p \<and>
       (if p = emptyProgress then rd_last_write r' = rd_last_write r
        else rd_last_write r' = now
          \<and> (rd_last_write r = zeroTime \<or> MinWriteInterval \<le> now - rd_last_write r)))"

lemma Flush_inv:
  assumes "reducerInv r" and "Flush r now = (r', out)"
  shows "reducerInv r' \<and> flushOK r now r' out"
proof -
  have idle: "rd_clear r \<Longrightarrow> rd_items r = None \<and> rd_progress r = emptyProgress \<and> \<not> rd_pending r"
    using assms(1) by (auto simp: reducerInv_def turnOK_def)
  show ?thesis
  proof (cases "rd_pending r \<and> \<not> rd_clear r")
    case True
    then obtain m where m: "rd_items r = Some m" "itemsOK (rd_sequence r) m" "projectionOK (rd_progress r) m"
      using assms(1) by (auto simp: reducerInv_def turnOK_def)
    then have "writeOK (rd_progress r)" "rd_progress r \<noteq> emptyProgress"
      using projectionOK_write by (auto simp: projectionOK_def)
    with True m assms show ?thesis
      by (auto simp: Flush_def flushOK_def reducerInv_def turnOK_def timeIsZero_def split: if_splits)
  next
    case False
    with assms idle show ?thesis
      by (auto simp: Flush_def flushOK_def reducerInv_def turnOK_def writeOK_def split: if_splits)
  qed
qed

section \<open>Runs\<close>

lemma progressStep_inv:
  assumes "reducerInv r" and "properCall c"
  shows "\<exists>r' out. progressStep r c = Inr (r', out) \<and> reducerInv r'
    \<and> (out = [] \<and> rd_last r' = rd_last r \<and> rd_last_write r' = rd_last_write r
       \<or> (\<exists>now p. out = [(now, p)] \<and> now \<noteq> zeroTime \<and> flushOK r now r' (Some p)))"
proof (cases c)
  case (CallBegin turn s t)
  with assms(2) have "turn \<noteq> ''''" by (simp add: properCall_def)
  from resetTurn_inTurn [OF this, of r s t] have "reducerInv (BeginTurn r turn s t)"
    using \<open>turn \<noteq> ''''\<close> by (auto simp: BeginTurn_def reducerInv_def turnOK_iff)
  moreover have "rd_last (BeginTurn r turn s t) = rd_last r" "rd_last_write (BeginTurn r turn s t) = rd_last_write r"
    by (simp_all add: BeginTurn_def Let_def)
  ultimately show ?thesis by (auto simp: CallBegin progressStep_def)
next
  case (CallObserve ev)
  with Observe_inv [OF assms(1), of ev] show ?thesis by (auto simp: progressStep_def)
next
  case CallInvalidate
  have "reducerInv (fst (Invalidate r))" by (simp add: Invalidate_def Let_def reducerInv_def turnOK_def)
  then show ?thesis by (auto simp: CallInvalidate progressStep_def Invalidate_def Let_def)
next
  case (CallFlush now)
  then have now: "now \<noteq> zeroTime" using assms(2) by (simp add: properCall_def)
  obtain r' out where f: "Flush r now = (r', out)" by fastforce
  from Flush_inv [OF assms(1) f] now show ?thesis
    by (cases out) (auto simp: CallFlush progressStep_def f flushOK_def)
qed

text \<open>Times at least 250 ms apart, each from the one before.\<close>

fun spaced :: "time list \<Rightarrow> bool" where
  "spaced (a # b # ts) \<longleftrightarrow> MinWriteInterval \<le> b - a \<and> spaced (b # ts)"
| "spaced _ = True"

definition writeTimes :: "(time \<times> progress) list \<Rightarrow> time list" where
  "writeTimes out = map fst (filter (\<lambda>w. snd w \<noteq> emptyProgress) out)"

definition durable :: "progress \<Rightarrow> (time \<times> progress) list \<Rightarrow> progress" where
  "durable p out = last (p # map snd out)"

lemma writeTimes_append [simp]: "writeTimes (a @ b) = writeTimes a @ writeTimes b"
  by (simp add: writeTimes_def)

lemma durable_Cons [simp]: "durable p [] = p" "durable p ((t, q) # out) = durable q out"
  by (simp_all add: durable_def)

lemma progressRun_inv:
  assumes "reducerInv r" and "list_all properCall cs"
  shows "\<exists>r' out. progressRun r cs = Inr (r', out) \<and> reducerInv r' \<and> (\<forall>w \<in> set out. writeOK (snd w))
    \<and> rd_last r' = durable (rd_last r) out
    \<and> spaced (if rd_last_write r = zeroTime then writeTimes out else rd_last_write r # writeTimes out)"
  using assms
proof (induction cs arbitrary: r)
  case Nil
  then show ?case by (simp add: writeTimes_def)
next
  case (Cons c cs)
  obtain r1 out1 where s: "progressStep r c = Inr (r1, out1)" "reducerInv r1"
    and o1: "out1 = [] \<and> rd_last r1 = rd_last r \<and> rd_last_write r1 = rd_last_write r
       \<or> (\<exists>now p. out1 = [(now, p)] \<and> now \<noteq> zeroTime \<and> flushOK r now r1 (Some p))"
    using progressStep_inv [OF Cons.prems(1), of c] Cons.prems(2) by auto
  obtain r2 out2 where t: "progressRun r1 cs = Inr (r2, out2)" "reducerInv r2" "\<forall>w \<in> set out2. writeOK (snd w)"
      "rd_last r2 = durable (rd_last r1) out2"
      "spaced (if rd_last_write r1 = zeroTime then writeTimes out2 else rd_last_write r1 # writeTimes out2)"
    using Cons.IH [OF s(2)] Cons.prems(2) by auto
  have run: "progressRun r (c # cs) = Inr (r2, out1 @ out2)" by (simp add: s t)
  from o1 have "(\<forall>w \<in> set (out1 @ out2). writeOK (snd w)) \<and> rd_last r2 = durable (rd_last r) (out1 @ out2)
      \<and> spaced (if rd_last_write r = zeroTime then writeTimes (out1 @ out2)
                else rd_last_write r # writeTimes (out1 @ out2))"
    using t(3-5) by (auto simp: flushOK_def writeTimes_def split: if_splits)
  with run t(2) show ?case by blast
qed

lemma reducerInv_zero: "reducerInv zeroReducer"
  by (simp add: reducerInv_def turnOK_def zeroReducer_def)

section \<open>Properties\<close>

definition demoProgressEvent :: "progress_event_kind \<Rightarrow> string \<Rightarrow> progress_event" where
  "demoProgressEvent k item = \<lparr>pe_kind = k, pe_thread = ''t'', pe_turn = ''turn1'', pe_item = item,
     pe_activity = ProgressCommand, pe_completed = 0, pe_in_progress = 0, pe_total = 0, pe_plan_truncated = False,
     pe_files = 0, pe_files_truncated = False, pe_started = 1, pe_observed = 5, pe_unknown = 1\<rparr>"

definition demoProgressCalls :: "progress_call list" where
  "demoProgressCalls = [CallBegin ''turn1'' 1 2, CallFlush 3,
     CallObserve (demoProgressEvent EventItemStarted ''a''), CallFlush 10, CallFlush 300000000]"

text \<open>C21: Reducing progress never panics: for every sequence of turns, events, invalidations and flushes the run
  completes (the nil item map is never written), and every durable write it emits is a clear or a
  projection of a named turn with the fixed source, a valid activity and at most 32 active items.\<close>

theorem progress_is_bounded:
  assumes "list_all properCall calls"
  shows "\<exists>r out. progressRun zeroReducer calls = Inr (r, out) \<and> reducerInv r \<and> (\<forall>w \<in> set out. writeOK (snd w))"
  using progressRun_inv [OF reducerInv_zero assms] by blast

theorem progress_is_bounded_witness:
  "list_all properCall demoProgressCalls
   \<and> (\<exists>r out. progressRun zeroReducer demoProgressCalls = Inr (r, out) \<and> reducerInv r)"
proof -
  have "list_all properCall demoProgressCalls" by code_simp
  with progress_is_bounded [OF this] show ?thesis by blast
qed

text \<open>C23: Durable progress writes of a run are rate limited: each non-clearing write comes at least 250 ms after
  the previous one, whatever clears, turns and invalidations lie between them.\<close>

theorem progress_writes_are_spaced:
  assumes "list_all properCall calls" and "progressRun zeroReducer calls = Inr (r, out)"
  shows "spaced (writeTimes out)"
  using progressRun_inv [OF reducerInv_zero assms(1)] assms(2) by (auto simp: zeroReducer_def)

theorem progress_writes_are_spaced_witness:
  "\<exists>r out. progressRun zeroReducer demoProgressCalls = Inr (r, out)
     \<and> writeTimes out = [3, 300000000] \<and> spaced (writeTimes out)"
proof -
  have proper: "list_all properCall demoProgressCalls" by code_simp
  from progressRun_inv [OF reducerInv_zero this]
  obtain r out where run: "progressRun zeroReducer demoProgressCalls = Inr (r, out)" by blast
  moreover have "map_sum id (\<lambda>(r, out). writeTimes out) (progressRun zeroReducer demoProgressCalls)
      = Inr [3, 300000000]" by code_simp
  ultimately show ?thesis using progress_writes_are_spaced [OF proper run] by auto
qed

text \<open>C22: Progress is never lost: after any run, one flush at least 250 ms after the last write leaves the last
  durable value equal to the current projection, a clear when the turn has ended.\<close>

theorem flush_catches_up:
  assumes "list_all properCall calls" and "progressRun zeroReducer calls = Inr (r, out)"
    and "rd_last_write r = zeroTime \<or> MinWriteInterval \<le> now - rd_last_write r" and "now \<noteq> zeroTime"
  shows "\<exists>r' out'. progressRun zeroReducer (calls @ [CallFlush now]) = Inr (r', out')
    \<and> durable emptyProgress out' = rd_progress r \<and> rd_progress r' = rd_progress r"
proof -
  have inv: "reducerInv r" using progressRun_inv [OF reducerInv_zero assms(1)] assms(2) by auto
  have append: "progressRun q (cs @ ds) = (case progressRun q cs of Inl e \<Rightarrow> Inl e
      | Inr (q', o1) \<Rightarrow> map_sum id (\<lambda>(q'', o2). (q'', o1 @ o2)) (progressRun q' ds))" for q cs ds
    by (induction cs arbitrary: q)
      (auto split: sum.splits prod.splits simp: map_sum_def sum.map_comp sum.map_id0 id_def)
  obtain r' o' where f: "Flush r now = (r', o')" by fastforce
  have last: "rd_last r' = rd_progress r" "rd_progress r' = rd_progress r"
    using f inv assms(3) by (auto simp: Flush_def reducerInv_def turnOK_def timeIsZero_def split: if_splits)
  have "list_all properCall (calls @ [CallFlush now])"
    using assms(1,4) by (simp add: properCall_def)
  from progressRun_inv [OF reducerInv_zero this] obtain r'' out' where
    run: "progressRun zeroReducer (calls @ [CallFlush now]) = Inr (r'', out')"
      "rd_last r'' = durable emptyProgress out'" by (auto simp: zeroReducer_def)
  moreover have "r'' = r'"
    using run(1) f by (cases o') (auto simp: append assms(2) progressStep_def)
  ultimately show ?thesis using last by auto
qed

theorem flush_catches_up_witness:
  "\<exists>r out. progressRun zeroReducer demoProgressCalls = Inr (r, out)
     \<and> (\<exists>r' out'. progressRun zeroReducer (demoProgressCalls @ [CallFlush 900000000]) = Inr (r', out')
          \<and> durable emptyProgress out' = rd_progress r)"
proof -
  have proper: "list_all properCall demoProgressCalls" by code_simp
  from progressRun_inv [OF reducerInv_zero this]
  obtain r out where run: "progressRun zeroReducer demoProgressCalls = Inr (r, out)" by blast
  moreover have "map_sum id (\<lambda>(r, out). rd_last_write r) (progressRun zeroReducer demoProgressCalls)
      = Inr 300000000" by code_simp
  ultimately have "rd_last_write r = 300000000" by simp
  then have "rd_last_write r = zeroTime \<or> MinWriteInterval \<le> 900000000 - rd_last_write r"
    by (simp add: MinWriteInterval_def)
  from flush_catches_up [OF proper run this] run show ?thesis by (auto simp: zeroTime_def)
qed

text \<open>C25: The order in which Go iterates the item map never shows: in every reducer a run reaches, refreshing the
  activity gives the same projection for every order of the item table.\<close>

theorem item_order_is_invisible:
  assumes "list_all properCall calls" and "progressRun zeroReducer calls = Inr (r, out)"
    and "rd_items r = Some m" and "mset m' = mset m"
  shows "rd_progress (refreshActivity (r\<lparr>rd_items := Some m'\<rparr>)) = rd_progress (refreshActivity r)"
proof -
  have "reducerInv r" using progressRun_inv [OF reducerInv_zero assms(1)] assms(2) by auto
  with assms(3) have "itemsOK (rd_sequence r) m" by (auto simp: reducerInv_def turnOK_def)
  from latestActive_order [OF this assms(4)] assms(3) show ?thesis
    by (simp add: refreshActivity_def split: prod.splits)
qed

theorem item_order_is_invisible_witness:
  "\<exists>r out m. progressRun zeroReducer demoProgressCalls = Inr (r, out) \<and> rd_items r = Some m
     \<and> rd_progress (refreshActivity (r\<lparr>rd_items := Some (rev m)\<rparr>)) = rd_progress (refreshActivity r)"
proof -
  have proper: "list_all properCall demoProgressCalls" by code_simp
  from progressRun_inv [OF reducerInv_zero this]
  obtain r out where run: "progressRun zeroReducer demoProgressCalls = Inr (r, out)" by blast
  moreover have "map_sum id (\<lambda>(r, out). rd_items r = None) (progressRun zeroReducer demoProgressCalls)
      = Inr False" by code_simp
  ultimately obtain m where m: "rd_items r = Some m" by auto
  with run item_order_is_invisible [OF proper run m, of "rev m"] show ?thesis by auto
qed

end
