(* ===== verification/Validation.thy ===== *)
theory Validation
  imports Termination Generation Progress
begin

text \<open>
  \<open>Registry.Validate\<close> of \<^verbatim>\<open>internal/core/metadata/validate.go\<close> with everything it calls: ownership and name
  checks, termination evidence and teardown, the process runtime of a Pane (\<^verbatim>\<open>process_runtime.go\<close>), the session
  reference of an Agent (\<^verbatim>\<open>agentsession.go\<close>), its progress (\<^verbatim>\<open>progress.go\<close>) and the reservation table. Every
  Go map built on the way is an association list. The theorem: what Validate accepts satisfies the identity
  invariant that all operations keep.
\<close>

section \<open>Ownership and evidence\<close>

definition badRegistry :: error where
  "badRegistry = stateErr ''validate registry'' ErrInvalidRegistry"

definition requireOwner :: "registry \<Rightarrow> object_meta \<Rightarrow> kind list \<Rightarrow> check" where
  "requireOwner r meta wants = (case om_owner meta of
     None \<Rightarrow> Inl badRegistry
   | Some ref \<Rightarrow>
       if or_kind ref \<notin> set wants then Inl badRegistry
       else guardErr (\<not> (case or_kind ref of
           KindProject \<Rightarrow> lookupProject r (or_uid ref) \<noteq> None
         | KindControlSession \<Rightarrow> lookupControlSession r (or_uid ref) \<noteq> None
         | KindWindow \<Rightarrow> lookupWindow r (or_uid ref) \<noteq> None
         | KindAgent \<Rightarrow> lookupAgent r (or_uid ref) \<noteq> None
         | _ \<Rightarrow> False)) badRegistry)"

definition validateTermination :: "termination_record option \<Rightarrow> check" where
  "validateTermination receipt = (case receipt of
     None \<Rightarrow> ok
   | Some t \<Rightarrow> allChecks
       [guardErr (\<not> ValidTerminationSource (t_source t)) badRegistry,
        guardErr (\<not> ValidTerminationClassification (t_class t)) badRegistry,
        guardErr (\<not> validTerminationPairing (t_source t) (t_class t)) badRegistry,
        guardErr (\<not> validTerminationEvidenceShape t) badRegistry,
        guardErr (trimSpace (t_pane t) = '''') badRegistry])"

definition teardownComplete :: "teardown \<Rightarrow> bool" where
  "teardownComplete e \<longleftrightarrow> trimSpace (td_socket e) \<noteq> '''' \<and> trimSpace (td_session e) \<noteq> ''''
     \<and> trimSpace (td_pane e) \<noteq> '''' \<and> trimSpace (td_window_handle e) \<noteq> '''' \<and> trimSpace (td_window e) \<noteq> ''''
     \<and> trimSpace (td_root e) \<noteq> '''' \<and> trimSpace (td_generation e) \<noteq> '''' \<and> \<not> timeIsZero (td_observed e)"

definition validatePaneTeardown :: "registry \<Rightarrow> pane \<Rightarrow> check" where
  "validatePaneTeardown r p = (case pnst_teardown (pn_status p) of
     None \<Rightarrow> ok
   | Some e \<Rightarrow>
       let (windowUID, owned) = paneWindowOwnerUID r p in allChecks
       [guardErr (\<not> teardownComplete e) badRegistry,
        guardErr (td_generation e \<noteq> act_generation (pnst_activation (pn_status p))) badRegistry,
        guardErr (td_class e \<noteq> TerminationNormal \<and> td_class e \<noteq> TerminationIntentional) badRegistry,
        guardErr (\<not> owned \<or> windowUID \<noteq> td_window e) badRegistry,
        guardErr (case lookupWindow r windowUID of
            None \<Rightarrow> True
          | Some w \<Rightarrow> om_owner (w_meta w) \<noteq> Some \<lparr>or_kind = td_root_kind e, or_uid = td_root e\<rparr>) badRegistry])"

section \<open>Process runtimes\<close>

definition identityProcessValid :: "process_identity \<Rightarrow> bool" where
  "identityProcessValid p \<longleftrightarrow> 0 < pi_pid p \<and> pi_start p \<noteq> '''' \<and> length (pi_start p) \<le> 160
     \<and> list_all (\<lambda>c. c \<noteq> CHR 0x0D \<and> c \<noteq> CHR 0x0A \<and> c \<noteq> CHR 0x00) (pi_start p)"

definition claudeAuthorityValid :: "claude_authority \<Rightarrow> bool" where
  "claudeAuthorityValid a \<longleftrightarrow> ValidCodexIdentityToken (cla_session a) \<and> identityProcessValid (cla_process a)
     \<and> ValidCodexIdentityToken (cla_registration a) \<and> identityProcessValid (cla_lease a)"

definition processIdentityToken :: "string \<Rightarrow> bool" where
  "processIdentityToken value \<longleftrightarrow> value \<noteq> '''' \<and> length value \<le> 256 \<and> trimSpace value = value
     \<and> list_all (\<lambda>c. c \<noteq> CHR 0x00 \<and> c \<noteq> CHR 0x0D \<and> c \<noteq> CHR 0x0A \<and> c \<noteq> CHR 0x09) value"

definition validProcessBinding :: "registry \<Rightarrow> pane \<Rightarrow> process_binding \<Rightarrow> bool" where
  "validProcessBinding r p b \<longleftrightarrow>
     list_all processIdentityToken [pb_host b, pb_project b, pb_window b, pb_agent b, pb_pane b, pb_generation b, pb_operation b]
   \<and> (case lookupAgent r (pb_agent b) of
        None \<Rightarrow> False
      | Some a \<Rightarrow> pns_role (pn_spec p) = PaneRoleAgent \<and> pn_uid p = pb_pane b \<and> OwnerUID (pn_meta p) = pb_agent b
          \<and> OwnerUID (a_meta a) = pb_window b)
   \<and> (case lookupWindow r (pb_window b) of
        None \<Rightarrow> False
      | Some w \<Rightarrow> om_owner (w_meta w) = Some \<lparr>or_kind = KindProject, or_uid = pb_project b\<rparr>)
   \<and> lookupProject r (pb_project b) \<noteq> None"

fun validControls :: "string list \<Rightarrow> process_control list \<Rightarrow> string \<Rightarrow> string \<Rightarrow> string \<Rightarrow> bool" where
  "validControls seen [] connection session turn = True"
| "validControls seen (q # qs) connection session turn =
     (processIdentityToken (pc_id q) \<and> pc_id q \<notin> set seen \<and> (pc_kind q = ''question'' \<or> pc_kind q = ''permission'')
      \<and> processIdentityToken (pc_connection q) \<and> processIdentityToken (pc_session q) \<and> processIdentityToken (pc_turn q)
      \<and> pc_connection q = connection \<and> pc_session q = session \<and> pc_turn q = turn
      \<and> validControls (pc_id q # seen) qs connection session turn)"

definition validProcessControls :: "process_control list \<Rightarrow> string \<Rightarrow> string \<Rightarrow> string \<Rightarrow> bool" where
  "validProcessControls controls connection session turn \<longleftrightarrow>
     length controls \<le> 32 \<and> validControls [] controls connection session turn"

text \<open>The conversation a record names: Codex keeps it in \<open>threadID\<close>, Claude in \<open>sessionID\<close>.\<close>

definition recordedConversation :: "process_session \<Rightarrow> string" where
  "recordedConversation s = (if pss_provider s = ''codex'' then pss_thread s else pss_session s)"

definition processHistoryInvalid :: "registry \<Rightarrow> pane \<Rightarrow> process_session \<Rightarrow> process_history \<Rightarrow> bool" where
  "processHistoryInvalid r p s h \<longleftrightarrow> \<not> validProcessBinding r p (ph_binding h)
     \<or> pb_generation (ph_binding h) = pb_generation (pss_binding s) \<or> \<not> processIdentityToken (ph_session h)
     \<or> ph_session h \<noteq> recordedConversation s \<or> (ph_turn h \<noteq> '''' \<and> \<not> processIdentityToken (ph_turn h))"

definition validateProcessSession :: "registry \<Rightarrow> pane \<Rightarrow> check" where
  "validateProcessSession r p = (case pnst_process (pn_status p) of
     None \<Rightarrow> ok
   | Some s \<Rightarrow> let session = recordedConversation s in allChecks
       [guardErr (case lookupAgent r (OwnerUID (pn_meta p)) of
            None \<Rightarrow> True
          | Some a \<Rightarrow> (pss_provider s \<noteq> ''claude'' \<and> pss_provider s \<noteq> ''codex'') \<or> as_provider (a_spec a) \<noteq> pss_provider s) badRegistry,
        guardErr (\<not> validProcessBinding r p (pss_binding s)) badRegistry,
        guardErr ((pss_provider s = ''codex'' \<and> pss_session s \<noteq> '''') \<or> (pss_provider s = ''claude'' \<and> pss_thread s \<noteq> '''')
          \<or> (session \<noteq> '''' \<and> \<not> processIdentityToken session)
          \<or> (pss_connection s \<noteq> '''' \<and> \<not> processIdentityToken (pss_connection s))
          \<or> (pss_turn s \<noteq> '''' \<and> \<not> processIdentityToken (pss_turn s))) badRegistry,
        guardErr ((pss_resume s \<noteq> ProcessResumeUnknown \<and> pss_resume s \<noteq> ProcessResumable)
          \<or> (pss_resume s = ProcessResumable \<and> (session = '''' \<or> pss_connection s = ''''))) badRegistry,
        guardErr (\<not> validProcessControls (pss_pending s) (pss_connection s) session (pss_turn s)) badRegistry,
        (case pss_history s of
           None \<Rightarrow> ok
         | Some h \<Rightarrow> allChecks
             [guardErr (processHistoryInvalid r p s h) badRegistry,
              guardErr (\<not> validProcessControls (ph_expired h) (case ph_expired h of [] \<Rightarrow> '''' | q # _ \<Rightarrow> pc_connection q)
                (ph_session h) (ph_turn h)) badRegistry])])"

definition processActivationInvalid :: "registry \<Rightarrow> pane \<Rightarrow> pane_activation \<Rightarrow> bool" where
  "processActivationInvalid r p a \<longleftrightarrow> act_kind a \<noteq> RuntimeProcess \<or> (case act_process a of
     None \<Rightarrow> True
   | Some pa \<Rightarrow> \<not> validProcessBinding r p (pa_binding pa) \<or> pb_generation (pa_binding pa) \<noteq> act_generation a
       \<or> pb_agent (pa_binding pa) \<noteq> act_agent a \<or> pb_operation (pa_binding pa) \<noteq> act_operation a
       \<or> \<not> identityProcessValid (pa_host pa) \<or> \<not> identityProcessValid (pa_child pa))"

definition validatePaneRuntime :: "registry \<Rightarrow> pane \<Rightarrow> check" where
  "validatePaneRuntime r p =
     (let k = EffectiveKind (pns_runtime (pn_spec p)); a = pnst_activation (pn_status p) in
      if k \<noteq> RuntimeTmux \<and> k \<noteq> RuntimeProcess then Inl badRegistry
      else if k = RuntimeTmux then
        guardErr (act_process a \<noteq> None \<or> (act_kind a \<noteq> RuntimeUnset \<and> act_kind a \<noteq> RuntimeTmux)
          \<or> pnst_process (pn_status p) \<noteq> None) badRegistry
      else allChecks
        [guardErr (act_runtime a \<noteq> '''' \<or> act_codex a \<noteq> None \<or> act_claude a \<noteq> None \<or> pnst_teardown (pn_status p) \<noteq> None) badRegistry,
         guardErr (\<not> activationIsZero a \<and> processActivationInvalid r p a) badRegistry,
         validateProcessSession r p])"

section \<open>Agents\<close>

definition AgentProgressPlanCap :: nat where "AgentProgressPlanCap = 99"
definition AgentProgressFilesCap :: nat where "AgentProgressFilesCap = 999"

text \<open>The sum of the two plan counters is an 8-bit sum; both are at most 99 where it is reached.\<close>

definition validateAgentProgress :: "string \<Rightarrow> agent \<Rightarrow> check" where
  "validateAgentProgress op a = (let p = ast_progress (a_status a); bad = stateErr op ErrInvalidRegistry in
     if progressIsZero p then ok
     else allChecks
       [guardErr (ast_phase (a_status a) \<noteq> PhaseRunning \<or> trimSpace (ast_pane (a_status a)) = '''') bad,
        guardErr (trimSpace (pg_turn p) = '''' \<or> pg_source p \<noteq> AgentProgressSource \<or> timeIsZero (pg_observed p)) bad,
        guardErr (\<not> ValidAgentProgressActivity (pg_activity p) \<or> unat (pg_completed p) > AgentProgressPlanCap
          \<or> unat (pg_in_progress p) > AgentProgressPlanCap \<or> unat (pg_total p) > AgentProgressPlanCap
          \<or> pg_completed p + pg_in_progress p > pg_total p \<or> unat (pg_files p) > AgentProgressFilesCap
          \<or> unat (pg_active_items p) > AgentProgressItemsCap) bad])"

definition ConversationID :: "session_ref \<Rightarrow> string" where
  "ConversationID ref = (case sr_claude ref of
     Some c \<Rightarrow> cls_session c
   | None \<Rightarrow> (case sr_codex ref of
       Some c \<Rightarrow> if cxs_thread c \<noteq> '''' then cxs_thread c else cxs_session c
     | None \<Rightarrow> (case sr_antigravity ref of Some c \<Rightarrow> ag_conversation c | None \<Rightarrow> '''')))"

definition populated :: "session_ref \<Rightarrow> string list" where
  "populated ref = (if sr_claude ref \<noteq> None then [''claude''] else [])
     @ (if sr_codex ref \<noteq> None then [''codex''] else []) @ (if sr_antigravity ref \<noteq> None then [''antigravity''] else [])"

definition codexMemberChecks :: "agent \<Rightarrow> codex_session \<Rightarrow> check" where
  "codexMemberChecks a c = allChecks
     [guardErr (case cxs_endpoint c of None \<Rightarrow> False | Some e \<Rightarrow> \<not> endpointValid e) badRegistry,
      guardErr (case cxs_lifecycle c of None \<Rightarrow> False | Some l \<Rightarrow> \<not> lifecycleValidFor l (cxs_endpoint c)) badRegistry,
      guardErr (case cxs_handover c of None \<Rightarrow> False
        | Some h \<Rightarrow> \<not> receiptValidFor h (cxs_endpoint c) \<or> crr_agent h \<noteq> a_uid a \<or> crr_thread h \<noteq> cxs_thread c) badRegistry]"

definition validateSessionRef :: "agent \<Rightarrow> check" where
  "validateSessionRef a = (case ast_session (a_status a) of
     None \<Rightarrow> ok
   | Some ref \<Rightarrow> allChecks
       [guardErr (NormalizeProvider (sr_provider ref) = '''') badRegistry,
        guardErr (length (populated ref) \<noteq> 1) badRegistry,
        guardErr (populated ref \<noteq> [sr_provider ref]) badRegistry,
        guardErr (ConversationID ref = '''') badRegistry,
        (case sr_codex ref of None \<Rightarrow> ok | Some c \<Rightarrow> codexMemberChecks a c),
        guardErr (as_provider (a_spec a) \<noteq> '''' \<and> as_provider (a_spec a) \<noteq> sr_provider ref) badRegistry])"

definition ValidAgentInteractionKind :: "interaction_kind \<Rightarrow> bool" where
  "ValidAgentInteractionKind k \<longleftrightarrow> k \<in> set AgentInteractionKinds"

definition ValidAgentInteractionSource :: "string \<Rightarrow> bool" where
  "ValidAgentInteractionSource source \<longleftrightarrow> trimSpace source \<in> set AgentInteractionSources"

definition ValidAgentActivationReason :: "string \<Rightarrow> bool" where
  "ValidAgentActivationReason reason \<longleftrightarrow>
     trimSpace reason \<in> {'''', ''provider activation acknowledgement timed out'', ''provider activation acknowledgement failed''}"

fun workspaceRoots :: "string list \<Rightarrow> string list \<Rightarrow> check" where
  "workspaceRoots seen [] = ok"
| "workspaceRoots seen (root # roots) =
     thenCheck (guardErr (root = '''' \<or> \<not> pathIsAbs root \<or> pathClean root \<noteq> root) badRegistry)
       (thenCheck (guardErr (root \<in> set seen) badRegistry) (workspaceRoots (root # seen) roots))"

definition validateWorkspace :: "workspace \<Rightarrow> check" where
  "validateWorkspace w = (if workspaceIsZero w then ok
     else thenCheck (guardErr (wk_cwd w = '''' \<or> \<not> pathIsAbs (wk_cwd w) \<or> pathClean (wk_cwd w) \<noteq> wk_cwd w) badRegistry)
       (workspaceRoots [wk_cwd w] (wk_roots w)))"

section \<open>One resource\<close>

definition validateProject :: "project \<Rightarrow> check" where
  "validateProject p = allChecks
     [guardErr (p_kind p \<noteq> KindProject \<or> p_api p \<noteq> APIVersion) badRegistry,
      ValidateName (om_name (p_meta p)),
      guardErr (rp_present (om_removed (p_meta p))) badRegistry,
      guardErr (om_owner (p_meta p) \<noteq> None) badRegistry,
      guardErr (ps_root (p_spec p) = '''' \<or> \<not> pathIsAbs (ps_root (p_spec p))) badRegistry]"

definition validateControl :: "control_session \<Rightarrow> check" where
  "validateControl c = allChecks
     [guardErr (cs_kind c \<noteq> KindControlSession \<or> cs_api c \<noteq> APIVersion) badRegistry,
      ValidateName (om_name (cs_meta c)),
      guardErr (rp_present (om_removed (cs_meta c))) badRegistry,
      guardErr (om_owner (cs_meta c) \<noteq> None) badRegistry,
      guardErr (trimSpace (cs_session c) = '''') badRegistry]"

definition validateWindow :: "registry \<Rightarrow> window \<Rightarrow> check" where
  "validateWindow r w = (let session = trimSpace (wst_session (w_status w)); handle = trimSpace (wst_runtime (w_status w)) in
     allChecks
     [guardErr (w_kind w \<noteq> KindWindow \<or> w_api w \<noteq> APIVersion) badRegistry,
      ValidateName (om_name (w_meta w)),
      guardErr (rp_present (om_removed (w_meta w))) badRegistry,
      requireOwner r (w_meta w) [KindProject, KindControlSession],
      guardErr ((session = '''') \<noteq> (handle = '''')) badRegistry,
      guardErr (session \<noteq> '''' \<and> (\<not> validRuntimeHandle session (CHR ''$'') \<or> \<not> validRuntimeHandle handle (CHR ''@''))) badRegistry])"

definition codexBindingInvalid :: "pane \<Rightarrow> codex_binding \<Rightarrow> bool" where
  "codexBindingInvalid p b \<longleftrightarrow> pns_role (pn_spec p) \<noteq> PaneRoleAgent
     \<or> trimSpace (act_agent (pnst_activation (pn_status p))) = '''' \<or> trimSpace (cxb_thread b) = ''''"

definition claudeBindingInvalid :: "registry \<Rightarrow> pane \<Rightarrow> claude_binding \<Rightarrow> bool" where
  "claudeBindingInvalid r p b \<longleftrightarrow> (case lookupAgent r (OwnerUID (pn_meta p)) of
     None \<Rightarrow> True
   | Some a \<Rightarrow> as_provider (a_spec a) \<noteq> ''claude'' \<or> pns_role (pn_spec p) \<noteq> PaneRoleAgent
       \<or> act_agent (pnst_activation (pn_status p)) \<noteq> a_uid a \<or> act_codex (pnst_activation (pn_status p)) \<noteq> None
       \<or> \<not> identityProcessValid (cb_process b))"

definition validatePane :: "registry \<Rightarrow> pane \<Rightarrow> check" where
  "validatePane r p = (let a = pnst_activation (pn_status p) in allChecks
     [guardErr (pn_kind p \<noteq> KindPane \<or> pn_api p \<noteq> APIVersion) badRegistry,
      ValidateName (om_name (pn_meta p)),
      guardErr (rp_present (om_removed (pn_meta p)) \<or> rp_present (pnst_removed (pn_status p))) badRegistry,
      (case pns_role (pn_spec p) of
         PaneRoleShell \<Rightarrow> requireOwner r (pn_meta p) [KindWindow]
       | PaneRoleAgent \<Rightarrow> requireOwner r (pn_meta p) [KindAgent]
       | PaneRoleOther _ \<Rightarrow> Inl badRegistry),
      guardErr (\<not> activationIsZero a \<and> trimSpace (act_generation a) = '''') badRegistry,
      validatePaneRuntime r p,
      (case act_codex a of None \<Rightarrow> ok
       | Some b \<Rightarrow> thenCheck (guardErr (codexBindingInvalid p b) badRegistry)
           (guardErr (case cxb_authority b of None \<Rightarrow> False | Some auth \<Rightarrow> \<not> authorityValid auth) badRegistry)),
      (case act_claude a of None \<Rightarrow> ok
       | Some b \<Rightarrow> thenCheck (guardErr (claudeBindingInvalid r p b) badRegistry)
           (guardErr (case cb_registration b of None \<Rightarrow> False
             | Some reg \<Rightarrow> \<not> claudeAuthorityValid (cr_authority reg) \<or> cla_process (cr_authority reg) \<noteq> cb_process b) badRegistry)),
      validateTermination (pnst_termination (pn_status p)),
      validatePaneTeardown r p])"

definition paneRefCheck :: "registry \<Rightarrow> agent \<Rightarrow> check" where
  "paneRefCheck r a = (if ast_pane (a_status a) = '''' then ok
     else case lookupPane r (ast_pane (a_status a)) of
       None \<Rightarrow> Inl badRegistry
     | Some p \<Rightarrow> guardErr (OwnerUID (pn_meta p) \<noteq> a_uid a) badRegistry)"

definition progressTurnInvalid :: "registry \<Rightarrow> agent \<Rightarrow> bool" where
  "progressTurnInvalid r a \<longleftrightarrow> (case lookupPane r (ast_pane (a_status a)) of
     None \<Rightarrow> True
   | Some p \<Rightarrow> (case act_codex (pnst_activation (pn_status p)) of
       None \<Rightarrow> True
     | Some b \<Rightarrow> cxb_turn b \<noteq> pg_turn (ast_progress (a_status a))))"

definition validateAgent :: "registry \<Rightarrow> agent \<Rightarrow> check" where
  "validateAgent r a = (let s = a_status a; isource = trimSpace (i_source (ast_interaction s));
       asource = trimSpace (av_source (ast_activation s)) in allChecks
     [guardErr (a_kind a \<noteq> KindAgent \<or> a_api a \<noteq> APIVersion) badRegistry,
      ValidateName (om_name (a_meta a)),
      guardErr (rp_present (om_removed (a_meta a))) badRegistry,
      requireOwner r (a_meta a) [KindWindow],
      guardErr (ast_phase s \<notin> set AgentPhases) (stateErr ''validate registry'' ErrInvalidPhase),
      guardErr (i_kind (ast_interaction s) \<noteq> InteractionUnset \<and> \<not> ValidAgentInteractionKind (i_kind (ast_interaction s))) badRegistry,
      guardErr (isource \<noteq> '''' \<and> \<not> ValidAgentInteractionSource isource) badRegistry,
      guardErr (av_state (ast_activation s) \<notin> {ActivationUnset, ActivationNotRequested, ActivationPending,
        ActivationAcknowledged, ActivationUnconfirmed}) badRegistry,
      guardErr (asource \<notin> {'''', ''provider-hook'', ''provider-control-plane''}) badRegistry,
      guardErr (\<not> ValidAgentActivationReason (av_reason (ast_activation s))) badRegistry,
      validateWorkspace (as_workspace (a_spec a)),
      paneRefCheck r a,
      guardErr (ast_phase s = PhaseRunning \<and> ast_pane s = '''') badRegistry,
      validateAgentProgress ''validate registry'' a,
      guardErr (\<not> progressIsZero (ast_progress s) \<and> progressTurnInvalid r a) badRegistry,
      validateSessionRef a,
      validateTermination (ast_termination s)])"

definition validateWindowRefs :: "registry \<Rightarrow> window \<Rightarrow> check" where
  "validateWindowRefs r w = (let s = w_spec w; shellRef = trimSpace (ws_shell s) in allChecks
     [guardErr (ws_shape s \<in> {SourceLegacy, SourceMixed, SourceUnknown} \<or> trimSpace (ws_legacy s) \<noteq> '''') badRegistry,
      guardErr (trimSpace (ws_anchor s) = '''') badRegistry,
      (case lookupPane r (ws_anchor s) of
         None \<Rightarrow> Inl badRegistry
       | Some p \<Rightarrow> guardErr (windowAnchorEligibility r (w_uid w) p \<noteq> AnchorEligible) badRegistry),
      (if shellRef = '''' then ok
       else case lookupPane r shellRef of
         None \<Rightarrow> Inl badRegistry
       | Some p \<Rightarrow> guardErr (om_owner (pn_meta p) \<noteq> Some \<lparr>or_kind = KindWindow, or_uid = w_uid w\<rparr>
           \<or> pns_role (pn_spec p) \<noteq> PaneRoleShell) badRegistry)])"

definition validateProjectRefs :: "registry \<Rightarrow> project \<Rightarrow> check" where
  "validateProjectRefs r p =
     (if trimSpace (ps_primary (p_spec p)) = '''' then guardErr (WindowsOf r (p_uid p) \<noteq> []) badRegistry
      else case lookupWindow r (ps_primary (p_spec p)) of
        None \<Rightarrow> Inl badRegistry
      | Some w \<Rightarrow> guardErr (om_owner (w_meta w) \<noteq> Some \<lparr>or_kind = KindProject, or_uid = p_uid p\<rparr>) badRegistry)"

section \<open>The loops\<close>

text \<open>\<open>claim\<close>, with the map of the uids claimed so far.\<close>

type_synonym claims = "(string \<times> kind) list"

definition claimUID :: "claims \<Rightarrow> kind \<Rightarrow> string \<Rightarrow> error + claims" where
  "claimUID us k uid = (if uid = '''' \<or> map_of us uid \<noteq> None then Inl badRegistry else Inr ((uid, k) # us))"

text \<open>One of the five loops: claim the uid, check the resource, and refuse a second one with the same key
  (a Project's root, a control session's tmux session; the other kinds have no key).\<close>

fun eachResource ::
  "kind \<Rightarrow> ('a \<Rightarrow> string) \<Rightarrow> ('a \<Rightarrow> check) \<Rightarrow> ('a \<Rightarrow> string option) \<Rightarrow> string list \<Rightarrow> claims \<Rightarrow> 'a list \<Rightarrow> error + claims" where
  "eachResource k uid chk key seen us [] = Inr us"
| "eachResource k uid chk key seen us (x # xs) = (case claimUID us k (uid x) of
     Inl e \<Rightarrow> Inl e
   | Inr us' \<Rightarrow> (case chk x of
       Inl e \<Rightarrow> Inl e
     | Inr _ \<Rightarrow> (case key x of
         None \<Rightarrow> eachResource k uid chk key seen us' xs
       | Some v \<Rightarrow> if v \<in> set seen then Inl badRegistry else eachResource k uid chk key (v # seen) us' xs)))"

definition bindE :: "error + 'a \<Rightarrow> ('a \<Rightarrow> error + 'b) \<Rightarrow> error + 'b" where
  "bindE e f = (case e of Inl x \<Rightarrow> Inl x | Inr v \<Rightarrow> f v)"

definition claimAll :: "registry \<Rightarrow> error + claims" where
  "claimAll r =
     bindE (eachResource KindProject p_uid validateProject (\<lambda>p. Some (ps_root (p_spec p))) [] [] (r_projects r)) (\<lambda>us.
     bindE (eachResource KindControlSession cs_uid validateControl (\<lambda>c. Some (cs_session c)) [] us (r_controls r)) (\<lambda>us.
     bindE (eachResource KindWindow w_uid (validateWindow r) (\<lambda>_. None) [] us (r_windows r)) (\<lambda>us.
     bindE (eachResource KindPane pn_uid (validatePane r) (\<lambda>_. None) [] us (r_panes r)) (\<lambda>us.
     eachResource KindAgent a_uid (validateAgent r) (\<lambda>_. None) [] us (r_agents r)))))"

type_synonym slots = "((string \<times> kind \<times> string) \<times> string) list"

fun scanReservations :: "claims \<Rightarrow> slots \<Rightarrow> reservation list \<Rightarrow> error + slots" where
  "scanReservations us seen [] = Inr seen"
| "scanReservations us seen (n # ns) =
     (if map_of seen (slot n) \<noteq> None \<or> map_of us (nr_uid n) \<noteq> Some (nr_kind n) \<or> nr_uid n \<in> snd ` set seen
      then Inl badRegistry
      else scanReservations us ((slot n, nr_uid n) # seen) ns)"

definition requireReservation :: "slots \<Rightarrow> registry \<Rightarrow> kind \<Rightarrow> object_meta \<Rightarrow> check" where
  "requireReservation seen r k m = (case scopeFor r k (OwnerUID m) of
     Inl e \<Rightarrow> Inl e
   | Inr scope \<Rightarrow> guardErr (map_of seen (scope, k, om_name m) \<noteq> Some (om_uid m)) badRegistry)"

definition validateReservations :: "registry \<Rightarrow> claims \<Rightarrow> check" where
  "validateReservations r us = bindE (scanReservations us [] (r_names r)) (\<lambda>seen. allChecks
     (map (\<lambda>p. requireReservation seen r KindProject (p_meta p)) (r_projects r)
      @ map (\<lambda>c. requireReservation seen r KindControlSession (cs_meta c)) (r_controls r)
      @ map (\<lambda>w. requireReservation seen r KindWindow (w_meta w)) (r_windows r)
      @ map (\<lambda>p. requireReservation seen r KindPane (pn_meta p)) (r_panes r)
      @ map (\<lambda>a. requireReservation seen r KindAgent (a_meta a)) (r_agents r)))"

definition Validate :: "registry \<Rightarrow> check" where
  "Validate r =
     thenCheck (guardErr (r_api r \<noteq> APIVersion) badRegistry)
    (thenCheck (guardErr (r_schema r \<noteq> SchemaVersion) badRegistry)
    (bindE (claimAll r) (\<lambda>us.
     thenCheck (allChecks (map (validateWindowRefs r) (r_windows r)))
    (thenCheck (allChecks (map (validateProjectRefs r) (r_projects r)))
      (validateReservations r us)))))"

section \<open>What an accepted Registry satisfies\<close>

lemma bindE_Inr: "bindE e f = Inr y \<longleftrightarrow> (\<exists>x. e = Inr x \<and> f x = Inr y)"
  by (auto simp: bindE_def split: sum.split)

lemma bindE_ok: "bindE e f = ok \<longleftrightarrow> (\<exists>x. e = Inr x \<and> f x = ok)"
  by (auto simp: bindE_def ok_def split: sum.split)

lemma map_of_fresh: "map_of us u = None \<longleftrightarrow> u \<notin> fst ` set us"
  by (simp add: map_of_eq_None_iff)

definition claimsOk :: "claims \<Rightarrow> bool" where
  "claimsOk us \<longleftrightarrow> distinct (map fst us) \<and> '''' \<notin> fst ` set us"

lemma eachResource_claims:
  assumes "eachResource k uid chk key seen us xs = Inr us'" and "claimsOk us"
  shows "us' = rev (map (\<lambda>x. (uid x, k)) xs) @ us \<and> claimsOk us' \<and> (\<forall>x \<in> set xs. chk x = ok)"
  using assms
proof (induction xs arbitrary: seen us)
  case (Cons x xs)
  from Cons.prems(1) have fresh: "uid x \<noteq> ''''" "uid x \<notin> fst ` set us" and c: "chk x = ok"
    and rest: "\<exists>seen'. eachResource k uid chk key seen' ((uid x, k) # us) xs = Inr us'"
    by (auto simp: claimUID_def map_of_fresh ok_def split: sum.splits if_splits option.splits)
  have "claimsOk ((uid x, k) # us)" using Cons.prems(2) fresh by (auto simp: claimsOk_def)
  with rest Cons.IH c show ?case by fastforce
qed simp

lemma claimAll_ok:
  assumes "claimAll r = Inr us"
  shows "distinct (allUids r)" "'''' \<notin> set (allUids r)" "map_of us u = Some k \<Longrightarrow> u \<in> uidsAt r k"
proof -
  note each = eachResource_claims
  from assms obtain u1 u2 u3 u4 where
    e1: "eachResource KindProject p_uid validateProject (\<lambda>p. Some (ps_root (p_spec p))) [] [] (r_projects r) = Inr u1" and
    e2: "eachResource KindControlSession cs_uid validateControl (\<lambda>c. Some (cs_session c)) [] u1 (r_controls r) = Inr u2" and
    e3: "eachResource KindWindow w_uid (validateWindow r) (\<lambda>_. None) [] u2 (r_windows r) = Inr u3" and
    e4: "eachResource KindPane pn_uid (validatePane r) (\<lambda>_. None) [] u3 (r_panes r) = Inr u4" and
    e5: "eachResource KindAgent a_uid (validateAgent r) (\<lambda>_. None) [] u4 (r_agents r) = Inr us"
    by (auto simp: claimAll_def bindE_Inr)
  have "claimsOk []" by (simp add: claimsOk_def)
  note c1 = each [OF e1 this]
  note c2 = each [OF e2 conjunct1 [OF conjunct2 [OF c1]]]
  note c3 = each [OF e3 conjunct1 [OF conjunct2 [OF c2]]]
  note c4 = each [OF e4 conjunct1 [OF conjunct2 [OF c3]]]
  note c5 = each [OF e5 conjunct1 [OF conjunct2 [OF c4]]]
  have us: "us = rev (map (\<lambda>x. (a_uid x, KindAgent)) (r_agents r)) @ rev (map (\<lambda>x. (pn_uid x, KindPane)) (r_panes r))
    @ rev (map (\<lambda>x. (w_uid x, KindWindow)) (r_windows r)) @ rev (map (\<lambda>x. (cs_uid x, KindControlSession)) (r_controls r))
    @ rev (map (\<lambda>x. (p_uid x, KindProject)) (r_projects r))"
    using c1 c2 c3 c4 c5 by simp
  have "map fst us = rev (allUids r)" by (simp add: us allUids_def rev_map comp_def)
  moreover have "claimsOk us" using c5 by blast
  ultimately show "distinct (allUids r)" "'''' \<notin> set (allUids r)"
    by (simp_all add: claimsOk_def flip: set_map)
  show "map_of us u = Some k \<Longrightarrow> u \<in> uidsAt r k"
    by (drule map_of_SomeD) (auto simp: us uidsAt_simps)
qed

lemma scan_ok:
  assumes "scanReservations us seen ns = Inr seen'"
  shows "seen' = rev (map (\<lambda>n. (slot n, nr_uid n)) ns) @ seen
    \<and> (distinct (map fst seen) \<longrightarrow> distinct (map fst seen')) \<and> (distinct (map snd seen) \<longrightarrow> distinct (map snd seen'))
    \<and> (\<forall>n \<in> set ns. map_of us (nr_uid n) = Some (nr_kind n))"
  using assms
proof (induction ns arbitrary: seen)
  case (Cons n ns)
  from Cons.prems have fresh: "slot n \<notin> fst ` set seen" "nr_uid n \<notin> snd ` set seen" "map_of us (nr_uid n) = Some (nr_kind n)"
    and rest: "scanReservations us ((slot n, nr_uid n) # seen) ns = Inr seen'"
    by (auto simp: map_of_eq_None_iff split: if_splits)
  note I = Cons.IH [OF rest]
  show ?case
  proof (intro conjI)
    show "seen' = rev (map (\<lambda>n. (slot n, nr_uid n)) (n # ns)) @ seen" using I by simp
    show "distinct (map fst seen) \<longrightarrow> distinct (map fst seen')" "distinct (map snd seen) \<longrightarrow> distinct (map snd seen')"
      using conjunct1 [OF conjunct2 [OF I]] conjunct1 [OF conjunct2 [OF conjunct2 [OF I]]] fresh by simp_all
    show "\<forall>n \<in> set (n # ns). map_of us (nr_uid n) = Some (nr_kind n)" using I fresh by simp
  qed
qed simp

lemma Inl_not_ok [simp]: "Inl e = ok \<longleftrightarrow> False"
  by (simp add: ok_def)

lemma requireReservation_ok:
  assumes seen: "seen = rev (map (\<lambda>n. (slot n, nr_uid n)) (r_names r))" and m: "requireReservation seen r k m = ok"
  shows "reservedAt r k (ident m)"
proof -
  from m obtain s where s: "scopeFor r k (OwnerUID m) = Inr s" "map_of seen (s, k, om_name m) = Some (om_uid m)"
    by (auto simp: requireReservation_def split: sum.splits)
  from map_of_SomeD [OF s(2)] obtain n where n: "n \<in> set (r_names r)" "slot n = (s, k, om_name m)" "nr_uid n = om_uid m"
    by (auto simp: seen)
  then have "n = \<lparr>nr_scope = s, nr_kind = k, nr_name = om_name m, nr_uid = om_uid m\<rparr>" by (simp add: slot_def)
  with n(1) s(1) show ?thesis by (simp add: reservedAt_def ident_def)
qed

lemma validateReservations_ok:
  assumes "validateReservations r us = ok"
  shows "slotsOk (r_names r)" "distinct (map nr_uid (r_names r))"
    "n \<in> set (r_names r) \<Longrightarrow> map_of us (nr_uid n) = Some (nr_kind n)"
    "i \<in> set (idents r k) \<Longrightarrow> reservedAt r k i"
proof -
  from assms obtain seen where sc: "scanReservations us [] (r_names r) = Inr seen"
    and req: "allChecks (map (\<lambda>p. requireReservation seen r KindProject (p_meta p)) (r_projects r)
      @ map (\<lambda>c. requireReservation seen r KindControlSession (cs_meta c)) (r_controls r)
      @ map (\<lambda>w. requireReservation seen r KindWindow (w_meta w)) (r_windows r)
      @ map (\<lambda>p. requireReservation seen r KindPane (pn_meta p)) (r_panes r)
      @ map (\<lambda>a. requireReservation seen r KindAgent (a_meta a)) (r_agents r)) = ok"
    by (auto simp: validateReservations_def bindE_ok)
  note s = scan_ok [OF sc]
  then have seen: "seen = rev (map (\<lambda>n. (slot n, nr_uid n)) (r_names r))" by simp
  have "map fst seen = rev (map slot (r_names r))" "map snd seen = rev (map nr_uid (r_names r))"
    by (simp_all add: seen rev_map comp_def)
  moreover have "distinct (map fst seen)" "distinct (map snd seen)" using s [THEN conjunct2, THEN conjunct1] s [THEN conjunct2, THEN conjunct2, THEN conjunct1] by simp_all
  ultimately show "slotsOk (r_names r)" "distinct (map nr_uid (r_names r))"
    unfolding slotsOk_def by (simp_all only: distinct_rev)
  from s show "n \<in> set (r_names r) \<Longrightarrow> map_of us (nr_uid n) = Some (nr_kind n)" by simp
  show "i \<in> set (idents r k) \<Longrightarrow> reservedAt r k i"
    using req requireReservation_ok [OF seen] by (cases k) (auto simp: allChecks_ok)
qed

lemma Validate_identity:
  assumes "Validate r = ok"
  shows "identity r"
proof -
  from assms obtain us where us: "claimAll r = Inr us" "validateReservations r us = ok"
    by (auto simp: Validate_def bindE_ok)
  from claimAll_ok [OF us(1)] validateReservations_ok [OF us(2)] show ?thesis
    unfolding identity_def by blast
qed

lemma requireOwner_ok:
  assumes "requireOwner r meta [k] = ok"
  obtains ref where "om_owner meta = Some ref" "or_kind ref = k"
  using assms by (auto simp: requireOwner_def split: option.splits if_splits)

lemma claimAll_resources:
  assumes "claimAll r = Inr us"
  shows "w \<in> set (r_windows r) \<Longrightarrow> validateWindow r w = ok" "p \<in> set (r_panes r) \<Longrightarrow> validatePane r p = ok"
    "a \<in> set (r_agents r) \<Longrightarrow> validateAgent r a = ok"
proof -
  from assms obtain u2 u3 u4 u1 where
    e1: "eachResource KindProject p_uid validateProject (\<lambda>p. Some (ps_root (p_spec p))) [] [] (r_projects r) = Inr u1" and
    e2: "eachResource KindControlSession cs_uid validateControl (\<lambda>c. Some (cs_session c)) [] u1 (r_controls r) = Inr u2" and
    e3: "eachResource KindWindow w_uid (validateWindow r) (\<lambda>_. None) [] u2 (r_windows r) = Inr u3" and
    e4: "eachResource KindPane pn_uid (validatePane r) (\<lambda>_. None) [] u3 (r_panes r) = Inr u4" and
    e5: "eachResource KindAgent a_uid (validateAgent r) (\<lambda>_. None) [] u4 (r_agents r) = Inr us"
    by (auto simp: claimAll_def bindE_Inr)
  have "claimsOk []" by (simp add: claimsOk_def)
  note c1 = eachResource_claims [OF e1 this]
  note c2 = eachResource_claims [OF e2 conjunct1 [OF conjunct2 [OF c1]]]
  note c3 = eachResource_claims [OF e3 conjunct1 [OF conjunct2 [OF c2]]]
  note c4 = eachResource_claims [OF e4 conjunct1 [OF conjunct2 [OF c3]]]
  note c5 = eachResource_claims [OF e5 conjunct1 [OF conjunct2 [OF c4]]]
  from c3 show "w \<in> set (r_windows r) \<Longrightarrow> validateWindow r w = ok" by blast
  from c4 show "p \<in> set (r_panes r) \<Longrightarrow> validatePane r p = ok" by blast
  from c5 show "a \<in> set (r_agents r) \<Longrightarrow> validateAgent r a = ok" by blast
qed

lemma Validate_parts:
  assumes "Validate r = ok"
  obtains us where "claimAll r = Inr us" "\<And>w. w \<in> set (r_windows r) \<Longrightarrow> validateWindowRefs r w = ok"
    "\<And>p. p \<in> set (r_projects r) \<Longrightarrow> validateProjectRefs r p = ok"
  using assms by (auto simp: Validate_def bindE_ok allChecks_ok)

section \<open>Properties\<close>

text \<open>C3: A Registry that \<open>Validate\<close> accepts, which every file a process loads has to be, satisfies the
  identity invariant that the operations keep; each Window's anchor is an eligible Pane of that Window, so it
  resolves; and a running Agent is bound to an existing Pane that it owns. So the three facts the runtime
  relies on are exactly as strong on disk as in memory.\<close>

theorem validated_registry_is_sound:
  assumes "Validate r = ok"
  shows "identity r
    \<and> (\<forall>w \<in> set (r_windows r). windowAnchorRefEligible r (w_uid w) (ws_anchor (w_spec w)))
    \<and> (\<forall>a \<in> set (r_agents r). ast_phase (a_status a) = PhaseRunning
        \<longrightarrow> (\<exists>p. lookupPane r (ast_pane (a_status a)) = Some p \<and> OwnerUID (pn_meta p) = a_uid a))"
proof -
  from Validate_parts [OF assms] obtain us where us: "claimAll r = Inr us"
    "\<And>w. w \<in> set (r_windows r) \<Longrightarrow> validateWindowRefs r w = ok" by blast
  have "windowAnchorRefEligible r (w_uid w) (ws_anchor (w_spec w))" if "w \<in> set (r_windows r)" for w
    using us(2) [OF that]
    by (auto simp: validateWindowRefs_def Let_def windowAnchorRefEligible_def split: option.splits)
  moreover have "\<exists>p. lookupPane r (ast_pane (a_status a)) = Some p \<and> OwnerUID (pn_meta p) = a_uid a"
    if "a \<in> set (r_agents r)" "ast_phase (a_status a) = PhaseRunning" for a
    using claimAll_resources(3) [OF us(1) that(1)] that(2)
    by (auto simp: validateAgent_def Let_def paneRefCheck_def split: option.splits if_splits)
  ultimately show ?thesis using Validate_identity [OF assms] by blast
qed

theorem validated_registry_is_sound_witness:
  "identity (ms_reg demoRegistered) \<and> windowAnchorRefEligible (ms_reg demoRegistered) ''uu'' ''uuu''"
proof
  have v: "Validate (ms_reg demoRegistered) = ok" by code_simp
  note sound = validated_registry_is_sound [OF v]
  show "identity (ms_reg demoRegistered)" using sound by (rule conjunct1)
  have w: "hd (r_windows (ms_reg demoRegistered)) \<in> set (r_windows (ms_reg demoRegistered))"
    "w_uid (hd (r_windows (ms_reg demoRegistered))) = ''uu''" "ws_anchor (w_spec (hd (r_windows (ms_reg demoRegistered)))) = ''uuu''"
    by (rule hd_in_set) code_simp+
  from bspec [OF conjunct1 [OF conjunct2 [OF sound]] w(1)]
  show "windowAnchorRefEligible (ms_reg demoRegistered) ''uu'' ''uuu''" unfolding w(2,3) .
qed

end
