(* ===== verification/Agents.thy ===== *)
theory Agents
  imports Termination
begin

text \<open>
  The Agent lifecycle and the deletion cascades of \<^verbatim>\<open>internal/core/metadata/agent.go\<close>, with the default-shell
  operations of \<^verbatim>\<open>mutator.go\<close> they rest on: the phase table, creation, attachment, rebinding, release and
  transition of an Agent, and the deletion of Panes, Agents, Windows and Projects. \<open>*reg = before\<close> in an error
  path puts back the Registry that was read on entry.
\<close>

section \<open>Phases\<close>

datatype agent_exit =
    AgentExitNormal | AgentExitDeleted | AgentExitAbnormal | AgentExitLaunchFailure | AgentExitUnknown
  | AgentExitOther string

definition exitPhase :: "agent_exit \<Rightarrow> agent_phase option" where
  "exitPhase e = (case e of
     AgentExitNormal \<Rightarrow> Some PhaseOffline
   | AgentExitDeleted \<Rightarrow> Some PhaseOffline
   | AgentExitUnknown \<Rightarrow> Some PhaseOffline
   | AgentExitAbnormal \<Rightarrow> Some PhaseFailed
   | AgentExitLaunchFailure \<Rightarrow> Some PhaseFailed
   | AgentExitOther _ \<Rightarrow> None)"

definition agentTransitions :: "(agent_phase \<times> agent_phase list) list" where
  "agentTransitions =
    [(PhasePending, [PhasePending, PhaseRunning, PhaseOffline, PhaseFailed]),
     (PhaseRunning, [PhaseRunning, PhaseOffline, PhaseFailed]),
     (PhaseOffline, [PhaseOffline, PhasePending, PhaseRunning, PhaseFailed]),
     (PhaseFailed, [PhaseFailed, PhasePending, PhaseRunning, PhaseOffline])]"

definition ValidAgentPhase :: "agent_phase \<Rightarrow> bool" where
  "ValidAgentPhase phase \<longleftrightarrow> phase \<in> set AgentPhases"

definition CanTransitionAgent :: "agent_phase \<Rightarrow> agent_phase \<Rightarrow> bool" where
  "CanTransitionAgent from to = (case map_of agentTransitions from of
     None \<Rightarrow> False | Some allowed \<Rightarrow> to \<in> set allowed)"

definition theAgent :: "string \<Rightarrow> ('w mstate, agent) comp" where
  "theAgent uid = andThen getReg (\<lambda>r. case lookupAgent r uid of
     None \<Rightarrow> throw (Panic ''nil agent'') | Some a \<Rightarrow> return a)"

section \<open>Creation and renaming\<close>

record create_agent_options =
  ca_name :: string
  ca_provider :: string
  ca_labels :: labels
  ca_annotations :: labels
  ca_workspace :: workspace
  ca_activation :: activation_state
  ca_operation :: string

definition newAgent :: "string \<Rightarrow> string \<Rightarrow> string \<Rightarrow> time \<Rightarrow> create_agent_options \<Rightarrow> agent" where
  "newAgent uid name windowUID now opts =
     \<lparr>a_api = APIVersion, a_kind = KindAgent,
      a_meta = newMeta uid name (ca_labels opts) (ca_annotations opts) (ownedBy KindWindow windowUID) now,
      a_spec = \<lparr>as_provider = NormalizeProvider (ca_provider opts),
        as_workspace = \<lparr>wk_cwd = trimSpace (wk_cwd (ca_workspace opts)), wk_roots = wk_roots (ca_workspace opts)\<rparr>\<rparr>,
      a_status = \<lparr>ast_phase = PhasePending, ast_pane = '''', ast_session = None,
        ast_interaction = \<lparr>i_kind = InteractionUnknown, i_observed = zeroTime, i_source = ''''\<rparr>,
        ast_activation = \<lparr>av_state = (if ca_activation opts = ActivationUnset then ActivationNotRequested else ca_activation opts),
          av_observed = zeroTime, av_source = '''', av_reason = ''''\<rparr>,
        ast_progress = emptyProgress, ast_reason = '''', ast_termination = None, ast_transition = now\<rparr>\<rparr>"

definition createAgentTx ::
  "'w mutator \<Rightarrow> string \<Rightarrow> create_agent_options \<Rightarrow> time \<Rightarrow> ('w mstate, agent) comp" where
  "createAgentTx m windowUID opts now =
     andThen (mintAndReserveName m ''create agent'' windowUID KindAgent (ca_name opts)) (\<lambda>(uid, name).
       let agent = newAgent uid name windowUID now opts in
       andThen (modReg (\<lambda>r. r\<lparr>r_agents := r_agents r @ [agent]\<rparr>)) (\<lambda>_.
       andThen (record_created KindAgent uid) (\<lambda>_. return agent)))"

definition CreateAgent :: "'w mutator \<Rightarrow> string \<Rightarrow> create_agent_options \<Rightarrow> ('w mstate, agent) comp" where
  "CreateAgent m windowUID opts =
     andThen (liftE (ValidateAgentProtectionLabels (ca_labels opts))) (\<lambda>_. andThen getReg (\<lambda>reg.
       if lookupWindow reg windowUID = None then throw (stateErr ''create agent'' ErrNotFound)
       else inTransaction m (ca_operation opts) (createAgentTx m windowUID opts)))"

definition RenameAgent :: "'w mutator \<Rightarrow> string \<Rightarrow> string \<Rightarrow> ('w mstate, agent) comp" where
  "RenameAgent m agentUID name =
     andThen getReg (\<lambda>reg. case lookupAgent reg agentUID of
       None \<Rightarrow> throw (stateErr ''rename agent'' ErrNotFound)
     | Some a \<Rightarrow>
         (case reserveExplicitName ''rename agent'' (OwnerUID (a_meta a)) KindAgent name agentUID reg of
            Inl e \<Rightarrow> throw e
          | Inr reg' \<Rightarrow>
              andThen (modReg (\<lambda>_. updAgent agentUID (\<lambda>a. a\<lparr>a_meta := (a_meta a)\<lparr>om_name := name\<rparr>\<rparr>) reg'))
                (\<lambda>_. andThen (stamp m) (\<lambda>_. theAgent agentUID))))"

section \<open>The default shell of a Window\<close>

definition setShell :: "string \<Rightarrow> window \<Rightarrow> window" where
  "setShell paneUID w = w\<lparr>w_spec := (w_spec w)\<lparr>ws_shell := paneUID\<rparr>\<rparr>"

definition AdoptWindowDefaultShell ::
  "'w mutator \<Rightarrow> string \<Rightarrow> string \<Rightarrow> ('w mstate, pane \<times> bool) comp" where
  "AdoptWindowDefaultShell m windowUID paneUID =
     (let op = ''adopt window default shell'' in
      andThen getReg (\<lambda>reg. case lookupWindow reg (trimSpace windowUID) of
        None \<Rightarrow> throw (stateErr op ErrNotFound)
      | Some w \<Rightarrow> (case WindowDefaultShell reg (w_uid w) of
          Some current \<Rightarrow> return (current, False)
        | None \<Rightarrow>
            if trimSpace (ws_shell (w_spec w)) \<noteq> '''' then throw (stateErr op ErrInvalidRegistry)
            else (case lookupPane reg (trimSpace paneUID) of
                None \<Rightarrow> throw (stateErr op ErrInvalidRegistry)
              | Some p \<Rightarrow>
                  if \<not> isDirectShell (w_uid w) p then throw (stateErr op ErrInvalidRegistry)
                  else andThen (modReg (updWindow (w_uid w) (setShell (pn_uid p)))) (\<lambda>_.
                    andThen (stamp m) (\<lambda>_. return (p, True)))))))"

definition EnsureWindowDefaultShell ::
  "'w mutator \<Rightarrow> string \<Rightarrow> string \<Rightarrow> ('w mstate, pane \<times> bool) comp" where
  "EnsureWindowDefaultShell m windowUID opid =
     (let op = ''ensure window default shell'';
          adopt = (\<lambda>w p. andThen (modReg (updWindow (w_uid w) (setShell (pn_uid p)))) (\<lambda>_.
                    andThen (stamp m) (\<lambda>_. return (p, False))))
      in andThen getReg (\<lambda>reg. case lookupWindow reg (trimSpace windowUID) of
        None \<Rightarrow> throw (stateErr op ErrNotFound)
      | Some w \<Rightarrow> (case WindowDefaultShell reg (w_uid w) of
          Some p \<Rightarrow> return (p, False)
        | None \<Rightarrow>
            if trimSpace (ws_shell (w_spec w)) \<noteq> '''' then throw (stateErr op ErrInvalidRegistry)
            else (case Option.bind (WindowAnchor reg (w_uid w)) (\<lambda>p. if isDirectShell (w_uid w) p then Some p else None) of
                Some anchor \<Rightarrow> adopt w anchor
              | None \<Rightarrow> (case find (isDirectShell (w_uid w)) (PanesOf reg (w_uid w)) of
                  Some p \<Rightarrow> adopt w p
                | None \<Rightarrow>
                    andThen (AddPane m (w_uid w) \<lparr>bp_name = '''', bp_command = '''', bp_cwd = '''', bp_labels = fmempty\<rparr> opid) (\<lambda>p.
                    andThen (AdoptWindowDefaultShell m (w_uid w) (pn_uid p)) (\<lambda>_. return (p, True))))))))"

section \<open>Keeping a Window anchored\<close>

definition anchorWindowOnDefaultShell :: "'w mutator \<Rightarrow> string \<Rightarrow> string \<Rightarrow> time \<Rightarrow> ('w mstate, unit) comp" where
  "anchorWindowOnDefaultShell m windowUID opid now =
     andThen (EnsureWindowDefaultShell m windowUID opid) (\<lambda>(shell, _).
     andThen (theWindow windowUID) (\<lambda>_.
     andThen (modReg (updWindow windowUID (\<lambda>w. w\<lparr>w_spec := (w_spec w)\<lparr>ws_anchor := pn_uid shell\<rparr>\<rparr>))) (\<lambda>_.
     andThen getReg (\<lambda>reg.
       if \<not> windowAnchorRefEligible reg windowUID (pn_uid shell)
       then throw (stateErr ''repair retained window'' ErrInvalidRegistry)
       else modReg (\<lambda>r. r\<lparr>r_updated := now\<rparr>)))))"

definition reanchor :: "string \<Rightarrow> registry \<Rightarrow> registry" where
  "reanchor windowUID r =
     (let r1 = setWindowAnchor windowUID (firstWindowAnchorPaneUID r windowUID) r
      in updWindow windowUID (setShell (firstWindowShellPaneUID r1 windowUID)) r1)"

definition repairRetainedWindow :: "'w mutator \<Rightarrow> string \<Rightarrow> string \<Rightarrow> time \<Rightarrow> ('w mstate, unit) comp" where
  "repairRetainedWindow m windowUID opid now =
     andThen getReg (\<lambda>reg.
       if lookupWindow reg windowUID = None then return ()
       else if firstWindowAnchorPaneUID reg windowUID \<noteq> '''' then modReg (reanchor windowUID)
       else anchorWindowOnDefaultShell m windowUID opid now)"

definition preferredSuccessor :: "registry \<Rightarrow> string \<Rightarrow> string \<Rightarrow> string" where
  "preferredSuccessor reg windowUID preferred =
     (let anchor = firstWindowAnchorPaneUID reg windowUID in
      if preferred \<noteq> '''' \<and> windowAnchorRefEligible reg windowUID preferred
        \<and> (map_option paneKind (lookupPane reg preferred) = Some RuntimeTmux \<or> anchor = '''')
      then preferred else anchor)"

definition moveAnchorOffReleasedPane ::
  "'w mutator \<Rightarrow> string \<Rightarrow> string \<Rightarrow> string \<Rightarrow> string \<Rightarrow> time \<Rightarrow> ('w mstate, unit) comp" where
  "moveAnchorOffReleasedPane m windowUID released preferred opid now =
     andThen getReg (\<lambda>reg. case lookupWindow reg windowUID of
       None \<Rightarrow> return ()
     | Some w \<Rightarrow>
         if released = '''' \<or> ws_anchor (w_spec w) \<noteq> released \<or> windowAnchorRefEligible reg windowUID released
         then return ()
         else if preferredSuccessor reg windowUID preferred \<noteq> ''''
         then modReg (setWindowAnchor windowUID (preferredSuccessor reg windowUID preferred))
         else anchorWindowOnDefaultShell m windowUID opid now)"

section \<open>Attaching, rebinding, releasing\<close>

text \<open>\<open>*reg = before\<close> on error.\<close>

definition restoring :: "registry \<Rightarrow> ('w mstate, 'a) comp \<Rightarrow> ('w mstate, 'a) comp" where
  "restoring before c = onError c (\<lambda>s. s\<lparr>ms_reg := before\<rparr>)"

definition bindAgent :: "string \<Rightarrow> time \<Rightarrow> agent \<Rightarrow> agent" where
  "bindAgent paneUID now a = a\<lparr>a_status := (a_status a)\<lparr>ast_phase := PhaseRunning, ast_pane := paneUID,
     ast_progress := emptyProgress, ast_reason := '''', ast_transition := now\<rparr>\<rparr>"

text \<open>The Window's anchor names this Pane.\<close>

definition anchors :: "registry \<Rightarrow> string \<Rightarrow> string \<Rightarrow> bool" where
  "anchors reg windowUID paneUID = (case lookupWindow reg windowUID of
     None \<Rightarrow> False | Some w \<Rightarrow> ws_anchor (w_spec w) = paneUID)"

definition AttachAgentPane ::
  "'w mutator \<Rightarrow> string \<Rightarrow> bootstrap_pane \<Rightarrow> string \<Rightarrow> ('w mstate, pane) comp" where
  "AttachAgentPane m agentUID declared opid =
     (let op = ''attach agent pane'' in
      andThen getReg (\<lambda>reg. case lookupAgent reg agentUID of
        None \<Rightarrow> throw (stateErr op ErrNotFound)
      | Some a \<Rightarrow>
          if \<not> CanTransitionAgent (ast_phase (a_status a)) PhaseRunning then throw (stateErr op ErrInvalidPhase)
          else let windowUID = OwnerUID (a_meta a); previous = ast_pane (a_status a);
                   rebind = previous \<noteq> '''' \<and> anchors reg windowUID previous
            in andThen (inTransaction m opid (\<lambda>now. andThen
                  (addPaneTx m op agentUID KindAgent PaneRoleAgent (bp_name declared) (bp_command declared)
                     (bp_cwd declared) (bp_labels declared) now) (\<lambda>p. return (now, p)))) (\<lambda>(now, p).
               andThen (modReg (updAgent agentUID (bindAgent (pn_uid p) now))) (\<lambda>_.
               andThen (if rebind
                  then restoring reg (moveAnchorOffReleasedPane m windowUID previous (pn_uid p) opid now)
                  else return ()) (\<lambda>_.
               andThen (modReg (\<lambda>r. r\<lparr>r_updated := now\<rparr>)) (\<lambda>_. return p))))))"

definition RebindAgentPane :: "'w mutator \<Rightarrow> string \<Rightarrow> string \<Rightarrow> ('w mstate, pane) comp" where
  "RebindAgentPane m agentUID paneUID =
     (let op = ''rebind agent pane'' in
      andThen getReg (\<lambda>reg. case lookupAgent reg (trimSpace agentUID) of
        None \<Rightarrow> throw (stateErr op ErrNotFound)
      | Some a \<Rightarrow>
          let current = trimSpace (ast_pane (a_status a)) in
          if \<not> CanTransitionAgent (ast_phase (a_status a)) PhaseRunning then throw (stateErr op ErrInvalidPhase)
          else if current \<noteq> '''' \<and> current \<noteq> trimSpace paneUID then throw (stateErr op ErrInvalidRegistry)
          else (case lookupPane reg (trimSpace paneUID) of
              None \<Rightarrow> throw (stateErr op ErrNotFound)
            | Some p \<Rightarrow>
                if om_owner (pn_meta p) \<noteq> Some \<lparr>or_kind = KindAgent, or_uid = a_uid a\<rparr>
                  \<or> pns_role (pn_spec p) \<noteq> PaneRoleAgent
                then throw (stateErr op ErrInvalidRegistry)
                else andThen (clock m) (\<lambda>now.
                  andThen (modReg (\<lambda>r. (updAgent (a_uid a) (bindAgent (pn_uid p) now) r)\<lparr>r_updated := now\<rparr>))
                    (\<lambda>_. return p)))))"

definition releaseAgent :: "agent_phase \<Rightarrow> string \<Rightarrow> time \<Rightarrow> agent \<Rightarrow> agent" where
  "releaseAgent phase reason now a = a\<lparr>a_status := (a_status a)\<lparr>ast_phase := phase, ast_pane := '''',
     ast_interaction := \<lparr>i_kind = InteractionUnknown, i_observed = now, i_source = ''lifecycle''\<rparr>,
     ast_progress := emptyProgress, ast_reason := trimSpace reason, ast_transition := now\<rparr>\<rparr>"

definition ReleaseAgentPane ::
  "'w mutator \<Rightarrow> string \<Rightarrow> agent_exit \<Rightarrow> string \<Rightarrow> ('w mstate, agent) comp" where
  "ReleaseAgentPane m agentUID exit reason =
     (let op = ''release agent pane'' in
      andThen getReg (\<lambda>reg. case lookupAgent reg agentUID of
        None \<Rightarrow> throw (stateErr op ErrNotFound)
      | Some a \<Rightarrow> (case exitPhase exit of
          None \<Rightarrow> throw (inputErr op ErrInvalidPhase)
        | Some phase \<Rightarrow>
            if \<not> CanTransitionAgent (ast_phase (a_status a)) phase then throw (stateErr op ErrInvalidPhase)
            else andThen (clock m) (\<lambda>now.
              andThen (modReg (\<lambda>r. updAgent agentUID (releaseAgent phase reason now)
                (if ast_pane (a_status a) \<noteq> '''' then fst (deletePane (ast_pane (a_status a)) r) else r))) (\<lambda>_.
              andThen (restoring reg (repairRetainedWindow m (OwnerUID (a_meta a)) ''replace-released-agent-anchor'' now)) (\<lambda>_.
              andThen (modReg (\<lambda>r. r\<lparr>r_updated := now\<rparr>)) (\<lambda>_. theAgent agentUID)))))))"

text \<open>The row edit of a transition: leaving Running also clears the Pane's provider registration, the binding,
  the interaction and the progress.\<close>

definition moveAgent :: "agent_phase \<Rightarrow> string \<Rightarrow> time \<Rightarrow> agent \<Rightarrow> agent" where
  "moveAgent phase reason now a =
     (if phase = PhaseRunning
      then a\<lparr>a_status := (a_status a)\<lparr>ast_phase := phase, ast_reason := trimSpace reason, ast_transition := now\<rparr>\<rparr>
      else releaseAgent phase reason now a)"

definition TransitionAgent ::
  "'w mutator \<Rightarrow> string \<Rightarrow> agent_phase \<Rightarrow> string \<Rightarrow> ('w mstate, agent) comp" where
  "TransitionAgent m agentUID phase reason =
     (let op = ''transition agent'' in
      andThen getReg (\<lambda>reg. case lookupAgent reg agentUID of
        None \<Rightarrow> throw (stateErr op ErrNotFound)
      | Some a \<Rightarrow>
          if \<not> ValidAgentPhase phase then throw (inputErr op ErrInvalidPhase)
          else if \<not> CanTransitionAgent (ast_phase (a_status a)) phase then throw (inputErr op ErrInvalidPhase)
          else let windowUID = OwnerUID (a_meta a);
                   released = (if phase \<noteq> PhaseRunning then ast_pane (a_status a) else '''');
                   releases = released \<noteq> '''' \<and> anchors reg windowUID released
            in andThen (clock m) (\<lambda>now.
               andThen (modReg (\<lambda>r. updAgent agentUID (moveAgent phase reason now)
                 (if phase \<noteq> PhaseRunning then updPane (ast_pane (a_status a)) clearClaudeRegistration r else r))) (\<lambda>_.
               andThen (if releases
                  then restoring reg (moveAnchorOffReleasedPane m windowUID released '''' ''replace-released-agent-anchor'' now)
                  else return ()) (\<lambda>_.
               andThen (modReg (\<lambda>r. r\<lparr>r_updated := now\<rparr>)) (\<lambda>_. theAgent agentUID))))))"

section \<open>Deletion\<close>

definition deleteAgentRow :: "string \<Rightarrow> registry \<Rightarrow> registry" where
  "deleteAgentRow uid r = releaseNames uid (r\<lparr>r_agents := delFirst (\<lambda>a. a_uid a = uid) (r_agents r)\<rparr>)"

definition dropPanes :: "string \<Rightarrow> registry \<Rightarrow> registry" where
  "dropPanes ownerUID r = foldl (\<lambda>r p. fst (deletePane (pn_uid p) r)) r (PanesOf r ownerUID)"

definition dropAgent :: "registry \<Rightarrow> agent \<Rightarrow> registry" where
  "dropAgent r a = deleteAgentRow (a_uid a) (dropPanes (a_uid a) r)"

definition dropWindow :: "string \<Rightarrow> registry \<Rightarrow> registry" where
  "dropWindow windowUID r =
     (let r1 = dropPanes windowUID (foldl dropAgent r (AgentsOf r windowUID))
      in releaseNames windowUID (r1\<lparr>r_windows := delFirst (\<lambda>w. w_uid w = windowUID) (r_windows r1)\<rparr>))"

text \<open>\<open>migrationShellPaneRef\<close> and \<open>CompatibilityShellPaneRef\<close>.\<close>

definition CompatibilityShellPaneRef :: "window_spec \<Rightarrow> string" where
  "CompatibilityShellPaneRef s = (if trimSpace (ws_shell s) \<noteq> '''' then ws_shell s else ws_anchor s)"

definition migrationShellPaneRef :: "window_spec \<Rightarrow> string" where
  "migrationShellPaneRef s = (if ws_shape s = SourceLegacy then ws_legacy s else CompatibilityShellPaneRef s)"

definition validWindowPrimary :: "registry \<Rightarrow> window \<Rightarrow> bool" where
  "validWindowPrimary r w = (case lookupPane r (trimSpace (migrationShellPaneRef (w_spec w))) of
     None \<Rightarrow> False | Some p \<Rightarrow> isDirectShell (w_uid w) p)"

text \<open>Two passes over the Project's Windows: a shell-bearing one first, then any with an anchor.\<close>

definition choosePrimary :: "registry \<Rightarrow> string \<Rightarrow> string" where
  "choosePrimary r projectUID =
     (let pick = (\<lambda>p. case find p (WindowsOf r projectUID) of None \<Rightarrow> '''' | Some w \<Rightarrow> w_uid w);
          first = pick (validWindowPrimary r)
      in if first \<noteq> '''' then first else pick (\<lambda>w. WindowAnchor r (w_uid w) \<noteq> None))"

definition repickPrimary :: "string \<Rightarrow> window \<Rightarrow> registry \<Rightarrow> registry" where
  "repickPrimary windowUID target r = (case om_owner (w_meta target) of
     None \<Rightarrow> r
   | Some ref \<Rightarrow>
       if or_kind ref \<noteq> KindProject then r
       else (case lookupProject r (or_uid ref) of
           None \<Rightarrow> r
         | Some p \<Rightarrow>
             if ps_primary (p_spec p) \<noteq> windowUID then r
             else let choice = choosePrimary r (p_uid p) in
               updProject (or_uid ref) (\<lambda>q. q\<lparr>p_spec := (p_spec q)\<lparr>ps_primary := choice\<rparr>,
                  p_status := (p_status q)\<lparr>pst_session := (if choice = ''''
                    then map_option (\<lambda>sp. sp\<lparr>sp_live := False\<rparr>) (pst_session (p_status q))
                    else pst_session (p_status q))\<rparr>\<rparr>) r))"

definition deleteWindow :: "'w mutator \<Rightarrow> string \<Rightarrow> bool \<Rightarrow> ('w mstate, unit) comp" where
  "deleteWindow m windowUID preserveProjectAnchor =
     andThen getReg (\<lambda>reg. case lookupWindow reg windowUID of
       None \<Rightarrow> throw (stateErr ''delete window'' ErrNotFound)
     | Some target \<Rightarrow> andThen (clock m) (\<lambda>now.
         andThen (modReg (\<lambda>r. let r1 = dropWindow windowUID r in
           if preserveProjectAnchor then repickPrimary windowUID target r1 else r1)) (\<lambda>_.
         modReg (\<lambda>r. r\<lparr>r_updated := now\<rparr>))))"

definition DeleteWindow :: "'w mutator \<Rightarrow> string \<Rightarrow> ('w mstate, unit) comp" where
  "DeleteWindow m windowUID = deleteWindow m windowUID True"

definition offlineDeleted :: "time \<Rightarrow> agent \<Rightarrow> agent" where
  "offlineDeleted now a = a\<lparr>a_status := (a_status a)\<lparr>ast_phase := PhaseOffline, ast_reason := ''deleted'',
     ast_transition := now\<rparr>\<rparr>"

text \<open>Deleting this Pane takes the Agent that runs in it offline.\<close>

definition offlinesAgent :: "registry \<Rightarrow> pane \<Rightarrow> bool" where
  "offlinesAgent reg p \<longleftrightarrow> (case om_owner (pn_meta p) of
     None \<Rightarrow> False
   | Some ref \<Rightarrow> or_kind ref = KindAgent \<and> (case lookupAgent reg (or_uid ref) of
       None \<Rightarrow> False
     | Some a \<Rightarrow> ast_phase (a_status a) = PhaseRunning \<and> ast_pane (a_status a) = pn_uid p))"

definition DeletePane :: "'w mutator \<Rightarrow> string \<Rightarrow> ('w mstate, unit) comp" where
  "DeletePane m paneUID =
     (let op = ''delete pane'' in
      andThen getReg (\<lambda>reg. case lookupPane reg paneUID of
        None \<Rightarrow> throw (stateErr op ErrNotFound)
      | Some p \<Rightarrow>
          (let (windowUID, owned) = paneWindowOwnerUID reg p; cascade = VirtualWindowDeleteCascade reg KindPane paneUID in
           if \<not> owned then throw (stateErr op ErrInvalidRegistry)
           else if cascade \<noteq> '''' then DeleteWindow m cascade
           else andThen (clock m) (\<lambda>now.
             andThen (modReg (\<lambda>r. (if offlinesAgent reg p then updAgent (OwnerUID (pn_meta p)) (offlineDeleted now) else (\<lambda>x. x))
               (fst (deletePane paneUID r)))) (\<lambda>_.
             andThen (restoring reg (repairRetainedWindow m windowUID ''replace-deleted-window-anchor'' now)) (\<lambda>_.
             modReg (\<lambda>r. r\<lparr>r_updated := now\<rparr>)))))))"

definition DeleteAgent :: "'w mutator \<Rightarrow> string \<Rightarrow> ('w mstate, unit) comp" where
  "DeleteAgent m agentUID =
     andThen getReg (\<lambda>reg. case lookupAgent reg agentUID of
       None \<Rightarrow> throw (stateErr ''delete agent'' ErrNotFound)
     | Some a \<Rightarrow>
         (let cascade = VirtualWindowDeleteCascade reg KindAgent agentUID in
          if cascade \<noteq> '''' then DeleteWindow m cascade
          else andThen (clock m) (\<lambda>now.
            andThen (modReg (\<lambda>r. deleteAgentRow agentUID (dropPanes agentUID r))) (\<lambda>_.
            andThen (restoring reg (repairRetainedWindow m (OwnerUID (a_meta a)) ''replace-deleted-agent-anchor'' now)) (\<lambda>_.
            modReg (\<lambda>r. r\<lparr>r_updated := now\<rparr>))))))"

definition DeleteProject :: "'w mutator \<Rightarrow> string \<Rightarrow> ('w mstate, unit) comp" where
  "DeleteProject m projectUID =
     andThen getReg (\<lambda>reg.
       if lookupProject reg projectUID = None then throw (stateErr ''delete project'' ErrNotFound)
       else andThen (forEach (\<lambda>w. deleteWindow m (w_uid w) False) (WindowsOf reg projectUID)) (\<lambda>_.
         andThen (modReg (\<lambda>r. releaseNames projectUID (r\<lparr>r_projects := delFirst (\<lambda>p. p_uid p = projectUID) (r_projects r)\<rparr>)))
           (\<lambda>_. stamp m)))"

end
