(* ===== verification/Process_Runtime.thy ===== *)
theory Process_Runtime
  imports Validation Agents
begin

text \<open>
  The foreground process runtime of a Pane: the writers of \<^verbatim>\<open>process_runtime.go\<close>, \<^verbatim>\<open>process_resumable.go\<close>,
  \<^verbatim>\<open>process_host_lost.go\<close> and \<^verbatim>\<open>process_host_lost_offline.go\<close>. A binding is reserved before its child is
  spawned, the child's birth is recorded, its conversation is recorded, its Wait retires it, and a retired
  conversation can be reserved again under a new generation. \<open>next := reg.Clone()\<close> followed by a commit is
  \<open>commitProcessRegistry\<close> on a value; a writer that runs another one on its clone does it in \<open>onClone\<close>. Nil
  and empty Go slices are one value here.
\<close>

section \<open>Clones and commits\<close>

definition onClone :: "registry \<Rightarrow> ('w mstate, 'a) comp \<Rightarrow> ('w mstate, 'a \<times> registry) comp" where
  "onClone r c s = (case c (s\<lparr>ms_reg := r\<rparr>) of (e, s') \<Rightarrow>
     ((case e of Inl x \<Rightarrow> Inl x | Inr v \<Rightarrow> Inr (v, ms_reg s')), s'\<lparr>ms_reg := ms_reg s\<rparr>))"

definition commitProcessRegistry :: "'w mutator \<Rightarrow> registry \<Rightarrow> ('w mstate, unit) comp" where
  "commitProcessRegistry m next' =
     andThen (liftE (Validate next')) (\<lambda>_. andThen (clock m) (\<lambda>now. modReg (\<lambda>_. next'\<lparr>r_updated := now\<rparr>)))"

definition procErr :: "string \<Rightarrow> error" where
  "procErr op = stateErr op ErrInvalidRegistry"

definition setPhase :: "agent_phase \<Rightarrow> agent \<Rightarrow> agent" where
  "setPhase ph a = a\<lparr>a_status := (a_status a)\<lparr>ast_phase := ph\<rparr>\<rparr>"

definition setActivation :: "pane_activation \<Rightarrow> pane \<Rightarrow> pane" where
  "setActivation act p = p\<lparr>pn_status := (pn_status p)\<lparr>pnst_activation := act\<rparr>\<rparr>"

definition setSession :: "process_session option \<Rightarrow> pane \<Rightarrow> pane" where
  "setSession s p = p\<lparr>pn_status := (pn_status p)\<lparr>pnst_process := s\<rparr>\<rparr>"

section \<open>Reading the current owner\<close>

definition currentProcessOwner :: "pane \<Rightarrow> agent \<Rightarrow> process_binding \<Rightarrow> bool" where
  "currentProcessOwner p a b \<longleftrightarrow> map_option or_kind (om_owner (pn_meta p)) = Some KindAgent
     \<and> map_option or_kind (om_owner (a_meta a)) = Some KindWindow \<and> ast_pane (a_status a) = pb_pane b
     \<and> (as_provider (a_spec a) = ''claude'' \<or> as_provider (a_spec a) = ''codex'')"

definition currentProcessActivation :: "pane_activation \<Rightarrow> process_binding \<Rightarrow> bool" where
  "currentProcessActivation a b \<longleftrightarrow> act_kind a = RuntimeProcess \<and> act_runtime a = '''' \<and> (case act_process a of
     None \<Rightarrow> False
   | Some pa \<Rightarrow> pa_binding pa = b \<and> act_generation a = pb_generation b \<and> act_operation a = pb_operation b
       \<and> act_agent a = pb_agent b \<and> identityProcessValid (pa_host pa) \<and> identityProcessValid (pa_child pa))"

definition currentProcessReservation :: "registry \<Rightarrow> process_binding \<Rightarrow> (pane \<times> agent) option" where
  "currentProcessReservation r b = (case lookupPane r (pb_pane b) of
     None \<Rightarrow> None
   | Some p \<Rightarrow>
       if \<not> validProcessBinding r p b \<or> EffectiveKind (pns_runtime (pn_spec p)) \<noteq> RuntimeProcess then None
       else (case lookupAgent r (pb_agent b) of
         None \<Rightarrow> None
       | Some a \<Rightarrow> if currentProcessOwner p a b then Some (p, a) else None))"

definition CurrentProcessActivation :: "registry \<Rightarrow> process_binding \<Rightarrow> (process_activation \<times> string) option" where
  "CurrentProcessActivation r b = (case currentProcessReservation r b of
     None \<Rightarrow> None
   | Some (p, a) \<Rightarrow>
       if currentProcessActivation (pnst_activation (pn_status p)) b
       then map_option (\<lambda>pa. (pa, as_provider (a_spec a))) (act_process (pnst_activation (pn_status p)))
       else None)"

definition processReservationCurrent :: "pane \<Rightarrow> agent \<Rightarrow> process_binding \<Rightarrow> bool" where
  "processReservationCurrent p a b \<longleftrightarrow> (case pnst_process (pn_status p) of
     None \<Rightarrow> False
   | Some s \<Rightarrow> pss_binding s = b \<and> pss_provider s = as_provider (a_spec a)
       \<and> (ast_phase (a_status a) = PhasePending \<or> ast_phase (a_status a) = PhaseRunning)
       \<and> (activationIsZero (pnst_activation (pn_status p))
          \<or> currentProcessActivation (pnst_activation (pn_status p)) b))"

definition processClaudeSessionMatches :: "process_session option \<Rightarrow> process_binding \<Rightarrow> string \<Rightarrow> bool \<Rightarrow> bool" where
  "processClaudeSessionMatches s b sessionID allowReserved \<longleftrightarrow> (case s of
     None \<Rightarrow> False
   | Some s \<Rightarrow> pss_provider s = ''claude'' \<and> pss_binding s = b
       \<and> (pss_session s = sessionID \<or> (allowReserved \<and> pss_session s = '''')))"

definition processActivationSessionMatches ::
  "process_session option \<Rightarrow> process_binding \<Rightarrow> string \<Rightarrow> string \<Rightarrow> bool \<Rightarrow> bool" where
  "processActivationSessionMatches record b provider session allowReserved \<longleftrightarrow>
     (if provider = ''claude'' then processClaudeSessionMatches record b session allowReserved
      else case record of
        None \<Rightarrow> False
      | Some s \<Rightarrow> provider = ''codex'' \<and> pss_provider s = provider \<and> pss_binding s = b \<and> pss_session s = ''''
          \<and> (pss_thread s = session \<or> (allowReserved \<and> pss_thread s = ''''))
          \<and> (pss_connection s = pb_operation b \<or> (allowReserved \<and> pss_connection s = '''')))"

definition processResumableConversation :: "process_session \<Rightarrow> bool" where
  "processResumableConversation s \<longleftrightarrow> (pss_provider s = ''claude'' \<and> processIdentityToken (pss_session s))
     \<or> (pss_provider s = ''codex'' \<and> processIdentityToken (pss_thread s))"

section \<open>Reservation and birth\<close>

definition reservedSession :: "agent \<Rightarrow> process_binding \<Rightarrow> process_session" where
  "reservedSession a b = \<lparr>pss_provider = as_provider (a_spec a), pss_binding = b, pss_session = '''', pss_thread = '''',
     pss_connection = '''', pss_turn = '''', pss_resume = ProcessResumeUnknown, pss_stop = False, pss_pending = [],
     pss_history = None\<rparr>"

definition reserveProcess :: "process_binding \<Rightarrow> agent \<Rightarrow> registry \<Rightarrow> registry" where
  "reserveProcess b a r =
     (let r1 = updPane (pb_pane b) (\<lambda>p. setSession (Some (reservedSession a b))
            (p\<lparr>pn_spec := (pn_spec p)\<lparr>pns_runtime := RuntimeProcess\<rparr>\<rparr>)) r;
          r2 = updAgent (pb_agent b) (setPhase PhasePending) r1
      in setWindowAnchor (pb_window b) (firstWindowAnchorPaneUID r2 (pb_window b)) r2)"

definition ReserveProcessBinding :: "'w mutator \<Rightarrow> process_binding \<Rightarrow> ('w mstate, unit) comp" where
  "ReserveProcessBinding m b = (let bad = procErr ''reserve process binding'' in andThen getReg (\<lambda>r.
     case (lookupPane r (pb_pane b), lookupAgent r (pb_agent b)) of
       (Some p, Some a) \<Rightarrow>
         if \<not> validProcessBinding r p b then throw bad
         else if ast_pane (a_status a) \<noteq> pb_pane b
           \<or> (as_provider (a_spec a) \<noteq> ''claude'' \<and> as_provider (a_spec a) \<noteq> ''codex'') then throw bad
         else if pnst_process (pn_status p) \<noteq> None then
           (if EffectiveKind (pns_runtime (pn_spec p)) = RuntimeProcess \<and> processReservationCurrent p a b
            then return () else throw bad)
         else if (ast_phase (a_status a) \<noteq> PhasePending \<and> ast_phase (a_status a) \<noteq> PhaseRunning)
           \<or> \<not> activationIsZero (pnst_activation (pn_status p)) then throw bad
         else commitProcessRegistry m (reserveProcess b a r)
     | _ \<Rightarrow> throw bad))"

definition bornActivation :: "process_activation \<Rightarrow> pane_activation" where
  "bornActivation pa = emptyActivation\<lparr>act_kind := RuntimeProcess, act_agent := pb_agent (pa_binding pa),
     act_generation := pb_generation (pa_binding pa), act_operation := pb_operation (pa_binding pa), act_process := Some pa\<rparr>"

definition RecordProcessChild :: "'w mutator \<Rightarrow> process_activation \<Rightarrow> ('w mstate, unit) comp" where
  "RecordProcessChild m pa = (let bad = procErr ''record process child''; b = pa_binding pa in andThen getReg (\<lambda>r.
     case currentProcessReservation r b of
       None \<Rightarrow> throw bad
     | Some (p, a) \<Rightarrow>
         if \<not> identityProcessValid (pa_child pa) \<or> \<not> identityProcessValid (pa_host pa) then throw bad
         else if \<not> processReservationCurrent p a b then throw bad
         else if \<not> activationIsZero (pnst_activation (pn_status p)) then
           (if currentProcessActivation (pnst_activation (pn_status p)) b
              \<and> act_process (pnst_activation (pn_status p)) = Some pa then return () else throw bad)
         else commitProcessRegistry m (updAgent (pb_agent b) (setPhase PhaseRunning)
                (updPane (pb_pane b) (setActivation (bornActivation pa)) r))))"

text \<open>A snapshot's conversation, turn and controls; the resume history of the retired generation is kept.\<close>

definition RecordProcessSession ::
  "'w mutator \<Rightarrow> process_activation \<Rightarrow> process_session \<Rightarrow> ('w mstate, unit) comp" where
  "RecordProcessSession m pa record0 = (let bad = procErr ''record process session'' in andThen getReg (\<lambda>r.
     case CurrentProcessActivation r (pa_binding pa) of
       None \<Rightarrow> throw bad
     | Some (current, provider) \<Rightarrow>
         if current \<noteq> pa \<or> pss_binding record0 \<noteq> pa_binding pa \<or> pss_provider record0 \<noteq> provider then throw bad
         else (case Option.bind (lookupPane r (pb_pane (pss_binding record0))) (\<lambda>p. pnst_process (pn_status p)) of
           None \<Rightarrow> throw bad
         | Some stored \<Rightarrow>
             if pss_binding stored \<noteq> pss_binding record0 \<or> pss_provider stored \<noteq> provider then throw bad
             else if (pss_session stored \<noteq> '''' \<and> pss_session stored \<noteq> pss_session record0)
               \<or> (pss_thread stored \<noteq> '''' \<and> pss_thread stored \<noteq> pss_thread record0)
               \<or> (pss_connection stored \<noteq> '''' \<and> pss_connection stored \<noteq> pss_connection record0) then throw bad
             else if pss_history record0 \<noteq> None \<and> pss_history stored \<noteq> pss_history record0 then throw bad
             else (let snapshot = record0\<lparr>pss_history := pss_history stored\<rparr> in
               if stored = snapshot then return ()
               else commitProcessRegistry m (updPane (pb_pane (pss_binding record0)) (setSession (Some snapshot)) r)))))"

definition RecordProcessActivation ::
  "'w mutator \<Rightarrow> process_activation \<Rightarrow> string \<Rightarrow> ('w mstate, unit) comp" where
  "RecordProcessActivation m pa session = (let bad = procErr ''record process activation''; b = pa_binding pa in andThen getReg (\<lambda>r.
     case currentProcessReservation r b of
       None \<Rightarrow> throw bad
     | Some (p, a) \<Rightarrow>
         let act = pnst_activation (pn_status p); record = pnst_process (pn_status p); provider = as_provider (a_spec a) in
         if ast_phase (a_status a) \<noteq> PhaseRunning \<or> \<not> identityProcessValid (pa_host pa) \<or> \<not> identityProcessValid (pa_child pa)
           \<or> \<not> processIdentityToken session then throw bad
         else if \<not> processActivationSessionMatches record b provider session True then throw bad
         else if \<not> activationIsZero act \<and> (\<not> currentProcessActivation act b \<or> act_process act \<noteq> Some pa) then throw bad
         else if currentProcessActivation act b \<and> processActivationSessionMatches record b provider session False
           \<and> map_option pss_connection record = Some (pb_operation b) then return ()
         else commitProcessRegistry m (updPane (pb_pane b) (\<lambda>p. setSession
             (map_option (\<lambda>s. (if provider = ''codex'' then s\<lparr>pss_thread := session\<rparr> else s\<lparr>pss_session := session\<rparr>)
                \<lparr>pss_connection := pb_operation b\<rparr>) (pnst_process (pn_status p)))
             (setActivation (bornActivation pa) p)) r)))"

section \<open>Wait and retirement\<close>

definition receiptsOf :: "registry \<Rightarrow> process_binding \<Rightarrow> termination_record option \<times> termination_record option" where
  "receiptsOf r b = (Option.bind (lookupPane r (pb_pane b)) (\<lambda>p. pnst_termination (pn_status p)),
     Option.bind (lookupAgent r (pb_agent b)) (\<lambda>a. ast_termination (a_status a)))"

text \<open>The writer records the receipt and refuses unless both rows then hold it verbatim.\<close>

definition recordVerbatim ::
  "'w mutator \<Rightarrow> string \<Rightarrow> process_binding \<Rightarrow> termination_record \<Rightarrow> ('w mstate, unit) comp" where
  "recordVerbatim m op b rc = andThen (RecordTermination m rc) (\<lambda>out. andThen getReg (\<lambda>r.
     if (\<not> to_applied out \<and> \<not> to_duplicate out) \<or> \<not> SameProcessWait (fst (receiptsOf r b)) (Some rc)
       \<or> \<not> SameProcessWait (snd (receiptsOf r b)) (Some rc)
     then throw (procErr op) else return ()))"

definition retireActivation :: "process_binding \<Rightarrow> registry \<Rightarrow> registry" where
  "retireActivation b r = updAgent (pb_agent b) (setPhase PhaseOffline) (updPane (pb_pane b) (setActivation emptyActivation) r)"

definition retireProcessWait :: "'w mutator \<Rightarrow> process_binding \<Rightarrow> termination_record \<Rightarrow> ('w mstate, unit) comp" where
  "retireProcessWait m b rc =
     andThen (recordVerbatim m ''record process Wait'' b rc) (\<lambda>_. modReg (retireActivation b))"

definition retiredProcessWaitMatches :: "pane \<Rightarrow> agent \<Rightarrow> process_binding \<Rightarrow> termination_record \<Rightarrow> bool" where
  "retiredProcessWaitMatches p a b rc \<longleftrightarrow> ast_phase (a_status a) = PhaseOffline \<and> (case pnst_process (pn_status p) of
     None \<Rightarrow> False
   | Some s \<Rightarrow> pss_binding s = b \<and> pss_provider s = as_provider (a_spec a)
       \<and> SameProcessWait (pnst_termination (pn_status p)) (Some rc)
       \<and> SameProcessWait (ast_termination (a_status a)) (Some rc))"

definition markResumable :: "pane \<Rightarrow> pane" where
  "markResumable p = setSession (map_option (\<lambda>s. s\<lparr>pss_resume := ProcessResumable\<rparr>) (pnst_process (pn_status p))) p"

definition RecordProcessResumable ::
  "'w mutator \<Rightarrow> process_binding \<Rightarrow> termination_record option \<Rightarrow> ('w mstate, unit) comp" where
  "RecordProcessResumable m b receipt = (let bad = procErr ''record resumable process'' in andThen getReg (\<lambda>r.
     andThen (liftE (Validate r)) (\<lambda>_. case (lookupPane r (pb_pane b), lookupAgent r (pb_agent b)) of
       (Some p, Some a) \<Rightarrow>
         if \<not> validProcessBinding r p b \<or> EffectiveKind (pns_runtime (pn_spec p)) \<noteq> RuntimeProcess then throw bad
         else (case pnst_process (pn_status p) of
           None \<Rightarrow> throw bad
         | Some s \<Rightarrow>
             if ast_phase (a_status a) \<noteq> PhaseOffline \<or> \<not> activationIsZero (pnst_activation (pn_status p))
               \<or> (ast_pane (a_status a) \<noteq> '''' \<and> ast_pane (a_status a) \<noteq> pb_pane b) \<or> pss_binding s \<noteq> b
               \<or> pss_connection s \<noteq> pb_operation b \<or> \<not> processResumableConversation s then throw bad
             else if \<not> MatchesProcessWait b receipt \<or> \<not> SameProcessWait (pnst_termination (pn_status p)) receipt
               \<or> \<not> SameProcessWait (ast_termination (a_status a)) receipt then throw bad
             else if pss_resume s = ProcessResumable then return ()
             else commitProcessRegistry m (updPane (pb_pane b) markResumable r))
     | _ \<Rightarrow> throw bad)))"

definition promoteProcessWaitResume ::
  "'w mutator \<Rightarrow> process_binding \<Rightarrow> termination_record \<Rightarrow> ('w mstate, unit) comp" where
  "promoteProcessWaitResume m b rc = andThen getReg (\<lambda>r.
     case Option.bind (lookupPane r (pb_pane b)) (\<lambda>p. pnst_process (pn_status p)) of
       None \<Rightarrow> return ()
     | Some s \<Rightarrow>
         if \<not> processResumableConversation s \<or> pss_connection s \<noteq> pb_operation b then return ()
         else RecordProcessResumable m b (Some rc))"

definition RecordProcessWait ::
  "'w mutator \<Rightarrow> process_activation \<Rightarrow> termination_record \<Rightarrow> ('w mstate, unit) comp" where
  "RecordProcessWait m pa rc = (let bad = procErr ''record process Wait''; b = pa_binding pa in
     if \<not> MatchesProcessWait b (Some rc) then throw bad
     else andThen getReg (\<lambda>r. andThen (liftE (Validate r)) (\<lambda>_. case currentProcessReservation r b of
       None \<Rightarrow> throw bad
     | Some (p, a) \<Rightarrow>
         if activationIsZero (pnst_activation (pn_status p)) then
           (if retiredProcessWaitMatches p a b rc then promoteProcessWaitResume m b rc else throw bad)
         else if map_option fst (CurrentProcessActivation r b) \<noteq> Some pa then throw bad
         else andThen (onClone r (andThen (retireProcessWait m b rc) (\<lambda>_. promoteProcessWaitResume m b rc)))
           (\<lambda>(_, next'). commitProcessRegistry m next'))))"

section \<open>Resuming a retired conversation\<close>

definition processResumeReservation :: "process_session \<Rightarrow> process_binding \<Rightarrow> process_session" where
  "processResumeReservation previous b =
     previous\<lparr>pss_history := (if pss_history previous = None \<or> pss_turn previous \<noteq> '''' \<or> pss_pending previous \<noteq> []
         then Some \<lparr>ph_binding = pss_binding previous, ph_session = recordedConversation previous,
                ph_turn = pss_turn previous, ph_expired = pss_pending previous\<rparr>
         else pss_history previous),
       pss_stop := False, pss_binding := b, pss_connection := pb_operation b, pss_turn := '''', pss_pending := [],
       pss_resume := ProcessResumeUnknown\<rparr>"

definition freshGeneration :: "process_binding \<Rightarrow> process_binding \<Rightarrow> bool" where
  "freshGeneration previous b \<longleftrightarrow> pb_project b = pb_project previous \<and> pb_window b = pb_window previous
     \<and> pb_agent b = pb_agent previous \<and> pb_pane b = pb_pane previous \<and> pb_generation b \<noteq> pb_generation previous
     \<and> pb_operation b \<noteq> pb_operation previous \<and> pb_host b \<noteq> pb_host previous"

definition ReserveProcessResume ::
  "'w mutator \<Rightarrow> process_binding \<Rightarrow> process_binding \<Rightarrow> ('w mstate, unit) comp" where
  "ReserveProcessResume m previous b = (let bad = procErr ''reserve process resume'' in andThen getReg (\<lambda>r.
     andThen (liftE (Validate r)) (\<lambda>_. case (lookupPane r (pb_pane previous), lookupAgent r (pb_agent previous)) of
       (Some p, Some a) \<Rightarrow>
         if \<not> validProcessBinding r p previous \<or> \<not> validProcessBinding r p b \<or> \<not> freshGeneration previous b then throw bad
         else (case pnst_process (pn_status p) of
           None \<Rightarrow> throw bad
         | Some s \<Rightarrow>
             if EffectiveKind (pns_runtime (pn_spec p)) \<noteq> RuntimeProcess \<or> ast_phase (a_status a) \<noteq> PhaseOffline
               \<or> ast_pane (a_status a) \<noteq> pn_uid p \<or> \<not> activationIsZero (pnst_activation (pn_status p))
               \<or> pss_binding s \<noteq> previous \<or> pss_resume s \<noteq> ProcessResumable then throw bad
             else commitProcessRegistry m (updAgent (pb_agent b) (setPhase PhasePending)
                    (updPane (pb_pane b) (setSession (Some (processResumeReservation s b))) r)))
     | _ \<Rightarrow> throw bad)))"

definition RestoreProcessResume ::
  "'w mutator \<Rightarrow> process_binding \<Rightarrow> process_session \<Rightarrow> ('w mstate, unit) comp" where
  "RestoreProcessResume m b previous = (let bad = procErr ''restore process resume'' in andThen getReg (\<lambda>r.
     andThen (liftE (Validate r)) (\<lambda>_. case currentProcessReservation r b of
       None \<Rightarrow> throw bad
     | Some (p, a) \<Rightarrow>
         if ast_phase (a_status a) \<noteq> PhasePending \<or> \<not> activationIsZero (pnst_activation (pn_status p))
           \<or> pss_resume previous \<noteq> ProcessResumable \<or> \<not> validProcessBinding r p (pss_binding previous)
           \<or> pss_binding previous = b \<or> pnst_process (pn_status p) \<noteq> Some (processResumeReservation previous b) then throw bad
         else commitProcessRegistry m (updAgent (pb_agent b) (setPhase PhaseOffline)
                (updPane (pb_pane b) (setSession (Some previous)) r)))))"

section \<open>A lost host\<close>

definition lostReceipt :: "process_binding \<Rightarrow> time \<Rightarrow> termination_record" where
  "lostReceipt b now = \<lparr>t_source = TerminationSourceReconcile, t_class = TerminationUnknown, t_observed = now,
     t_pane = pb_pane b, t_agent = pb_agent b, t_generation = pb_generation b, t_exit = None, t_signal = '''',
     t_operation = pb_operation b\<rparr>"

text \<open>\<open>ReserveProcessHostLostResume\<close> compares the stored receipt field by field, without its exit fields;
  \<open>MarkProcessHostLostOffline\<close> uses \<open>MatchesProcessHostLostRetirement\<close>.\<close>

definition storedLostReceipt :: "termination_record \<Rightarrow> process_binding \<Rightarrow> bool" where
  "storedLostReceipt t b \<longleftrightarrow> t_source t = TerminationSourceReconcile \<and> t_class t = TerminationUnknown
     \<and> t_generation t = pb_generation b \<and> t_operation t = pb_operation b \<and> t_pane t = pb_pane b \<and> t_agent t = pb_agent b"

definition lostHostPane :: "registry \<Rightarrow> process_activation \<Rightarrow> pane option" where
  "lostHostPane r pa = (if map_option fst (CurrentProcessActivation r (pa_binding pa)) \<noteq> Some pa then None
     else case lookupPane r (pb_pane (pa_binding pa)) of
       None \<Rightarrow> None
     | Some p \<Rightarrow> (case pnst_process (pn_status p) of
         None \<Rightarrow> None
       | Some s \<Rightarrow>
           if pss_binding s \<noteq> pa_binding pa \<or> pss_connection s \<noteq> pb_operation (pa_binding pa)
             \<or> \<not> processResumableConversation s then None else Some p))"

definition ReserveProcessHostLostResume ::
  "'w mutator \<Rightarrow> process_activation \<Rightarrow> process_binding \<Rightarrow> ('w mstate, unit) comp" where
  "ReserveProcessHostLostResume m pa b = (let op = ''resume lost host''; old = pa_binding pa in andThen getReg (\<lambda>r.
     andThen (liftE (Validate r)) (\<lambda>_. case lostHostPane r pa of
       None \<Rightarrow> throw (procErr op)
     | Some p \<Rightarrow> andThen (clock m) (\<lambda>now.
         let rc = (case pnst_termination (pn_status p) of
               Some t \<Rightarrow> if storedLostReceipt t old then t else lostReceipt old now | None \<Rightarrow> lostReceipt old now)
         in andThen (onClone r (andThen (recordVerbatim m op old rc) (\<lambda>_.
              andThen (modReg (\<lambda>r. updPane (pb_pane old) (\<lambda>p. setSession (map_option (\<lambda>s. s\<lparr>pss_history := None\<rparr>)
                  (pnst_process (pn_status (markResumable p)))) (markResumable p)) (retireActivation old r))) (\<lambda>_.
              ReserveProcessResume m old b))))
            (\<lambda>(_, next'). commitProcessRegistry m next')))))"

definition RestoreProcessHostLostResume ::
  "'w mutator \<Rightarrow> process_binding \<Rightarrow> process_session \<Rightarrow> process_activation \<Rightarrow> ('w mstate, unit) comp" where
  "RestoreProcessHostLostResume m b previous pa =
     (if pa_binding pa \<noteq> pss_binding previous then throw (procErr ''restore lost host'')
      else andThen getReg (\<lambda>r. andThen (onClone r (RestoreProcessResume m b
              (previous\<lparr>pss_resume := ProcessResumable, pss_history := None\<rparr>))) (\<lambda>(_, next').
        commitProcessRegistry m (updAgent (pb_agent (pss_binding previous)) (setPhase PhaseRunning)
          (updPane (pb_pane (pss_binding previous)) (\<lambda>p. setActivation (bornActivation pa) (setSession (Some previous) p)) next')))))"

definition MarkProcessHostLostOffline :: "'w mutator \<Rightarrow> process_activation \<Rightarrow> ('w mstate, unit) comp" where
  "MarkProcessHostLostOffline m pa = (let op = ''mark lost host offline''; b = pa_binding pa in andThen getReg (\<lambda>r.
     andThen (liftE (Validate r)) (\<lambda>_. case lostHostPane r pa of
       None \<Rightarrow> throw (procErr op)
     | Some p \<Rightarrow> andThen (clock m) (\<lambda>now.
         let rc = (if MatchesProcessHostLostRetirement b (pnst_termination (pn_status p))
               then the (pnst_termination (pn_status p)) else lostReceipt b now)
         in andThen (onClone r (andThen (recordVerbatim m op b rc) (\<lambda>_.
              modReg (\<lambda>r. updPane (pb_pane b) markResumable (retireActivation b r)))))
            (\<lambda>(_, next'). commitProcessRegistry m next')))))"

definition ProcessHostLostRetired :: "process_binding \<Rightarrow> pane \<Rightarrow> agent \<Rightarrow> bool" where
  "ProcessHostLostRetired b p a \<longleftrightarrow> EffectiveKind (pns_runtime (pn_spec p)) = RuntimeProcess \<and> pn_uid p = pb_pane b
     \<and> activationIsZero (pnst_activation (pn_status p)) \<and> map_option pss_binding (pnst_process (pn_status p)) = Some b
     \<and> a_uid a = pb_agent b \<and> ast_phase (a_status a) = PhaseOffline \<and> ast_pane (a_status a) = pn_uid p
     \<and> MatchesProcessHostLostRetirement b (pnst_termination (pn_status p))
     \<and> SameProcessWait (pnst_termination (pn_status p)) (ast_termination (a_status a))"

definition ProcessHostLostOffline :: "registry \<Rightarrow> string \<Rightarrow> bool" where
  "ProcessHostLostOffline r paneUID = (case lookupPane r paneUID of
     None \<Rightarrow> False
   | Some p \<Rightarrow> (case pnst_process (pn_status p) of
       None \<Rightarrow> False
     | Some s \<Rightarrow> (case lookupAgent r (pb_agent (pss_binding s)) of
         None \<Rightarrow> False
       | Some a \<Rightarrow> ProcessHostLostRetired (pss_binding s) p a)))"

end
