(* ===== verification/Removal.thy ===== *)
theory Removal
  imports Agents
begin

text \<open>
  What the deletion cascades of \<^verbatim>\<open>internal/core/metadata/agent.go\<close> do to the identity view: dropping the
  Panes of an owner, an Agent with its Panes, a Window with everything below it and a Project keeps the
  identity invariant when owner references are exact (not padded with space, which the lookups of a name
  scope would trim but the cascades would not).
\<close>

section \<open>Exact references\<close>

definition exactRefs :: "registry \<Rightarrow> bool" where
  "exactRefs r \<longleftrightarrow> (\<forall>k. \<forall>i \<in> set (idents r k). trimSpace (iuid i) = iuid i \<and> trimSpace (iowner i) = iowner i)"

lemma exactRefs_subset: "exactRefs r \<Longrightarrow> (\<And>k. set (idents r' k) \<subseteq> set (idents r k)) \<Longrightarrow> exactRefs r'"
  unfolding exactRefs_def by blast

lemma exactRefs_same: "sameIdents r r' \<Longrightarrow> exactRefs r \<Longrightarrow> exactRefs r'"
  by (simp add: exactRefs_def sameIdents_def)

text \<open>What owns what, by kind.\<close>

lemma owner_kinds:
  assumes I: "identity r" and i: "i \<in> set (idents r k)"
  shows "k = KindWindow \<Longrightarrow> trimSpace (iowner i) \<in> uidsAt r KindProject \<union> uidsAt r KindControlSession"
    and "k = KindAgent \<Longrightarrow> trimSpace (iowner i) \<in> uidsAt r KindWindow"
    and "k = KindPane \<Longrightarrow> trimSpace (iowner i) \<in> uidsAt r KindWindow \<union> uidsAt r KindAgent"
proof -
  have "reservedAt r k i" using I i by (simp add: identity_def)
  then obtain s where s: "scopeFor r k (iowner i) = Inr s" by (auto simp: reservedAt_def split: sum.splits)
  have in_at: "v \<in> uidsAt r kk" if "ownerOf r kk v = Some x" for kk v x using that ownerOf_None by (metis option.distinct(1))
  show "trimSpace (iowner i) \<in> uidsAt r KindProject \<union> uidsAt r KindControlSession" if "k = KindWindow"
    using s that by (simp add: rootScope_view split: if_splits)
  show "trimSpace (iowner i) \<in> uidsAt r KindWindow" if "k = KindAgent"
    using s that by (auto simp: agentScope_view split: option.splits dest: in_at)
  show "trimSpace (iowner i) \<in> uidsAt r KindWindow \<union> uidsAt r KindAgent" if "k = KindPane"
    using s that by (auto simp: paneScope_view split: option.splits dest: in_at)
qed

section \<open>Dropping the Panes of an owner\<close>

lemma deletePane_absent: "lookupPane r u = None \<Longrightarrow> fst (deletePane u r) = r"
  by (simp add: deletePane_def)

lemma deletePane_panes:
  assumes I: "identity r"
  shows "identity (fst (deletePane u r))"
    and "idents (fst (deletePane u r)) = (idents r)(KindPane := filter (\<lambda>i. iuid i \<noteq> u) (idents r KindPane))"
proof -
  have "identity (fst (deletePane u r)) \<and>
    idents (fst (deletePane u r)) = (idents r)(KindPane := filter (\<lambda>i. iuid i \<noteq> u) (idents r KindPane))"
  proof (cases "lookupPane r u = None")
    case True
    then have "filter (\<lambda>i. iuid i \<noteq> u) (idents r KindPane) = idents r KindPane"
      by (intro filter_True) (auto simp: lookup_None)
    then show ?thesis using I by (simp add: deletePane_absent [OF True] del: idents.simps)
  next
    case False
    obtain r' k where d: "deletePane u r = (r', k)" by fastforce
    show ?thesis using deletePane_outcome(1) [OF I False d] deletePane_idents(1) [OF I False d] d by simp
  qed
  then show "identity (fst (deletePane u r))"
    "idents (fst (deletePane u r)) = (idents r)(KindPane := filter (\<lambda>i. iuid i \<noteq> u) (idents r KindPane))" by blast+
qed

lemma fold_deletePane:
  assumes "identity r"
  shows "identity (foldl (\<lambda>r p. fst (deletePane (pn_uid p) r)) r ps)
    \<and> idents (foldl (\<lambda>r p. fst (deletePane (pn_uid p) r)) r ps)
      = (idents r)(KindPane := filter (\<lambda>i. iuid i \<notin> pn_uid ` set ps) (idents r KindPane))"
  using assms
proof (induction ps arbitrary: r)
  case (Cons p ps)
  note one = deletePane_panes [OF Cons.prems, of "pn_uid p"]
  have "filter (\<lambda>i. iuid i \<notin> pn_uid ` set ps) (filter (\<lambda>i. iuid i \<noteq> pn_uid p) xs)
      = filter (\<lambda>i. iuid i \<notin> pn_uid ` set (p # ps)) xs" for xs :: "ident list"
    by (simp add: conj_commute)
  with Cons.IH [OF one(1)] show ?case by (simp only: foldl_Cons one(2) fun_upd_same fun_upd_upd)
qed (simp add: fun_upd_idem del: idents.simps)

lemma dropPanes_panes:
  assumes I: "identity r"
  shows "identity (dropPanes u r)"
    and "idents (dropPanes u r) = (idents r)(KindPane := filter (\<lambda>i. iowner i \<noteq> u) (idents r KindPane))"
proof -
  have d: "distinct (map pn_uid (r_panes r))" using I by (simp add: identity_def allUids_def)
  have "iuid i \<in> pn_uid ` set (PanesOf r u) \<longleftrightarrow> iowner i = u" if i: "i \<in> set (idents r KindPane)" for i
  proof -
    obtain p where p: "p \<in> set (r_panes r)" "i = ident (pn_meta p)" using i by auto
    have inj: "inj_on pn_uid (set (r_panes r))" using d by (simp add: distinct_map)
    show ?thesis
    proof
      assume "iuid i \<in> pn_uid ` set (PanesOf r u)"
      then obtain q where "q \<in> set (r_panes r)" "OwnerUID (pn_meta q) = u" "pn_uid q = pn_uid p"
        using p by (auto simp: PanesOf_def)
      then show "iowner i = u" using inj_onD [OF inj, of q p] p by auto
    next
      assume "iowner i = u"
      then show "iuid i \<in> pn_uid ` set (PanesOf r u)" using p by (auto simp: PanesOf_def)
    qed
  qed
  then have "filter (\<lambda>i. iuid i \<notin> pn_uid ` set (PanesOf r u)) (idents r KindPane)
    = filter (\<lambda>i. iowner i \<noteq> u) (idents r KindPane)" by (intro filter_cong) auto
  then show "identity (dropPanes u r)"
    "idents (dropPanes u r) = (idents r)(KindPane := filter (\<lambda>i. iowner i \<noteq> u) (idents r KindPane))"
    using fold_deletePane [OF I, of "PanesOf r u"] by (simp_all add: dropPanes_def del: idents.simps)
qed

section \<open>Dropping an Agent, a Window, a Project\<close>

lemma delFirst_key: "distinct (map f xs) \<Longrightarrow> delFirst (\<lambda>x. f x = u) xs = filter (\<lambda>x. f x \<noteq> u) xs"
  by (rule delFirst_filter)

lemma filter_idents: "map (\<lambda>x. ident (f x)) (filter (\<lambda>x. om_uid (f x) \<noteq> u) xs) = filter (\<lambda>i. iuid i \<noteq> u) (map (\<lambda>x. ident (f x)) xs)"
  by (simp add: filter_map comp_def)

lemma deleteRow_idents:
  assumes "identity r"
  shows "idents (r\<lparr>r_agents := delFirst (\<lambda>a. a_uid a = u) (r_agents r)\<rparr>) = (idents r)(KindAgent := filter (\<lambda>i. iuid i \<noteq> u) (idents r KindAgent))"
    and "idents (r\<lparr>r_windows := delFirst (\<lambda>w. w_uid w = u) (r_windows r)\<rparr>) = (idents r)(KindWindow := filter (\<lambda>i. iuid i \<noteq> u) (idents r KindWindow))"
    and "idents (r\<lparr>r_projects := delFirst (\<lambda>p. p_uid p = u) (r_projects r)\<rparr>) = (idents r)(KindProject := filter (\<lambda>i. iuid i \<noteq> u) (idents r KindProject))"
proof -
  have d: "distinct (map a_uid (r_agents r))" "distinct (map w_uid (r_windows r))" "distinct (map p_uid (r_projects r))"
    using assms by (auto simp: identity_def allUids_def)
  show "idents (r\<lparr>r_agents := delFirst (\<lambda>a. a_uid a = u) (r_agents r)\<rparr>) = (idents r)(KindAgent := filter (\<lambda>i. iuid i \<noteq> u) (idents r KindAgent))"
    by (simp only: delFirst_key [OF d(1)] idents_update filter_idents idents.simps)
  show "idents (r\<lparr>r_windows := delFirst (\<lambda>w. w_uid w = u) (r_windows r)\<rparr>) = (idents r)(KindWindow := filter (\<lambda>i. iuid i \<noteq> u) (idents r KindWindow))"
    by (simp only: delFirst_key [OF d(2)] idents_update filter_idents idents.simps)
  show "idents (r\<lparr>r_projects := delFirst (\<lambda>p. p_uid p = u) (r_projects r)\<rparr>) = (idents r)(KindProject := filter (\<lambda>i. iuid i \<noteq> u) (idents r KindProject))"
    by (simp only: delFirst_key [OF d(3)] idents_update filter_idents idents.simps)
qed

lemma releaseNames_view [simp]:
  "idents (releaseNames u r) = idents r" "r_names (releaseNames u r) = releaseIn u (r_names r)"
  by (simp_all add: releaseNames_def)

lemma exact_owner: "exactRefs r \<Longrightarrow> i \<in> set (idents r k) \<Longrightarrow> trimSpace (iowner i) = iowner i"
  by (auto simp: exactRefs_def)

text \<open>The row of an Agent without Panes.\<close>

lemma deleteAgentRow_identity:
  assumes I: "identity r" and X: "exactRefs r" and u: "u \<in> uidsAt r KindAgent"
    and no: "\<forall>i \<in> set (idents r KindPane). iowner i \<noteq> u"
  shows "identity (deleteAgentRow u r)"
proof (rule removeResource_identity [OF I u])
  show "idents (deleteAgentRow u r) = (idents r)(KindAgent := filter (\<lambda>i. iuid i \<noteq> u) (idents r KindAgent))"
    by (simp only: deleteAgentRow_def releaseNames_view deleteRow_idents [OF I])
  show "r_names (deleteAgentRow u r) = releaseIn u (r_names r)" by (simp add: deleteAgentRow_def)
  fix k i assume k: "scoped k" and i: "i \<in> set (idents r k)"
  have d: "distinct (allUids r)" using I by (simp add: identity_def)

  show "trimSpace (iowner i) \<noteq> u"
  proof (cases "k = KindPane")
    case True
    with no i exact_owner [OF X i] show ?thesis by metis
  next
    case False
    with k owner_kinds(1,2) [OF I i] have "trimSpace (iowner i) \<notin> uidsAt r KindAgent"
      using uidsAt_disjoint [OF d, of "trimSpace (iowner i)" KindAgent] by (auto simp: scoped_def)
    with u show ?thesis by blast
  qed
qed

lemma deleteAgentRow_idents:
  "identity r \<Longrightarrow> idents (deleteAgentRow u r) = (idents r)(KindAgent := filter (\<lambda>i. iuid i \<noteq> u) (idents r KindAgent))"
  by (simp only: deleteAgentRow_def releaseNames_view deleteRow_idents)

lemma exactRefs_filter:
  "exactRefs r \<Longrightarrow> idents r' = (idents r)(k := filter P (idents r k)) \<Longrightarrow> exactRefs r'"
  by (erule exactRefs_subset) (auto simp del: idents.simps)

lemma dropAgent_view:
  assumes I: "identity r" and X: "exactRefs r" and u: "a_uid a \<in> uidsAt r KindAgent"
  shows "identity (dropAgent r a)" "exactRefs (dropAgent r a)"
    and "idents (dropAgent r a) = (idents r)(KindPane := filter (\<lambda>i. iowner i \<noteq> a_uid a) (idents r KindPane),
       KindAgent := filter (\<lambda>i. iuid i \<noteq> a_uid a) (idents r KindAgent))"
proof -
  note dp = dropPanes_panes [OF I, of "a_uid a"]
  let ?r = "dropPanes (a_uid a) r"
  have X1: "exactRefs ?r" by (rule exactRefs_filter [OF X dp(2)])
  have "a_uid a \<in> uidsAt ?r KindAgent" using u by (simp add: uidsAt_def dp(2) del: idents.simps)
  then show "identity (dropAgent r a)"
    unfolding dropAgent_def by (intro deleteAgentRow_identity [OF dp(1) X1]) (auto simp: dp(2) simp del: idents.simps)
  have v: "idents (dropAgent r a) = (idents ?r)(KindAgent := filter (\<lambda>i. iuid i \<noteq> a_uid a) (idents ?r KindAgent))"
    unfolding dropAgent_def by (rule deleteAgentRow_idents [OF dp(1)])
  show "exactRefs (dropAgent r a)" by (rule exactRefs_filter [OF X1 v])
  show "idents (dropAgent r a) = (idents r)(KindPane := filter (\<lambda>i. iowner i \<noteq> a_uid a) (idents r KindPane),
       KindAgent := filter (\<lambda>i. iuid i \<noteq> a_uid a) (idents r KindAgent))"
    by (simp add: v dp(2) fun_upd_twist del: idents.simps)
qed

lemma filter_filter_notin:
  "filter (\<lambda>i. f i \<notin> g ` set xs) (filter (\<lambda>i. f i \<noteq> g x) ys) = filter (\<lambda>i. f i \<notin> g ` set (x # xs)) ys"
  by (simp add: conj_commute)

lemma fold_dropAgent:
  assumes "identity r" and "exactRefs r" and "\<forall>a \<in> set as. a_uid a \<in> uidsAt r KindAgent" and "distinct (map a_uid as)"
  shows "identity (foldl dropAgent r as) \<and> exactRefs (foldl dropAgent r as)
    \<and> idents (foldl dropAgent r as) = (idents r)(KindPane := filter (\<lambda>i. iowner i \<notin> a_uid ` set as) (idents r KindPane),
       KindAgent := filter (\<lambda>i. iuid i \<notin> a_uid ` set as) (idents r KindAgent))"
  using assms
proof (induction as arbitrary: r)
  case (Cons a as)
  have u: "a_uid a \<in> uidsAt r KindAgent" using Cons.prems(3) by simp
  note v = dropAgent_view [OF Cons.prems(1,2) u]
  have at: "x \<in> uidsAt (dropAgent r a) KindAgent" if "x \<in> uidsAt r KindAgent" "x \<noteq> a_uid a" for x
    using that by (force simp: uidsAt_def v(3) simp del: idents.simps)
  have "\<forall>b \<in> set as. a_uid b \<in> uidsAt (dropAgent r a) KindAgent"
    using Cons.prems(3,4) by (intro ballI at) (auto simp: image_iff)
  from Cons.IH [OF v(1,2) this] Cons.prems(4) show ?case
    by (simp add: v(3) filter_filter_notin [simplified] fun_eq_iff conj_commute del: idents.simps)
qed (simp add: fun_upd_idem del: idents.simps)

lemma agentsOf_uids:
  assumes I: "identity r" and i: "i \<in> set (idents r KindAgent)"
  shows "iuid i \<in> a_uid ` set (AgentsOf r W) \<longleftrightarrow> iowner i = W"
proof -
  obtain a where a: "a \<in> set (r_agents r)" "i = ident (a_meta a)" using i by auto
  have "distinct (map a_uid (r_agents r))" using I by (simp add: identity_def allUids_def)
  then have inj: "inj_on a_uid (set (r_agents r))" by (simp add: distinct_map)
  show ?thesis
  proof
    assume "iuid i \<in> a_uid ` set (AgentsOf r W)"
    then obtain b where "b \<in> set (r_agents r)" "OwnerUID (a_meta b) = W" "a_uid b = a_uid a"
      using a by (auto simp: AgentsOf_def)
    then show "iowner i = W" using inj_onD [OF inj, of b a] a by auto
  next
    assume "iowner i = W"
    then show "iuid i \<in> a_uid ` set (AgentsOf r W)" using a by (auto simp: AgentsOf_def)
  qed
qed

lemma dropWindow_view:
  assumes I: "identity r" and X: "exactRefs r" and W: "W \<in> uidsAt r KindWindow"
  shows "identity (dropWindow W r)" "exactRefs (dropWindow W r)"
    and "idents (dropWindow W r) = (idents r)
      (KindPane := filter (\<lambda>i. iowner i \<noteq> W \<and> iowner i \<notin> a_uid ` set (AgentsOf r W)) (idents r KindPane),
       KindAgent := filter (\<lambda>i. iowner i \<noteq> W) (idents r KindAgent),
       KindWindow := filter (\<lambda>i. iuid i \<noteq> W) (idents r KindWindow))"
proof -
  let ?as = "AgentsOf r W" and ?r1 = "foldl dropAgent r (AgentsOf r W)"
  let ?r2 = "dropPanes W ?r1"
  have "\<forall>a \<in> set ?as. a_uid a \<in> uidsAt r KindAgent" by (auto simp: AgentsOf_def uidsAt_simps)
  moreover have "distinct (map a_uid ?as)"
    using I by (simp add: AgentsOf_def identity_def allUids_def distinct_map_filter)
  ultimately have f: "identity ?r1" "exactRefs ?r1"
    "idents ?r1 = (idents r)(KindPane := filter (\<lambda>i. iowner i \<notin> a_uid ` set ?as) (idents r KindPane),
       KindAgent := filter (\<lambda>i. iuid i \<notin> a_uid ` set ?as) (idents r KindAgent))"
    using fold_dropAgent [OF I X, of ?as] by blast+
  have ag: "filter (\<lambda>i. iuid i \<notin> a_uid ` set ?as) (idents r KindAgent) = filter (\<lambda>i. iowner i \<noteq> W) (idents r KindAgent)"
    using agentsOf_uids [OF I] by (intro filter_cong) auto
  note dp = dropPanes_panes [OF f(1), of W]
  have X2: "exactRefs ?r2" by (rule exactRefs_filter [OF f(2) dp(2)])
  have v2: "idents ?r2 = (idents r)
      (KindPane := filter (\<lambda>i. iowner i \<noteq> W \<and> iowner i \<notin> a_uid ` set ?as) (idents r KindPane),
       KindAgent := filter (\<lambda>i. iowner i \<noteq> W) (idents r KindAgent))"
    by (simp add: dp(2) f(3) ag fun_upd_twist conj_commute del: idents.simps)
  have rw: "dropWindow W r = releaseNames W (?r2\<lparr>r_windows := delFirst (\<lambda>w. w_uid w = W) (r_windows ?r2)\<rparr>)"
    by (simp add: dropWindow_def Let_def)
  have v3: "idents (dropWindow W r) = (idents ?r2)(KindWindow := filter (\<lambda>i. iuid i \<noteq> W) (idents ?r2 KindWindow))"
    by (simp only: rw releaseNames_view deleteRow_idents [OF dp(1)])
  have W2: "W \<in> uidsAt ?r2 KindWindow" using W by (simp add: uidsAt_def v2 del: idents.simps)
  show "identity (dropWindow W r)"
  proof (rule removeResource_identity [OF dp(1) W2 v3])
    show "r_names (dropWindow W r) = releaseIn W (r_names ?r2)" by (simp add: rw)
    fix k i assume k: "scoped k" and i: "i \<in> set (idents ?r2 k)"
    have d: "distinct (allUids ?r2)" using dp(1) by (simp add: identity_def)
    have t: "trimSpace (iowner i) = iowner i" by (rule exact_owner [OF X2 i])
    show "trimSpace (iowner i) \<noteq> W"
    proof (cases "k = KindWindow")
      case True
      with owner_kinds(1) [OF dp(1) i] uidsAt_disjoint [OF d W2] show ?thesis by auto
    next
      case False
      with k i show ?thesis by (auto simp: scoped_def v2 t simp del: idents.simps)
    qed
  qed
  show "exactRefs (dropWindow W r)" by (rule exactRefs_filter [OF X2 v3])
  show "idents (dropWindow W r) = (idents r)
      (KindPane := filter (\<lambda>i. iowner i \<noteq> W \<and> iowner i \<notin> a_uid ` set (AgentsOf r W)) (idents r KindPane),
       KindAgent := filter (\<lambda>i. iowner i \<noteq> W) (idents r KindAgent),
       KindWindow := filter (\<lambda>i. iuid i \<noteq> W) (idents r KindWindow))"
    by (simp add: v3 v2 del: idents.simps)
qed

section \<open>The invariant of the lifecycle\<close>

definition wf :: "registry \<Rightarrow> bool" where
  "wf r \<longleftrightarrow> identity r \<and> exactRefs r"

definition wfOK :: "'w mstate \<Rightarrow> bool" where
  "wfOK s \<longleftrightarrow> wf (ms_reg s)"

lemma wf_same: "sameIdents r r' \<Longrightarrow> wf r \<Longrightarrow> wf r'"
  by (simp add: wf_def identity_cong exactRefs_same)

lemma sameIdents_repick: "sameIdents r (repickPrimary W target r)"
  unfolding repickPrimary_def Let_def
  by (auto simp: sameIdents_def [of r r] intro!: sameIdents_upd split: option.split)

lemma wf_deletePane: "wf r \<Longrightarrow> wf (fst (deletePane u r))"
  using deletePane_panes [of r u] exactRefs_filter [of r _ KindPane] by (auto simp: wf_def)

lemma wf_dropWindow: "wf r \<Longrightarrow> lookupWindow r W \<noteq> None \<Longrightarrow> wf (dropWindow W r)"
  using dropWindow_view [of r W] by (auto simp: wf_def lookup_None uidsAt_simps)

lemma wf_dropAgent:
  assumes "wf r" and "lookupAgent r u = Some a"
  shows "wf (deleteAgentRow u (dropPanes u r))"
proof -
  have "a_uid a = u" "a_uid a \<in> uidsAt r KindAgent" using lookup_Some(5) [OF assms(2)] by (auto simp: uidsAt_simps)
  with dropAgent_view [of r a] assms(1) show ?thesis by (simp add: wf_def dropAgent_def)
qed

lemma wf_dropProject:
  assumes "wf r" and "u \<in> uidsAt r KindProject" and no: "WindowsOf r u = []"
  shows "wf (releaseNames u (r\<lparr>r_projects := delFirst (\<lambda>p. p_uid p = u) (r_projects r)\<rparr>))" (is "wf ?r'")
proof -
  have I: "identity r" and X: "exactRefs r" using assms(1) by (simp_all add: wf_def)
  have v: "idents ?r' = (idents r)(KindProject := filter (\<lambda>i. iuid i \<noteq> u) (idents r KindProject))"
    by (simp only: releaseNames_view deleteRow_idents [OF I])
  have "identity ?r'"
  proof (rule removeResource_identity [OF I assms(2) v])
    fix k i assume k: "scoped k" and i: "i \<in> set (idents r k)"
    have d: "distinct (allUids r)" using I by (simp add: identity_def)
    show "trimSpace (iowner i) \<noteq> u"
    proof (cases "k = KindWindow")
      case True
      then obtain w where "w \<in> set (r_windows r)" "iowner i = OwnerUID (w_meta w)" using i by auto
      with no exact_owner [OF X i] show ?thesis by (auto simp: WindowsOf_def filter_empty_conv)
    next
      case False
      with k owner_kinds(2,3) [OF I i] uidsAt_disjoint [OF d assms(2)] show ?thesis by (auto simp: scoped_def)
    qed
  qed simp
  with exactRefs_filter [OF X v] show ?thesis by (simp add: wf_def)
qed

end
