(* ===== verification/Exactness.thy ===== *)
theory Exactness
  imports Removal
begin

text \<open>
  Owner references stay exact: with an environment that mints uids without surrounding space, every
  operation of \<^verbatim>\<open>internal/core/metadata/mutator.go\<close> keeps \<open>exactRefs\<close>, because an owner is always a uid that a
  lookup has just found.
\<close>

definition exactMint :: "'w mutator \<Rightarrow> bool" where
  "exactMint m \<longleftrightarrow> (\<forall>k w. case fst (NewUID m k w) of Inl _ \<Rightarrow> True | Inr u \<Rightarrow> trimSpace u = u)"

definition exOK :: "'w mstate \<Rightarrow> bool" where
  "exOK s \<longleftrightarrow> exactRefs (ms_reg s)"

text \<open>The uid and owner columns decide exactness.\<close>

lemma exactRefs_columns:
  assumes "\<And>k. map (\<lambda>i. (iuid i, iowner i)) (idents r' k) = map (\<lambda>i. (iuid i, iowner i)) (idents r k)"
    and "exactRefs r"
  shows "exactRefs r'"
proof -
  have col: "exactRefs q \<longleftrightarrow> (\<forall>k. \<forall>c \<in> set (map (\<lambda>i. (iuid i, iowner i)) (idents q k)). trimSpace (fst c) = fst c \<and> trimSpace (snd c) = snd c)" for q
    by (simp add: exactRefs_def del: idents.simps)
  show ?thesis using assms(2) unfolding col by (simp only: assms(1))
qed

lemma exactRefs_renamed:
  assumes "idents r' = renamed k u name (idents r)" and "exactRefs r"
  shows "exactRefs r'"
proof (rule exactRefs_columns [OF _ assms(2)])
  fix kk
  have "map (\<lambda>i. (iuid i, iowner i)) (updFirst (\<lambda>i. iuid i = u) (\<lambda>i. (u, name, iowner i)) xs)
      = map (\<lambda>i. (iuid i, iowner i)) xs" for xs
    by (rule map_updFirst) auto
  then show "map (\<lambda>i. (iuid i, iowner i)) (idents r' kk) = map (\<lambda>i. (iuid i, iowner i)) (idents r kk)"
    by (simp add: assms(1) renamed_def del: idents.simps)
qed

lemma exactRefs_names: "exactRefs (r\<lparr>r_names := ns\<rparr>) = exactRefs r"
  by (simp add: exactRefs_def)

lemma exactRefs_append:
  assumes "exactRefs r" and "idents r' = (idents r)(k := idents r k @ [i])"
    and "trimSpace (iuid i) = iuid i" "trimSpace (iowner i) = iowner i"
  shows "exactRefs r'"
  using assms unfolding exactRefs_def by (auto simp del: idents.simps)

section \<open>Rules\<close>

lemma ex_modReg: "(\<And>r. exactRefs r \<Longrightarrow> exactRefs (f r)) \<Longrightarrow> keeps exOK (modReg f)"
  by (simp add: keeps_def exOK_def modReg_def)

lemma ex_same: "(\<And>r. sameIdents r (f r)) \<Longrightarrow> keeps exOK (modReg f)"
  by (rule ex_modReg) (rule exactRefs_same)

lemma ex_env [preserve]:
  "keeps exOK (clock m)" "keeps exOK (mintUID m k)" "keeps exOK (dirExists m op path)"
  "keeps exOK (Begin t)" "keeps exOK Commit" "keeps exOK (record_created k u)"
  by (auto simp: keeps_def exOK_def clock_def mintUID_def dirExists_def Begin_def Commit_def record_created_def
      split: prod.splits option.splits)

lemma ex_stamp [preserve]: "keeps exOK (stamp m)"
  unfolding stamp_def by (intro preserve ex_same sameIdents_updated)

lemma ex_the [preserve]: "keeps exOK (theProject u)" "keeps exOK (theWindow u)" "keeps exOK (thePane u)" "keeps exOK (theAgent u)"
  unfolding theProject_def theWindow_def thePane_def theAgent_def by (intro preserve)+

lemma ex_validateRoot [preserve]: "keeps exOK (validateRoot m op root)"
  unfolding validateRoot_def Let_def by (intro preserve)

lemma keeps_andThen_post:
  assumes "keeps P a" and "\<And>s x s'. P s \<Longrightarrow> a s = (Inr x, s') \<Longrightarrow> Q x" and "\<And>x. Q x \<Longrightarrow> keeps P (f x)"
  shows "keeps P (andThen a f)"
  unfolding keeps_def
proof (intro allI impI)
  fix s assume s: "P s"
  then have k: "P (snd (a s))" using assms(1) by (simp add: keeps_def)
  show "P (snd (andThen a f s))"
  proof (cases "a s")
    case (Pair e s')
    show ?thesis
    proof (cases e)
      case (Inr x)
      have "keeps P (f x)" by (rule assms(3) [OF assms(2) [OF s]]) (simp add: Pair Inr)
      with k Pair Inr show ?thesis by (simp add: keeps_def andThen_def)
    qed (use k Pair in \<open>simp add: andThen_def\<close>)
  qed
qed

lemma keeps_getReg_known:
  assumes "\<And>r. Q r \<Longrightarrow> keeps P (f r)" and "\<And>s. P s \<Longrightarrow> Q (ms_reg s)"
  shows "keeps P (andThen getReg f)"
  by (rule keeps_andThen_post [where Q = Q]) (auto simp: keeps_getReg getReg_def intro: assms)

section \<open>Minting and creating\<close>

lemma reserve_idents: "reserveExplicitName op owner k name u r = Inr r' \<Longrightarrow> idents r' = idents r"
  by (auto elim!: reserve_cases simp: putReservation_def)

lemma mintUID_exact:
  assumes "exactMint m" and "mintUID m k s = (Inr u, t)"
  shows "trimSpace u = u"
proof -
  have "fst (NewUID m k (ms_world s)) = Inr u" using assms(2) by (simp add: mintUID_def split: prod.splits)
  moreover have "case fst (NewUID m k (ms_world s)) of Inl _ \<Rightarrow> True | Inr u \<Rightarrow> trimSpace u = u"
    using assms(1) by (simp add: exactMint_def)
  ultimately show ?thesis by simp
qed

lemma mintLoop_idents: "idents (ms_reg (snd (mintLoop m op owner k x n s))) = idents (ms_reg s)"
proof (induction n arbitrary: s)
  case (Suc n)
  obtain e t where u: "mintUID m k s = (e, t)" by fastforce
  have t: "idents (ms_reg t) = idents (ms_reg s)" using mintUID_same [OF u] by simp
  show ?case
  proof (cases e)
    case (Inr uid)
    show ?thesis
    proof (cases "trimSpace uid = '''' \<or> registryHasUID (ms_reg t) uid")
      case True
      then show ?thesis using u Inr t Suc.IH [of t] by (simp add: andThen_def getReg_def del: idents.simps)
    next
      case False
      then show ?thesis using u Inr t Suc.IH [of t]
        by (cases "candidateName (ms_reg t) owner k x uid")
          (auto simp: andThen_def getReg_def throw_def return_def modReg_def dest: reserve_idents simp del: idents.simps
            split: sum.splits option.splits)
    qed
  qed (use u t in \<open>simp add: andThen_def del: idents.simps\<close>)
qed (simp add: throw_def)

lemma mintLoop_exact:
  assumes "exactMint m" and "mintLoop m op owner k x n s = (Inr (uid, name), s')"
  shows "trimSpace uid = uid"
  using assms(2)
proof (induction n arbitrary: s)
  case (Suc n)
  then show ?case
    by (auto simp: andThen_Inr getReg_def throw_def return_def modReg_def dest!: mintUID_exact [OF assms(1)]
        split: if_splits sum.splits option.splits)
qed (simp add: throw_def)

lemma ex_mint:
  assumes "exactMint m"
  shows "keeps exOK (mintAndReserveName m op owner k x)"
    and "mintAndReserveName m op owner k x s = (Inr (uid, name), s') \<Longrightarrow> trimSpace uid = uid"
proof -
  have "keeps exOK (mintLoop m op owner k x n)" for n
    by (simp add: keeps_def exOK_def exactRefs_def mintLoop_idents del: idents.simps)
  then show "keeps exOK (mintAndReserveName m op owner k x)"
    unfolding mintAndReserveName_def by (intro preserve)
  show "mintAndReserveName m op owner k x s = (Inr (uid, name), s') \<Longrightarrow> trimSpace uid = uid"
    by (auto simp: mintAndReserveName_def andThen_Inr getReg_def liftE_def comp_defs dest: mintLoop_exact [OF assms] split: sum.splits)
qed

lemma ex_addPaneTx:
  assumes m: "exactMint m" and o': "trimSpace owner = owner"
  shows "keeps exOK (addPaneTx m op owner ok' role x command cwd labels now)"
  unfolding addPaneTx_def
proof (rule keeps_andThen_post [where Q = "\<lambda>(uid, name). trimSpace uid = uid"])
  fix un :: "string \<times> string"
  assume un: "case un of (uid, name) \<Rightarrow> trimSpace uid = uid"
  obtain uid name where p: "un = (uid, name)" by fastforce
  let ?p = "newPane uid name labels ok' owner now role cwd command"
  have i: "ident (pn_meta ?p) = (uid, name, owner)"
    by (simp add: newPane_def newMeta_def ident_def OwnerUID_def ownedBy_def)
  have app: "keeps exOK (modReg (\<lambda>r. r\<lparr>r_panes := r_panes r @ [?p]\<rparr>))"
    by (rule ex_modReg, erule exactRefs_append [where k = KindPane and i = "(uid, name, owner)"])
      (use un o' in \<open>simp_all add: p i\<close>)
  show "keeps exOK (case un of (uid, name) \<Rightarrow> let pane = newPane uid name labels ok' owner now role cwd command in
       andThen (modReg (\<lambda>r. r\<lparr>r_panes := r_panes r @ [pane]\<rparr>)) (\<lambda>_.
       andThen (record_created KindPane uid) (\<lambda>_.
       andThen (modReg (adoptWindowAnchor owner ok' uid)) (\<lambda>_. return pane))))"
    unfolding p Let_def split by (intro preserve app ex_same adopt_ident)
qed (use ex_mint [OF m] in \<open>auto\<close>)

lemma ex_forEach: "(\<And>x. keeps exOK (f x)) \<Longrightarrow> keeps exOK (forEach f xs)"
  by (rule keeps_forEach)

lemma ex_finishWindow: "keeps exOK (finishWindow ok' owner uid panes)"
  unfolding finishWindow_def
  by (cases panes) (auto intro!: preserve ex_same adopt_ident sameIdents_upd)

lemma ex_addWindowTx:
  assumes m: "exactMint m" and o': "trimSpace owner = owner"
  shows "keeps exOK (addWindowTx m op ok' owner declared cwd now)"
  unfolding addWindowTx_def
proof (rule keeps_andThen_post [where Q = "\<lambda>(uid, name). trimSpace uid = uid"])
  fix un :: "string \<times> string"
  assume un: "case un of (uid, name) \<Rightarrow> trimSpace uid = uid"
  obtain uid name where p: "un = (uid, name)" by fastforce
  let ?w = "newWindow uid name (bw_labels declared) ok' owner now"
  have i: "ident (w_meta ?w) = (uid, name, owner)"
    by (simp add: newWindow_def newMeta_def ident_def OwnerUID_def ownedBy_def)
  have app: "keeps exOK (modReg (\<lambda>r. r\<lparr>r_windows := r_windows r @ [?w]\<rparr>))"
    by (rule ex_modReg, erule exactRefs_append [where k = KindWindow and i = "(uid, name, owner)"])
      (use un o' in \<open>simp_all add: p i\<close>)
  have panes: "keeps exOK (declaredPaneTx m op uid cwd now bp)" for bp
    unfolding declaredPaneTx_def using un by (intro ex_addPaneTx [OF m]) (simp add: p)
  show "keeps exOK (case un of (uid, name) \<Rightarrow>
     andThen (modReg (\<lambda>r. r\<lparr>r_windows := r_windows r @ [newWindow uid name (bw_labels declared) ok' owner now]\<rparr>)) (\<lambda>_.
     andThen (record_created KindWindow uid) (\<lambda>_.
     andThen (forEach (declaredPaneTx m op uid cwd now) (declaredPanes declared)) (\<lambda>panes.
       finishWindow ok' owner uid panes))))"
    unfolding p split by (intro preserve app ex_forEach panes ex_finishWindow)
qed (use ex_mint [OF m] in \<open>auto\<close>)

lemma ex_registerProjectTx:
  assumes m: "exactMint m"
  shows "keeps exOK (registerProjectTx m root now opts)"
  unfolding registerProjectTx_def
proof (rule keeps_andThen [OF keeps_getReg], rule keeps_andThen_post [where Q = "\<lambda>(uid, name). trimSpace uid = uid"])
  fix reg :: registry and un :: "string \<times> string"
  assume un: "case un of (uid, name) \<Rightarrow> trimSpace uid = uid"
  obtain uid name where p: "un = (uid, name)" by fastforce
  let ?p = "newProject uid name root now opts"
  have i: "ident (p_meta ?p) = (uid, name, '''')"
    by (simp add: newProject_def newMeta_def ident_def OwnerUID_def)
  have app: "keeps exOK (modReg (\<lambda>r. r\<lparr>r_projects := r_projects r @ [?p]\<rparr>))"
    by (rule ex_modReg, erule exactRefs_append [where k = KindProject and i = "(uid, name, '''')"])
      (use un in \<open>simp_all add: p i\<close>)
  have wins: "keeps exOK (addWindowTx m ''register project'' KindProject uid bw root now)" for bw
    using un by (intro ex_addWindowTx [OF m]) (simp add: p)
  have fin: "keeps exOK (finishProject uid made)" for made
    unfolding finishProject_def
    by (intro preserve) (auto intro!: preserve ex_same adopt_ident split: list.split prod.split)
  show "keeps exOK (case un of (uid, name) \<Rightarrow>
     andThen (modReg (\<lambda>r. r\<lparr>r_projects := r_projects r @ [newProject uid name root now opts]\<rparr>)) (\<lambda>_.
     andThen (record_created KindProject uid) (\<lambda>_.
     andThen (forEach (\<lambda>bw. addWindowTx m ''register project'' KindProject uid bw root now) (declaredTopology opts))
       (finishProject uid))))"
    unfolding p split by (intro preserve app ex_forEach wins fin)
qed (use ex_mint [OF m] in \<open>auto\<close>)

section \<open>Transactions and operations\<close>

lemma image_delFirst: "f ` set (delFirst P xs) \<subseteq> f ` set xs"
  by (rule image_mono [OF set_delFirst_subset])

lemma exactRefs_removeCreated: "exactRefs r \<Longrightarrow> exactRefs (removeCreated ref r)"
proof (erule exactRefs_subset)
  fix k
  show "set (idents (removeCreated ref r) k) \<subseteq> set (idents r k)"
    by (cases ref; cases "fst ref") (simp_all add: removeCreated_def image_delFirst)
qed

lemma ex_Rollback: "exOK s \<Longrightarrow> exOK (Rollback s)"
proof -
  have "exactRefs r \<Longrightarrow> exactRefs (foldr removeCreated L r)" for r L
    by (induction L) (simp_all add: exactRefs_removeCreated)
  then show "exOK s \<Longrightarrow> exOK (Rollback s)" by (simp add: exOK_def Rollback_def)
qed

lemma ex_inTransaction: "(\<And>now. keeps exOK (body now)) \<Longrightarrow> keeps exOK (inTransaction m opid body)"
  unfolding inTransaction_def
  by (intro preserve keeps_onError ex_Rollback ex_same sameIdents_updated)

lemma ex_RegisterProject:
  assumes "exactMint m"
  shows "keeps exOK (RegisterProject m opts)"
proof -
  have fin: "keeps exOK (\<lambda>s. andThen Commit (\<lambda>_. andThen (modReg (\<lambda>r. r\<lparr>r_updated := now\<rparr>)) (\<lambda>_. return (g s))) s)"
    for g and now
    using sameIdents_updated exactRefs_same
    by (auto simp: keeps_def andThen_def Commit_def modReg_def return_def exOK_def)
  show ?thesis
    unfolding RegisterProject_def
    by (intro preserve keeps_onError ex_Rollback ex_registerProjectTx [OF assms] fin)
qed

text \<open>What a lookup found is exact.\<close>

lemma exact_lookup:
  assumes "exactRefs r"
  shows "lookupProject r u \<noteq> None \<Longrightarrow> trimSpace u = u" "lookupControlSession r u \<noteq> None \<Longrightarrow> trimSpace u = u"
    "lookupWindow r u \<noteq> None \<Longrightarrow> trimSpace u = u" "lookupAgent r u \<noteq> None \<Longrightarrow> trimSpace u = u"
proof -
  have "u \<in> uidsAt r k \<Longrightarrow> trimSpace u = u" for k using assms by (auto simp: exactRefs_def uidsAt_def simp del: idents.simps)
  then show "lookupProject r u \<noteq> None \<Longrightarrow> trimSpace u = u" "lookupControlSession r u \<noteq> None \<Longrightarrow> trimSpace u = u"
    "lookupWindow r u \<noteq> None \<Longrightarrow> trimSpace u = u" "lookupAgent r u \<noteq> None \<Longrightarrow> trimSpace u = u"
    by (simp_all add: lookup_None uidsAt_simps [symmetric])
qed

lemma ex_getReg: "(\<And>r. exactRefs r \<Longrightarrow> keeps exOK (f r)) \<Longrightarrow> keeps exOK (andThen getReg f)"
  by (rule keeps_getReg_known [where Q = exactRefs]) (simp_all add: exOK_def)

lemma ex_AddPane:
  assumes m: "exactMint m"
  shows "keeps exOK (AddPane m u bp opid)"
  unfolding AddPane_def
proof (rule ex_getReg)
  fix reg assume X: "exactRefs reg"
  show "keeps exOK (case lookupWindow reg u of
       None \<Rightarrow> throw (stateErr ''create pane'' ErrNotFound)
     | Some w \<Rightarrow>
         (let cwd0 = trimSpace (bp_cwd bp);
              cwd = (if cwd0 = '''' then (case lookupProject reg (OwnerUID (w_meta w)) of
                       Some p \<Rightarrow> ps_root (p_spec p) | None \<Rightarrow> cwd0) else cwd0)
          in inTransaction m opid (addPaneTx m ''create pane'' u KindWindow PaneRoleShell
               (bp_name bp) (bp_command bp) cwd (bp_labels bp))))"
  proof (cases "lookupWindow reg u")
    case (Some w)
    then have "trimSpace u = u" using exact_lookup [OF X, of u] by simp
    then show ?thesis unfolding Some option.case Let_def by (intro ex_inTransaction ex_addPaneTx [OF m])
  qed (simp add: keeps_throw)
qed

lemma ex_AddWindow:
  assumes m: "exactMint m"
  shows "keeps exOK (AddWindow m u bw opid)"
  unfolding AddWindow_def
proof (rule ex_getReg)
  fix reg assume X: "exactRefs reg"
  show "keeps exOK (case lookupProject reg u of
       None \<Rightarrow> throw (stateErr ''create window'' ErrNotFound)
     | Some project \<Rightarrow> inTransaction m opid
         (addWindowTx m ''create window'' KindProject u bw (ps_root (p_spec project))))"
    using exact_lookup(1) [OF X, of u]
    by (cases "lookupProject reg u") (auto intro!: preserve ex_inTransaction ex_addWindowTx [OF m])
qed

lemma ex_AddWindowToManagedRoot:
  assumes m: "exactMint m"
  shows "keeps exOK (AddWindowToManagedRoot m k u bw cwd opid)"
  unfolding AddWindowToManagedRoot_def
proof (rule ex_getReg)
  fix reg assume X: "exactRefs reg"
  show "keeps exOK (if k = KindProject then
         (case lookupProject reg u of
            None \<Rightarrow> throw (stateErr ''create window'' ErrNotFound)
          | Some project \<Rightarrow> inTransaction m opid (addWindowTx m ''create window'' k u bw
              (if trimSpace cwd = '''' then ps_root (p_spec project) else cwd)))
       else if k = KindControlSession then
         (case lookupControlSession reg u of
            None \<Rightarrow> throw (stateErr ''create window'' ErrNotFound)
          | Some _ \<Rightarrow> inTransaction m opid (addWindowTx m ''create window'' k u bw cwd))
       else throw (inputErr ''create window'' ErrInvalidRegistry))"
    using exact_lookup(1,2) [OF X, of u]
    by (cases "lookupProject reg u"; cases "lookupControlSession reg u")
      (auto intro!: preserve ex_inTransaction ex_addWindowTx [OF m])
qed

lemma ex_edits:
  "keeps exOK (RebindProjectRoot m u root)" "keeps exOK (BindLiveProjectSession m u session socket)"
  "keeps exOK (BindOfflineProjectSession m u session)" "keeps exOK (ObserveWindowRuntimeBinding m u session runtime)"
  "keeps exOK (SetLabels m k u added removed)"
proof -
  show "keeps exOK (RebindProjectRoot m u root)"
    unfolding RebindProjectRoot_def by (intro preserve ex_same sameIdents_updated sameIdents_upd) simp
  show "keeps exOK (BindLiveProjectSession m u session socket)"
    unfolding BindLiveProjectSession_def Let_def
    by (intro preserve ex_same sameIdents_updated sameIdents_upd) (simp add: setSession_def)
  show "keeps exOK (BindOfflineProjectSession m u session)"
    unfolding BindOfflineProjectSession_def Let_def
    by (intro preserve ex_same sameIdents_updated sameIdents_upd) (simp add: setSession_def)
  show "keeps exOK (ObserveWindowRuntimeBinding m u session runtime)"
    unfolding ObserveWindowRuntimeBinding_def Let_def
    by (intro preserve ex_same sameIdents_updated sameIdents_upd) simp_all
  show "keeps exOK (SetLabels m k u added removed)"
    unfolding SetLabels_def Let_def
    by (intro preserve ex_same sameIdents_updMetadata) (simp add: ident_simps)
qed

text \<open>A rename reserves under the same uid and writes the name.\<close>

lemma idents_renameAgent:
  "idents (updAgent u (\<lambda>a. a\<lparr>a_meta := (a_meta a)\<lparr>om_name := x\<rparr>\<rparr>) r) = renamed KindAgent u x (idents r)"
proof -
  have u: "updFirst (\<lambda>i. iuid i = u) (\<lambda>i. (u, x, iowner i)) xs = updFirst (\<lambda>i. iuid i = u) (\<lambda>i. (iuid i, x, iowner i)) xs" for xs
    by (induction xs) auto
  have "map (\<lambda>a. ident (a_meta a)) (updFirst (\<lambda>a. a_uid a = u) (\<lambda>a. a\<lparr>a_meta := (a_meta a)\<lparr>om_name := x\<rparr>\<rparr>) as)
      = updFirst (\<lambda>i. iuid i = u) (\<lambda>i. (iuid i, x, iowner i)) (map (\<lambda>a. ident (a_meta a)) as)" for as
    by (induction as) (simp_all add: ident_def OwnerUID_def)
  then show ?thesis unfolding renamed_def u upd_defs idents_update by simp
qed

lemma ex_rename_step:
  assumes ids: "\<And>r. idents (f r) = renamed k u x (idents r)" and g: "keeps exOK g" and reg: "exactRefs reg"
  shows "keeps exOK (case reserveExplicitName op owner k' name u' reg of
      Inl e \<Rightarrow> throw e
    | Inr reg' \<Rightarrow> andThen (modReg (\<lambda>_. f reg')) (\<lambda>_. andThen (stamp m) (\<lambda>_. g)))"
proof (cases "reserveExplicitName op owner k' name u' reg")
  case (Inr reg')
  have "exactRefs reg'" using reg by (simp add: exactRefs_def reserve_idents [OF Inr] del: idents.simps)
  then have "exactRefs (f reg')" by (rule exactRefs_renamed [OF ids])
  then show ?thesis unfolding Inr sum.case by (intro keeps_andThen ex_modReg preserve g)
qed (simp add: keeps_throw)

lemma ex_renames:
  "keeps exOK (RenameProject m u name)" "keeps exOK (RenameWindow m u name)" "keeps exOK (RenamePane m u name)"
  "keeps exOK (RenameAgent m u name)"
  unfolding RenameProject_def RenameWindow_def RenamePane_def RenameAgent_def
  by (intro ex_getReg keeps_option keeps_throw ex_the
      ex_rename_step [OF idents_rename(1)] ex_rename_step [OF idents_rename(2)]
      ex_rename_step [OF idents_rename(3)] ex_rename_step [OF idents_renameAgent]; assumption)+

lemma ex_observeRoots: "keeps exOK (ObserveProjectRoots m)"
  unfolding ObserveProjectRoots_def
proof (rule keeps_andThen [OF ex_env(1)], rule keeps_andThen_getReg)
  fix now and s :: "'a mstate"
  assume X: "exOK s"
  obtain e qs ch s' where o': "observeRoots m now (r_projects (ms_reg s)) s = ((e, qs, ch), s')"
    by (metis prod_cases3 surj_pair)
  from observeRoots_frame [OF o'] have f: "ms_reg s' = ms_reg s" "map p_meta qs = map p_meta (r_projects (ms_reg s))"
    by simp_all
  have m: "map (\<lambda>p. ident (p_meta p)) qs = map (\<lambda>p. ident (p_meta p)) (r_projects (ms_reg s))"
    using arg_cong [OF f(2), of "map ident"] by (simp add: comp_def)
  have "sameIdents (ms_reg s) ((ms_reg s')\<lparr>r_projects := qs, r_updated := t\<rparr>)"
    "sameIdents (ms_reg s) ((ms_reg s')\<lparr>r_projects := qs\<rparr>)" for t
    by (simp_all add: sameIdents_def f m fun_upd_idem)
  with X show "exOK (snd (case observeRoots m now (r_projects (ms_reg s)) s of
       ((Some e, ps, _), s') \<Rightarrow> (Inl e, s'\<lparr>ms_reg := (ms_reg s')\<lparr>r_projects := ps\<rparr>\<rparr>)
     | ((None, ps, changed), s') \<Rightarrow> (Inr (), s'\<lparr>ms_reg := (ms_reg s')\<lparr>r_projects := ps,
          r_updated := (if changed then now else r_updated (ms_reg s'))\<rparr>\<rparr>)))"
    using exactRefs_same by (auto simp: o' exOK_def split: option.splits)
qed

lemmas ex_operation = ex_RegisterProject ex_AddPane ex_AddWindow ex_AddWindowToManagedRoot ex_edits ex_renames(1-3) ex_observeRoots

lemma regStep_exact: "regStep m s s' \<Longrightarrow> exactMint m \<Longrightarrow> exactRefs (ms_reg s) \<Longrightarrow> exactRefs (ms_reg s')"
  by (induction rule: regStep.induct) (use ex_operation in \<open>fastforce simp: keeps_def exOK_def\<close>)+

lemma regStep_wf: "regStep m s s' \<Longrightarrow> exactMint m \<Longrightarrow> wfOK s \<Longrightarrow> wfOK s'"
  using regStep_identity regStep_exact by (fastforce simp: wfOK_def wf_def)

end
