(* ===== verification/Lifecycle.thy ===== *)
theory Lifecycle
  imports Exactness
begin

text \<open>
  The lifecycle invariant: every operation of the Mutator modelled here, the Agent operations and the
  deletion cascades included, keeps the identity invariant, in every order and whether it fails or not. The
  step relation \<open>lifeStep\<close> collects the operations of \<^verbatim>\<open>mutator.go\<close>, \<^verbatim>\<open>labels.go\<close>, \<^verbatim>\<open>agent.go\<close>,
  \<^verbatim>\<open>virtual_window.go\<close> and \<^verbatim>\<open>termination.go\<close>.
\<close>

section \<open>Rules\<close>

lemma keeps_wf: "keeps idOK a \<Longrightarrow> keeps exOK a \<Longrightarrow> keeps wfOK a"
  by (simp add: keeps_def wfOK_def wf_def idOK_def exOK_def)

lemma wf_modReg: "(\<And>r. sameIdents r (f r)) \<Longrightarrow> keeps wfOK (modReg f)"
  by (intro keeps_wf keeps_modReg ex_same)

lemma wf_env [preserve]:
  "keeps wfOK (clock m)" "keeps wfOK (stamp m)" "keeps wfOK (theWindow u)" "keeps wfOK (thePane u)"
  by (intro keeps_wf preserve)+

lemma wf_theAgent [preserve]: "keeps wfOK (theAgent u)"
  unfolding theAgent_def by (intro preserve)

lemma wf_restoring: "wf before \<Longrightarrow> keeps wfOK c \<Longrightarrow> keeps wfOK (restoring before c)"
  unfolding restoring_def by (rule keeps_onError) (simp_all add: wfOK_def)

lemma wf_getReg: "(\<And>r. wf r \<Longrightarrow> keeps wfOK (f r)) \<Longrightarrow> keeps wfOK (andThen getReg f)"
  by (rule keeps_getReg_known [where Q = wf]) (simp_all add: wfOK_def)

text \<open>A read, then the clock, then a write of the Registry that was read.\<close>

lemma wf_read_write:
  assumes "wf r" and "wf (f r)" and "keeps wfOK (g ())" and "ms_reg s = r"
  shows "wfOK (snd (andThen (modReg f) g s))"
  using assms by (simp add: andThen_def modReg_def keeps_def wfOK_def)

lemma wf_clock:
  "(\<And>now w. wfOK (snd (f now (s\<lparr>ms_world := w\<rparr>)))) \<Longrightarrow> wfOK (snd (andThen (clock m) f s))"
  by (simp add: andThen_def clock_def split: prod.split)

section \<open>Agents\<close>

lemma createAgentTx_run:
  assumes I: "identity (ms_reg s)" and run: "createAgentTx m W opts now s = (res, s')"
  shows "case res of Inl e \<Rightarrow> ms_reg s' = ms_reg s \<and> ms_txn s' = ms_txn s | Inr a \<Rightarrow> identity (ms_reg s')"
proof (cases "mintAndReserveName m ''create agent'' W KindAgent (ca_name opts) s")
  case (Pair e s1)
  show ?thesis
  proof (cases e)
    case (Inl x)
    then show ?thesis using run Pair mint_fail [of m _ W KindAgent _ s x s1]
      by (auto simp: createAgentTx_def andThen_def)
  next
    case (Inr un)
    obtain uid name where un: "un = (uid, name)" by fastforce
    let ?a = "newAgent uid name W now opts"
    have res: "res = Inr ?a" "ms_reg s' = (ms_reg s1)\<lparr>r_agents := r_agents (ms_reg s1) @ [?a]\<rparr>"
      using run Pair Inr un by (auto simp: createAgentTx_def andThen_def modReg_def record_created_def return_def Let_def)
    have i: "ident (a_meta ?a) = (uid, name, W)"
      by (simp add: newAgent_def newMeta_def ident_def OwnerUID_def ownedBy_def)
    have mint: "mintedAt s KindAgent W (ca_name opts) uid name s1" using mint_ok [OF I] Pair Inr un by simp
    then obtain sc where sc: "scopeFor (ms_reg s) KindAgent W = Inr sc" "(sc, KindAgent, name) \<notin> slot ` set (r_names (ms_reg s))"
      "ms_reg s1 = (ms_reg s)\<lparr>r_names := r_names (ms_reg s) @ [\<lparr>nr_scope = sc, nr_kind = KindAgent, nr_name = name, nr_uid = uid\<rparr>]\<rparr>"
      and u: "uid \<notin> set (allUids (ms_reg s))" "uid \<noteq> ''''" by (auto simp: mintedAt_def)
    have "addsResource KindAgent (uid, name, W) (ms_reg s) (ms_reg s')"
      using sc by (simp add: addsResource_def res i fun_eq_iff)
    then have "identity (ms_reg s')" by (rule addsResource_identity [OF I]) (use u in simp_all)
    then show ?thesis by (simp add: res)
  qed
qed

lemma ex_createAgentTx:
  assumes m: "exactMint m" and o': "trimSpace W = W"
  shows "keeps exOK (createAgentTx m W opts now)"
  unfolding createAgentTx_def
proof (rule keeps_andThen_post [where Q = "\<lambda>(uid, name). trimSpace uid = uid"])
  fix un :: "string \<times> string"
  assume un: "case un of (uid, name) \<Rightarrow> trimSpace uid = uid"
  obtain uid name where p: "un = (uid, name)" by fastforce
  let ?a = "newAgent uid name W now opts"
  have i: "ident (a_meta ?a) = (uid, name, W)"
    by (simp add: newAgent_def newMeta_def ident_def OwnerUID_def ownedBy_def)
  have app: "keeps exOK (modReg (\<lambda>r. r\<lparr>r_agents := r_agents r @ [?a]\<rparr>))"
    by (rule ex_modReg, erule exactRefs_append [where k = KindAgent and i = "(uid, name, W)"])
      (use un o' in \<open>simp_all add: p i\<close>)
  show "keeps exOK (case un of (uid, name) \<Rightarrow> let agent = newAgent uid name W now opts in
       andThen (modReg (\<lambda>r. r\<lparr>r_agents := r_agents r @ [agent]\<rparr>)) (\<lambda>_.
       andThen (record_created KindAgent uid) (\<lambda>_. return agent)))"
    unfolding p Let_def split by (intro preserve app)
qed (use ex_mint [OF m] in \<open>auto\<close>)

lemma id_createAgent: "keeps idOK (inTransaction m opid (createAgentTx m W opts))"
  unfolding keeps_def idOK_def
proof (intro allI impI)
  fix s :: "'a mstate" assume I: "identity (ms_reg s)"
  obtain now w where c: "Now m (ms_world s) = (now, w)" by fastforce
  let ?s = "s\<lparr>ms_world := w, ms_txn := \<lparr>tx_id = opid, tx_ledger = [], tx_done = False\<rparr>\<rparr>"
  obtain res t where run: "createAgentTx m W opts now ?s = (res, t)" by fastforce
  have "identity (r\<lparr>r_updated := now\<rparr>)" if "identity r" for r
    using identity_cong [OF sameIdents_updated that] .
  then show "identity (ms_reg (snd (inTransaction m opid (createAgentTx m W opts) s)))"
    using createAgentTx_run [OF _ run] I c run
    by (cases res) (auto simp: inTransaction_def andThen_def clock_def Begin_def onError_def Rollback_def Commit_def modReg_def return_def)
qed

lemma wf_CreateAgent:
  assumes m: "exactMint m"
  shows "keeps wfOK (CreateAgent m W opts)"
  unfolding CreateAgent_def
proof (rule keeps_andThen [OF keeps_liftE], rule wf_getReg)
  fix r assume "wf r"
  then have X: "exactRefs r" by (simp add: wf_def)
  show "keeps wfOK (if lookupWindow r W = None then throw (stateErr ''create agent'' ErrNotFound)
       else inTransaction m (ca_operation opts) (createAgentTx m W opts))"
    using exact_lookup(3) [OF X, of W]
    by (auto intro!: preserve keeps_wf id_createAgent ex_inTransaction ex_createAgentTx [OF m])
qed

lemma wf_RenameAgent: "keeps wfOK (RenameAgent m u name)"
proof (rule keeps_wf [OF _ ex_renames(4)])
  show "keeps idOK (RenameAgent m u name)"
    unfolding RenameAgent_def
  proof (rule keeps_andThen_getReg)
    fix s :: "'a mstate"
    assume I: "idOK s"
    show "idOK (snd ((case lookupAgent (ms_reg s) u of
         None \<Rightarrow> throw (stateErr ''rename agent'' ErrNotFound)
       | Some a \<Rightarrow> (case reserveExplicitName ''rename agent'' (OwnerUID (a_meta a)) KindAgent name u (ms_reg s) of
              Inl e \<Rightarrow> throw e
            | Inr reg' \<Rightarrow>
                andThen (modReg (\<lambda>_. updAgent u (\<lambda>a. a\<lparr>a_meta := (a_meta a)\<lparr>om_name := name\<rparr>\<rparr>) reg'))
                  (\<lambda>_. andThen (stamp m) (\<lambda>_. theAgent u)))) s))"
    proof (cases "lookupAgent (ms_reg s) u")
      case (Some a)
      have i: "ident (a_meta a) \<in> set (idents (ms_reg s) KindAgent)" "iuid (ident (a_meta a)) = u"
        using lookup_Some(5) [OF Some] by auto
      show ?thesis
      proof (cases "reserveExplicitName ''rename agent'' (OwnerUID (a_meta a)) KindAgent name u (ms_reg s)")
        case (Inr reg')
        have "identity (updAgent u (\<lambda>a. a\<lparr>a_meta := (a_meta a)\<lparr>om_name := name\<rparr>\<rparr>) reg')"
          by (rule rename_put [where i = "ident (a_meta a)", OF _ _ _ _ Inr idents_renameAgent])
            (use I i in \<open>simp_all add: idOK_def\<close>)
        moreover have "keeps idOK (theAgent u)" unfolding theAgent_def by (intro preserve)
        ultimately show ?thesis unfolding Some Inr option.case sum.case
          by (intro keeps_rest) (auto intro: preserve)
      qed (use I Some in \<open>simp add: throw_def\<close>)
    qed (use I in \<open>simp add: throw_def\<close>)
  qed
qed

section \<open>Keeping a Window anchored\<close>

lemma sameIdents_setShell: "sameIdents r (updWindow u (setShell p) r)"
  by (rule sameIdents_upd) (simp add: setShell_def)

lemma wf_AdoptWindowDefaultShell: "keeps wfOK (AdoptWindowDefaultShell m w p)"
  unfolding AdoptWindowDefaultShell_def Let_def by (intro preserve wf_modReg sameIdents_setShell keeps_wf)

lemma wf_AddPane: "exactMint m \<Longrightarrow> keeps wfOK (AddPane m u bp opid)"
  by (intro keeps_wf keeps_addPane ex_AddPane)

lemma wf_EnsureWindowDefaultShell:
  "exactMint m \<Longrightarrow> keeps wfOK (EnsureWindowDefaultShell m w opid)"
  unfolding EnsureWindowDefaultShell_def Let_def
  by (intro preserve wf_modReg sameIdents_setShell wf_AddPane wf_AdoptWindowDefaultShell keeps_wf)

lemma sameIdents_anchor: "sameIdents r (updWindow u (\<lambda>w. w\<lparr>w_spec := (w_spec w)\<lparr>ws_anchor := p\<rparr>\<rparr>) r)"
  by (rule sameIdents_upd) simp

lemma sameIdents_reanchor: "sameIdents r (reanchor w r)"
  using sameIdents_setWindowAnchor [of r w] sameIdents_setShell by (simp add: reanchor_def Let_def sameIdents_def)

lemma wf_updated: "keeps wfOK (modReg (\<lambda>r. r\<lparr>r_updated := t\<rparr>))"
  by (rule wf_modReg) (rule sameIdents_updated)

lemma wf_anchorWindowOnDefaultShell:
  assumes "exactMint m"
  shows "keeps wfOK (anchorWindowOnDefaultShell m w opid now)"
  unfolding anchorWindowOnDefaultShell_def
  by (intro keeps_andThen keeps_prod keeps_if keeps_throw wf_EnsureWindowDefaultShell [OF assms] wf_env wf_updated
      keeps_getReg wf_modReg sameIdents_anchor)

lemma wf_repairRetainedWindow:
  assumes "exactMint m"
  shows "keeps wfOK (repairRetainedWindow m w opid now)"
  unfolding repairRetainedWindow_def
  by (intro keeps_andThen keeps_getReg keeps_if keeps_return wf_modReg sameIdents_reanchor wf_anchorWindowOnDefaultShell [OF assms])

lemma wf_moveAnchorOffReleasedPane:
  assumes "exactMint m"
  shows "keeps wfOK (moveAnchorOffReleasedPane m w released preferred opid now)"
  unfolding moveAnchorOffReleasedPane_def
  by (intro keeps_andThen keeps_getReg keeps_option keeps_if keeps_return wf_modReg sameIdents_setWindowAnchor
      wf_anchorWindowOnDefaultShell [OF assms])

section \<open>Attaching, rebinding, releasing\<close>

text \<open>Agent and Pane rows are edited without touching uid, name or owner.\<close>

lemma sameIdents_rows:
  "sameIdents r (updAgent u (bindAgent p now) r)" "sameIdents r (updAgent u (releaseAgent ph why now) r)"
  "sameIdents r (updAgent u (moveAgent ph why now) r)" "sameIdents r (updAgent u (offlineDeleted now) r)"
  "sameIdents r (updPane u clearClaudeRegistration r)"
  by (rule sameIdents_upd; simp add: bindAgent_def releaseAgent_def moveAgent_def offlineDeleted_def clearClaudeRegistration_def)+

interpretation managed: tx_body
  "\<lambda>now. andThen (addPaneTx m op owner ownerKind role x command cwd labels now) (\<lambda>p. return (now, p))"
  for m op owner ownerKind role x command cwd labels
proof
  fix s :: "'a mstate" and now res s'
  assume I: "identity (ms_reg s)"
    and run: "andThen (addPaneTx m op owner ownerKind role x command cwd labels now) (\<lambda>p. return (now, p)) s = (res, s')"
  obtain e t where one: "addPaneTx m op owner ownerKind role x command cwd labels now s = (e, t)" by fastforce
  show "\<exists>L M. txStep s M L s' \<and> ((\<exists>e. res = Inl e) \<longrightarrow> M = {})"
  proof (cases e)
    case (Inl x)
    then have "s' = t" using one run by (simp add: andThen_def)
    with addPaneTx_spec [OF I one] Inl show ?thesis by auto
  next
    case (Inr p)
    then have "s' = t" "\<And>x. res \<noteq> Inl x" using one run by (auto simp: andThen_def return_def)
    with addPaneTx_spec [OF I one] Inr show ?thesis by auto
  qed
qed

lemma wf_AttachAgentPane:
  assumes m: "exactMint m"
  shows "keeps wfOK (AttachAgentPane m u bp opid)"
  unfolding AttachAgentPane_def Let_def
proof (rule wf_getReg)
  fix reg assume W: "wf reg"
  then have X: "exactRefs reg" by (simp add: wf_def)
  have tx: "keeps wfOK (inTransaction m opid (\<lambda>now. andThen
      (addPaneTx m ''attach agent pane'' u KindAgent PaneRoleAgent (bp_name bp) (bp_command bp) (bp_cwd bp) (bp_labels bp) now)
      (\<lambda>p. return (now, p))))" if "lookupAgent reg u = Some a" for a
  proof (rule keeps_wf [OF managed.keeps_transaction], rule ex_inTransaction)
    fix now
    have "trimSpace u = u" using exact_lookup(4) [OF X, of u] that by simp
    then show "keeps exOK (andThen
      (addPaneTx m ''attach agent pane'' u KindAgent PaneRoleAgent (bp_name bp) (bp_command bp) (bp_cwd bp) (bp_labels bp) now)
      (\<lambda>p. return (now, p)))" by (intro keeps_andThen keeps_return ex_addPaneTx [OF m])
  qed
  show "keeps wfOK (case lookupAgent reg u of None \<Rightarrow> throw (stateErr ''attach agent pane'' ErrNotFound)
      | Some a \<Rightarrow>
          if \<not> CanTransitionAgent (ast_phase (a_status a)) PhaseRunning then throw (stateErr ''attach agent pane'' ErrInvalidPhase)
          else andThen (inTransaction m opid (\<lambda>now. andThen
                  (addPaneTx m ''attach agent pane'' u KindAgent PaneRoleAgent (bp_name bp) (bp_command bp)
                     (bp_cwd bp) (bp_labels bp) now) (\<lambda>p. return (now, p)))) (\<lambda>(now, p).
               andThen (modReg (updAgent u (bindAgent (pn_uid p) now))) (\<lambda>_.
               andThen (if ast_pane (a_status a) \<noteq> '''' \<and> anchors reg (OwnerUID (a_meta a)) (ast_pane (a_status a))
                  then restoring reg (moveAnchorOffReleasedPane m (OwnerUID (a_meta a)) (ast_pane (a_status a)) (pn_uid p) opid now)
                  else return ()) (\<lambda>_.
               andThen (modReg (\<lambda>r. r\<lparr>r_updated := now\<rparr>)) (\<lambda>_. return p)))))"
  proof (cases "lookupAgent reg u")
    case (Some a)
    show ?thesis unfolding Some option.case
      by (intro keeps_if keeps_throw keeps_andThen keeps_prod keeps_return tx [OF Some] wf_modReg sameIdents_rows
          wf_restoring [OF W] wf_moveAnchorOffReleasedPane [OF m] wf_updated sameIdents_updated)
  qed (simp add: keeps_throw)
qed

lemma sameIdents_trans: "sameIdents r r1 \<Longrightarrow> sameIdents r1 r2 \<Longrightarrow> sameIdents r r2"
  by (simp add: sameIdents_def)

lemma wf_RebindAgentPane: "keeps wfOK (RebindAgentPane m u p)"
  unfolding RebindAgentPane_def Let_def
  by (intro keeps_andThen keeps_getReg keeps_option keeps_if keeps_throw keeps_return wf_env wf_modReg
      sameIdents_trans [OF sameIdents_rows(1) sameIdents_updated])

lemma wf_cond: "(b \<Longrightarrow> wf (f r)) \<Longrightarrow> wf r \<Longrightarrow> wf ((if b then f else (\<lambda>x. x)) r)"
  by simp

lemma wf_modReg': "(\<And>r. wf r \<Longrightarrow> wf (f r)) \<Longrightarrow> keeps wfOK (modReg f)"
  by (simp add: keeps_def wfOK_def modReg_def)

lemma wf_ReleaseAgentPane:
  assumes m: "exactMint m"
  shows "keeps wfOK (ReleaseAgentPane m u e why)"
  unfolding ReleaseAgentPane_def Let_def
proof (rule wf_getReg)
  fix reg assume W: "wf reg"
  have del: "wf (updAgent u (releaseAgent ph why now) (if b then fst (deletePane q r) else r))" if "wf r" for b q r ph now
    using that wf_deletePane wf_same [OF sameIdents_rows(2)] by simp
  show "keeps wfOK (case lookupAgent reg u of None \<Rightarrow> throw (stateErr ''release agent pane'' ErrNotFound)
      | Some a \<Rightarrow> (case exitPhase e of None \<Rightarrow> throw (inputErr ''release agent pane'' ErrInvalidPhase)
        | Some phase \<Rightarrow>
            if \<not> CanTransitionAgent (ast_phase (a_status a)) phase then throw (stateErr ''release agent pane'' ErrInvalidPhase)
            else andThen (clock m) (\<lambda>now.
              andThen (modReg (\<lambda>r. updAgent u (releaseAgent phase why now)
                (if ast_pane (a_status a) \<noteq> '''' then fst (deletePane (ast_pane (a_status a)) r) else r))) (\<lambda>_.
              andThen (restoring reg (repairRetainedWindow m (OwnerUID (a_meta a)) ''replace-released-agent-anchor'' now)) (\<lambda>_.
              andThen (modReg (\<lambda>r. r\<lparr>r_updated := now\<rparr>)) (\<lambda>_. theAgent u))))))"
    by (intro keeps_option keeps_if keeps_throw keeps_andThen wf_env wf_theAgent wf_restoring [OF W]
        wf_repairRetainedWindow [OF m] wf_updated wf_modReg' del)
qed

lemma wf_TransitionAgent:
  assumes m: "exactMint m"
  shows "keeps wfOK (TransitionAgent m u phase why)"
  unfolding TransitionAgent_def Let_def
proof (rule wf_getReg)
  fix reg assume W: "wf reg"
  have move: "wf (updAgent u (moveAgent phase why now) (if b then updPane q clearClaudeRegistration r else r))" if "wf r" for b q r now
    using that wf_same [OF sameIdents_rows(3)] wf_same [OF sameIdents_rows(5)] by simp
  show "keeps wfOK (case lookupAgent reg u of None \<Rightarrow> throw (stateErr ''transition agent'' ErrNotFound)
      | Some a \<Rightarrow>
          if \<not> ValidAgentPhase phase then throw (inputErr ''transition agent'' ErrInvalidPhase)
          else if \<not> CanTransitionAgent (ast_phase (a_status a)) phase then throw (inputErr ''transition agent'' ErrInvalidPhase)
          else andThen (clock m) (\<lambda>now.
               andThen (modReg (\<lambda>r. updAgent u (moveAgent phase why now)
                 (if phase \<noteq> PhaseRunning then updPane (ast_pane (a_status a)) clearClaudeRegistration r else r))) (\<lambda>_.
               andThen (if (if phase \<noteq> PhaseRunning then ast_pane (a_status a) else '''') \<noteq> ''''
                    \<and> anchors reg (OwnerUID (a_meta a)) (if phase \<noteq> PhaseRunning then ast_pane (a_status a) else '''')
                  then restoring reg (moveAnchorOffReleasedPane m (OwnerUID (a_meta a))
                    (if phase \<noteq> PhaseRunning then ast_pane (a_status a) else '''') '''' ''replace-released-agent-anchor'' now)
                  else return ()) (\<lambda>_.
               andThen (modReg (\<lambda>r. r\<lparr>r_updated := now\<rparr>)) (\<lambda>_. theAgent u)))))"
    by (intro keeps_option keeps_if keeps_throw keeps_andThen keeps_return wf_env wf_theAgent wf_restoring [OF W]
        wf_moveAnchorOffReleasedPane [OF m] wf_updated wf_modReg' move)
qed

section \<open>Deletion\<close>

lemma wf_deleteWindow: "keeps wfOK (deleteWindow m W b)"
  unfolding deleteWindow_def
proof (rule keeps_andThen_getReg)
  fix s :: "'a mstate" assume s: "wfOK s"
  then have W: "wf (ms_reg s)" by (simp add: wfOK_def)
  let ?f = "\<lambda>target r. let r1 = dropWindow W r in if b then repickPrimary W target r1 else r1"
  show "wfOK (snd ((case lookupWindow (ms_reg s) W of None \<Rightarrow> throw (stateErr ''delete window'' ErrNotFound)
     | Some target \<Rightarrow> andThen (clock m) (\<lambda>now. andThen (modReg (?f target)) (\<lambda>_.
         modReg (\<lambda>r. r\<lparr>r_updated := now\<rparr>)))) s))"
  proof (cases "lookupWindow (ms_reg s) W")
    case (Some target)
    have "wf (dropWindow W (ms_reg s))" by (rule wf_dropWindow [OF W]) (simp add: Some)
    then have "wf (?f target (ms_reg s))" using wf_same [OF sameIdents_repick] by (simp add: Let_def)
    then show ?thesis unfolding Some option.case
      by (intro wf_clock wf_read_write [OF W] wf_updated) simp_all
  qed (use s in \<open>simp add: throw_def\<close>)
qed

lemma wf_restored:
  assumes m: "exactMint m" and before: "wf reg" "ms_reg s = reg" and after: "\<And>now. wf (f now reg)"
    and fin: "\<And>now. keeps wfOK (g now)"
  shows "wfOK (snd (andThen (clock m) (\<lambda>now. andThen (modReg (f now)) (\<lambda>_.
      andThen (restoring reg (repairRetainedWindow m w opid now)) (\<lambda>_. g now))) s))"
  by (intro wf_clock wf_read_write [OF before(1)] after keeps_andThen wf_restoring [OF before(1)]
      wf_repairRetainedWindow [OF m] fin) (simp add: before)

lemma wf_DeletePane:
  assumes m: "exactMint m"
  shows "keeps wfOK (DeletePane m u)"
  unfolding DeletePane_def Let_def
proof (rule keeps_andThen_getReg)
  fix s :: "'a mstate" assume s: "wfOK s"
  let ?r = "ms_reg s"
  have W: "wf ?r" using s by (simp add: wfOK_def)
  let ?f = "\<lambda>p now r. (if offlinesAgent ?r p then updAgent (OwnerUID (pn_meta p)) (offlineDeleted now) else (\<lambda>x. x))
               (fst (deletePane u r))"
  show "wfOK (snd ((case lookupPane ?r u of None \<Rightarrow> throw (stateErr ''delete pane'' ErrNotFound)
      | Some p \<Rightarrow> (case paneWindowOwnerUID ?r p of (windowUID, owned) \<Rightarrow>
           if \<not> owned then throw (stateErr ''delete pane'' ErrInvalidRegistry)
           else if VirtualWindowDeleteCascade ?r KindPane u \<noteq> '''' then DeleteWindow m (VirtualWindowDeleteCascade ?r KindPane u)
           else andThen (clock m) (\<lambda>now. andThen (modReg (?f p now)) (\<lambda>_.
             andThen (restoring ?r (repairRetainedWindow m windowUID ''replace-deleted-window-anchor'' now)) (\<lambda>_.
             modReg (\<lambda>r. r\<lparr>r_updated := now\<rparr>)))))) s))"
  proof (cases "lookupPane ?r u")
    case (Some p)
    obtain w o' where wo: "paneWindowOwnerUID ?r p = (w, o')" by fastforce
    have "wf (?f p now ?r)" for now
      by (intro wf_cond wf_same [OF sameIdents_rows(4)] wf_deletePane W)
    note restored = wf_restored [OF m W refl, where f = "?f p", OF this]
    have rest: "wfOK (snd (andThen (clock m) (\<lambda>now. andThen (modReg (?f p now)) (\<lambda>_.
             andThen (restoring ?r (repairRetainedWindow m w ''replace-deleted-window-anchor'' now)) (\<lambda>_.
             modReg (\<lambda>r. r\<lparr>r_updated := now\<rparr>)))) s))" by (rule restored) (rule wf_updated)
    show ?thesis using s rest wf_deleteWindow
      unfolding Some option.case wo prod.case DeleteWindow_def by (auto simp: throw_def keeps_def)
  qed (use s in \<open>simp add: throw_def\<close>)
qed

lemma wf_DeleteAgent:
  assumes m: "exactMint m"
  shows "keeps wfOK (DeleteAgent m u)"
  unfolding DeleteAgent_def Let_def
proof (rule keeps_andThen_getReg)
  fix s :: "'a mstate" assume s: "wfOK s"
  let ?r = "ms_reg s"
  have W: "wf ?r" using s by (simp add: wfOK_def)
  show "wfOK (snd ((case lookupAgent ?r u of None \<Rightarrow> throw (stateErr ''delete agent'' ErrNotFound)
      | Some a \<Rightarrow>
          if VirtualWindowDeleteCascade ?r KindAgent u \<noteq> '''' then DeleteWindow m (VirtualWindowDeleteCascade ?r KindAgent u)
          else andThen (clock m) (\<lambda>now. andThen (modReg (\<lambda>r. deleteAgentRow u (dropPanes u r))) (\<lambda>_.
            andThen (restoring ?r (repairRetainedWindow m (OwnerUID (a_meta a)) ''replace-deleted-agent-anchor'' now)) (\<lambda>_.
            modReg (\<lambda>r. r\<lparr>r_updated := now\<rparr>))))) s))"
  proof (cases "lookupAgent ?r u")
    case (Some a)
    have "wf (deleteAgentRow u (dropPanes u ?r))" by (rule wf_dropAgent [OF W Some])
    note restored = wf_restored [OF m W refl, where f = "\<lambda>now r. deleteAgentRow u (dropPanes u r)", OF this]
    have rest: "wfOK (snd (andThen (clock m) (\<lambda>now.
            andThen (modReg (\<lambda>r. deleteAgentRow u (dropPanes u r))) (\<lambda>_.
            andThen (restoring ?r (repairRetainedWindow m (OwnerUID (a_meta a)) ''replace-deleted-agent-anchor'' now)) (\<lambda>_.
            modReg (\<lambda>r. r\<lparr>r_updated := now\<rparr>)))) s))" by (rule restored) (rule wf_updated)
    show ?thesis using s rest wf_deleteWindow
      unfolding Some option.case DeleteWindow_def by (auto simp: keeps_def)
  qed (use s in \<open>simp add: throw_def\<close>)
qed

text \<open>Deleting every Window of a Project leaves it without Windows.\<close>

lemma deleteWindow_run:
  assumes "wf (ms_reg s)" and "lookupWindow (ms_reg s) W \<noteq> None" and "deleteWindow m W False s = (res, s')"
  shows "res = Inr () \<and> idents (ms_reg s') = idents (dropWindow W (ms_reg s)) \<and> wf (ms_reg s')"
proof -
  obtain t where t: "lookupWindow (ms_reg s) W = Some t" using assms(2) by auto
  obtain now w where now: "Now m (ms_world s) = (now, w)" by fastforce
  have "res = Inr () \<and> ms_reg s' = (dropWindow W (ms_reg s))\<lparr>r_updated := now\<rparr>"
    using assms(3) t now by (auto simp: deleteWindow_def andThen_def getReg_def clock_def modReg_def Let_def)
  moreover have "wfOK s'" using wf_deleteWindow [of m W False] assms(1,3) by (auto simp: keeps_def wfOK_def dest: spec [of _ s])
  ultimately show ?thesis by (simp add: wfOK_def)
qed

definition windowIdents :: "string \<Rightarrow> registry \<Rightarrow> ident list" where
  "windowIdents u r = filter (\<lambda>i. iowner i = u) (idents r KindWindow)"

lemma deleteWindows_run:
  assumes "wf (ms_reg s)" and "windowIdents u (ms_reg s) = map (\<lambda>w. ident (w_meta w)) ws"
    and "forEach (\<lambda>w. deleteWindow m (w_uid w) False) ws s = (res, s')"
  shows "wf (ms_reg s') \<and> windowIdents u (ms_reg s') = [] \<and> \<not> isl res
    \<and> idents (ms_reg s') KindProject = idents (ms_reg s) KindProject"
  using assms
proof (induction ws arbitrary: s res)
  case Nil
  then show ?case by (auto simp: return_def)
next
  case (Cons w ws)
  have "ident (w_meta w) \<in> set (windowIdents u (ms_reg s))" using Cons.prems(2) by simp
  then have mem: "ident (w_meta w) \<in> set (idents (ms_reg s) KindWindow)" by (simp add: windowIdents_def)
  then have l: "lookupWindow (ms_reg s) (w_uid w) \<noteq> None" by (auto simp: lookup_None image_iff ident_def)
  obtain e s1 where one: "deleteWindow m (w_uid w) False s = (e, s1)" by fastforce
  note d = deleteWindow_run [OF Cons.prems(1) l one]
  have I: "identity (ms_reg s)" and X: "exactRefs (ms_reg s)" and at: "w_uid w \<in> uidsAt (ms_reg s) KindWindow"
    using Cons.prems(1) l by (auto simp: wf_def lookup_None uidsAt_simps)
  have ids: "idents (ms_reg s1) KindWindow = filter (\<lambda>i. iuid i \<noteq> w_uid w) (idents (ms_reg s) KindWindow)"
    "idents (ms_reg s1) KindProject = idents (ms_reg s) KindProject"
    using d dropWindow_view(3) [OF I X at] by (simp_all del: idents.simps)
  have dist: "distinct (map iuid (windowIdents u (ms_reg s)))"
    using I distinct_idents [of "ms_reg s" KindWindow] by (simp add: identity_def windowIdents_def distinct_map_filter del: idents.simps)
  have "windowIdents u (ms_reg s1) = filter (\<lambda>i. iuid i \<noteq> w_uid w) (windowIdents u (ms_reg s))"
    by (simp add: windowIdents_def ids conj_commute del: idents.simps)
  also have "\<dots> = map (\<lambda>w. ident (w_meta w)) ws"
    using dist unfolding Cons.prems(2) by (auto intro!: filter_True simp: image_iff ident_def)
  finally have next_ids: "windowIdents u (ms_reg s1) = map (\<lambda>w. ident (w_meta w)) ws" .
  obtain e2 where rest: "forEach (\<lambda>w. deleteWindow m (w_uid w) False) ws s1 = (e2, s')" "isl e2 = isl res"
    using Cons.prems(3) one d by (auto simp: andThen_def return_def split: prod.splits sum.splits)
  from Cons.IH [OF _ next_ids rest(1)] d rest(2) ids show ?case by simp
qed

lemma wf_DeleteProject: "keeps wfOK (DeleteProject m u)"
  unfolding DeleteProject_def
proof (rule keeps_andThen_getReg)
  fix s :: "'a mstate" assume s: "wfOK s"
  let ?r = "ms_reg s" and ?del = "\<lambda>r. releaseNames u (r\<lparr>r_projects := delFirst (\<lambda>p. p_uid p = u) (r_projects r)\<rparr>)"
  have W: "wf ?r" using s by (simp add: wfOK_def)
  obtain res t where run: "forEach (\<lambda>w. deleteWindow m (w_uid w) False) (WindowsOf ?r u) s = (res, t)" by fastforce
  have "windowIdents u ?r = map (\<lambda>w. ident (w_meta w)) (WindowsOf ?r u)"
    by (simp add: windowIdents_def WindowsOf_def filter_map comp_def)
  note d = deleteWindows_run [OF W this run]
  show "wfOK (snd ((if lookupProject ?r u = None then throw (stateErr ''delete project'' ErrNotFound)
       else andThen (forEach (\<lambda>w. deleteWindow m (w_uid w) False) (WindowsOf ?r u)) (\<lambda>_.
         andThen (modReg ?del) (\<lambda>_. stamp m))) s))"
  proof (cases "lookupProject ?r u = None")
    case False
    then have "u \<in> uidsAt ?r KindProject" by (auto simp: lookup_None uidsAt_simps)
    then have "u \<in> uidsAt (ms_reg t) KindProject" using d by (simp add: uidsAt_def del: idents.simps)
    moreover have "WindowsOf (ms_reg t) u = []"
      using d by (auto simp: windowIdents_def WindowsOf_def filter_empty_conv)
    ultimately have "wf (?del (ms_reg t))" using d wf_dropProject by blast
    moreover obtain xs where "res = Inr xs" using d by (cases res) auto
    ultimately show ?thesis using run wf_env(2) [of m] unfolding if_not_P [OF False]
      by (simp add: andThen_def modReg_def keeps_def wfOK_def)
  qed (use s in \<open>simp add: throw_def\<close>)
qed

section \<open>Termination evidence\<close>

lemma sameIdents_storeTermination: "sameIdents r (storeTermination rc r)"
  unfolding storeTermination_def
  by (auto intro!: sameIdents_trans [OF sameIdents_upd(3) sameIdents_upd(4)] sameIdents_upd(3))

lemma wf_RecordTermination: "keeps wfOK (RecordTermination m rc)"
  unfolding RecordTermination_def Let_def
  by (intro keeps_andThen keeps_liftE keeps_getReg keeps_option keeps_return wf_env wf_modReg
      sameIdents_trans [OF sameIdents_storeTermination sameIdents_updated])

lemma wf_RecordPaneActivation: "keeps wfOK (RecordPaneActivation m u opts)"
proof -
  have "sameIdents r ((if b then updAgent a clearAgentTermination else (\<lambda>x. x)) (updPane u (startActivation opts now) r))"
    for b a r now
    by (cases b) (auto intro!: sameIdents_trans [OF sameIdents_upd(3) sameIdents_upd(4)] sameIdents_upd(3)
        simp: startActivation_def clearAgentTermination_def)
  then show ?thesis
    unfolding RecordPaneActivation_def Let_def
    by (intro keeps_andThen keeps_if keeps_throw keeps_getReg wf_env wf_modReg sameIdents_updated)
qed

lemma wf_ClearTermination: "keeps wfOK (ClearTermination m u opid)"
proof -
  have "sameIdents r ((if b then updAgent a clearAgentTermination else (\<lambda>x. x))
      ((if c then updPane u clearPaneTermination else (\<lambda>x. x)) r))" for b c a r
    by (cases b; cases c)
      (auto intro!: sameIdents_trans [OF sameIdents_upd(3) sameIdents_upd(4)] sameIdents_upd
        simp: clearPaneTermination_def clearAgentTermination_def sameIdents_def [of r r])
  then show ?thesis
    unfolding ClearTermination_def Let_def
    by (intro keeps_andThen keeps_if keeps_throw keeps_getReg keeps_option keeps_return wf_env wf_modReg)
qed

lemma wf_ObservePaneActivationRuntime: "keeps wfOK (ObservePaneActivationRuntime m u g h)"
  unfolding ObservePaneActivationRuntime_def
  by (intro keeps_andThen keeps_if keeps_throw keeps_getReg keeps_option keeps_return wf_env wf_modReg sameIdents_upd) simp

lemma wf_SetWindowAnchor: "keeps wfOK (SetWindowAnchor m w p)"
  unfolding SetWindowAnchor_def
  by (intro keeps_andThen keeps_if keeps_throw keeps_getReg keeps_option keeps_return wf_env wf_modReg sameIdents_setWindowAnchor)

end
