(* ===== verification/Agent_Steps.thy ===== *)
theory Agent_Steps
  imports Lifecycle
begin

text \<open>
  The step relation of the Registry's writers, Agent operations and deletion cascades included, and what holds
  of every step and of every reachable state: the identity invariant of \<open>Lifecycle\<close>, and the phase table of
  \<^verbatim>\<open>internal/core/metadata/agent.go\<close>, by which no operation moves an Agent along an edge the table does not
  have.
\<close>

section \<open>Steps and reachable states\<close>

inductive lifeStep :: "'w mutator \<Rightarrow> 'w mstate \<Rightarrow> 'w mstate \<Rightarrow> bool" for m where
  registry_step: "regStep m s s' \<Longrightarrow> lifeStep m s s'"
| create_agent: "lifeStep m s (snd (CreateAgent m w copts s))"
| rename_agent: "lifeStep m s (snd (RenameAgent m u name s))"
| attach_agent: "lifeStep m s (snd (AttachAgentPane m u bp opid s))"
| rebind_agent: "lifeStep m s (snd (RebindAgentPane m u p s))"
| release_agent: "lifeStep m s (snd (ReleaseAgentPane m u e why s))"
| transition_agent: "lifeStep m s (snd (TransitionAgent m u phase why s))"
| delete_pane: "lifeStep m s (snd (DeletePane m u s))"
| delete_agent: "lifeStep m s (snd (DeleteAgent m u s))"
| delete_window: "lifeStep m s (snd (DeleteWindow m u s))"
| delete_project: "lifeStep m s (snd (DeleteProject m u s))"
| adopt_shell: "lifeStep m s (snd (AdoptWindowDefaultShell m w p s))"
| ensure_shell: "lifeStep m s (snd (EnsureWindowDefaultShell m w opid s))"
| set_anchor: "lifeStep m s (snd (SetWindowAnchor m w p s))"
| activation: "lifeStep m s (snd (RecordPaneActivation m u opts s))"
| observe_runtime: "lifeStep m s (snd (ObservePaneActivationRuntime m u g h s))"
| receipt: "lifeStep m s (snd (RecordTermination m rc s))"
| clear_termination: "lifeStep m s (snd (ClearTermination m u opid s))"

inductive lifeReachable :: "'w mutator \<Rightarrow> 'w mstate \<Rightarrow> 'w mstate \<Rightarrow> bool" for m s0 where
  start: "lifeReachable m s0 s0"
| step: "lifeReachable m s0 s \<Longrightarrow> lifeStep m s s' \<Longrightarrow> lifeReachable m s0 s'"

lemmas wf_operation = wf_CreateAgent wf_RenameAgent wf_AttachAgentPane wf_RebindAgentPane wf_ReleaseAgentPane
  wf_TransitionAgent wf_DeletePane wf_DeleteAgent wf_deleteWindow [of _ _ True, folded DeleteWindow_def] wf_DeleteProject
  wf_AdoptWindowDefaultShell wf_EnsureWindowDefaultShell wf_SetWindowAnchor wf_RecordPaneActivation
  wf_ObservePaneActivationRuntime wf_RecordTermination wf_ClearTermination

lemma keepsD: "keeps P a \<Longrightarrow> P s \<Longrightarrow> P (snd (a s))"
  by (simp add: keeps_def)

lemma lifeStep_wf: "lifeStep m s s' \<Longrightarrow> exactMint m \<Longrightarrow> wfOK s \<Longrightarrow> wfOK s'"
  by (induction rule: lifeStep.induct) (auto intro: regStep_wf keepsD [OF wf_operation(1)] wf_operation [THEN keepsD])

lemma exactMint_demo: "exactMint (demoMutator n)"
proof -
  have b: "byte (CHR ''u'') = 117" by code_simp
  have "utf8Segments (replicate k (CHR ''u'')) = replicate k (117, ''u'')" for k
    by (induction k) (simp_all add: decodeRune_ascii b)
  then have "runesOf (replicate k (CHR ''u'')) = replicate k 117" for k
    by (simp add: runesOf_def)
  then have "trimSpace (replicate k (CHR ''u'')) = replicate k (CHR ''u'')" for k
    by (intro trimSpace_no_space) (simp add: isSpaceRune_def)
  from this [of "Suc _"]
  show ?thesis using \<open>\<And>k. trimSpace (replicate (Suc k) (CHR ''u'')) = replicate (Suc k) (CHR ''u'')\<close>
    by (simp add: exactMint_def demoMutator_def)
qed

lemma lifeReachable_wf:
  assumes "lifeReachable m s0 s" and "exactMint m" and "wf (ms_reg s0)"
  shows "wf (ms_reg s)"
  using assms lifeStep_wf by (induction rule: lifeReachable.induct) (auto simp: wfOK_def)

section \<open>Phases\<close>

definition phases :: "registry \<Rightarrow> (string \<times> agent_phase) set" where
  "phases r = (\<lambda>a. (a_uid a, ast_phase (a_status a))) ` set (r_agents r)"

definition phasesIn :: "(string \<times> agent_phase) set \<Rightarrow> 'w mstate \<Rightarrow> bool" where
  "phasesIn V s \<longleftrightarrow> phases (ms_reg s) \<subseteq> V"

lemma phases_simps [simp]:
  "phases (r\<lparr>r_projects := ps\<rparr>) = phases r" "phases (r\<lparr>r_windows := ws\<rparr>) = phases r"
  "phases (r\<lparr>r_panes := pns\<rparr>) = phases r" "phases (r\<lparr>r_names := ns\<rparr>) = phases r"
  "phases (r\<lparr>r_controls := cs\<rparr>) = phases r"
  "phases (r\<lparr>r_updated := t\<rparr>) = phases r" "phases (updProject u f1 r) = phases r"
  "phases (updWindow u f2 r) = phases r" "phases (updPane u f3 r) = phases r"
  "phases (releaseNames u r) = phases r" "phases (putReservation sc k x u r) = phases r"
  by (simp_all add: phases_def upd_defs releaseNames_def putReservation_def)

lemma phases_updAgent:
  assumes "\<And>a. a_uid (f a) = a_uid a \<and> ast_phase (a_status (f a)) = ast_phase (a_status a)"
  shows "phases (updAgent u f r) = phases r"
proof -
  have "map (\<lambda>a. (a_uid a, ast_phase (a_status a))) (updFirst (\<lambda>a. a_uid a = u) f as)
      = map (\<lambda>a. (a_uid a, ast_phase (a_status a))) as" for as
    by (induction as) (simp_all add: assms)
  from arg_cong [OF this, of set] show ?thesis by (simp add: phases_def upd_defs)
qed

lemma phases_move:
  assumes "\<And>a. a_uid (f a) = a_uid a \<and> ast_phase (a_status (f a)) = p"
  shows "phases (updAgent u f r) \<subseteq> insert (u, p) (phases r)"
proof -
  have "(\<lambda>a. (a_uid a, ast_phase (a_status a))) ` set (updFirst (\<lambda>a. a_uid a = u) f as)
      \<subseteq> insert (u, p) ((\<lambda>a. (a_uid a, ast_phase (a_status a))) ` set as)" for as
    by (induction as) (auto simp: assms)
  then show ?thesis by (simp add: phases_def upd_defs)
qed

section \<open>Operations that move no phase\<close>

lemma ph_modReg: "(\<And>r. phases (f r) \<subseteq> phases r) \<Longrightarrow> keeps (phasesIn V) (modReg f)"
  by (fastforce simp: keeps_def phasesIn_def modReg_def)

lemma ph_same: "(\<And>r. phases (f r) = phases r) \<Longrightarrow> keeps (phasesIn V) (modReg f)"
  by (rule ph_modReg) simp

lemma ph_to: "phases r' \<subseteq> V \<Longrightarrow> keeps (phasesIn V) (modReg (\<lambda>_. r'))"
  by (simp add: keeps_def phasesIn_def modReg_def)

lemma ph_getReg: "(\<And>r. phases r \<subseteq> V \<Longrightarrow> keeps (phasesIn V) (f r)) \<Longrightarrow> keeps (phasesIn V) (andThen getReg f)"
  by (rule keeps_getReg_known [where Q = "\<lambda>r. phases r \<subseteq> V"]) (simp_all add: phasesIn_def)

lemma ph_env [preserve]:
  "keeps (phasesIn V) (clock m)" "keeps (phasesIn V) (mintUID m k)" "keeps (phasesIn V) (dirExists m op path)"
  "keeps (phasesIn V) (Begin opid)" "keeps (phasesIn V) Commit" "keeps (phasesIn V) (record_created k u)"
  by (auto simp: keeps_def phasesIn_def clock_def mintUID_def dirExists_def Begin_def Commit_def record_created_def
      split: prod.splits option.splits)

lemma ph_stamp [preserve]: "keeps (phasesIn V) (stamp m)"
  unfolding stamp_def by (intro preserve ph_same) simp

lemma ph_the [preserve]:
  "keeps (phasesIn V) (theProject u)" "keeps (phasesIn V) (theWindow u)" "keeps (phasesIn V) (thePane u)"
  "keeps (phasesIn V) (theAgent u)"
  unfolding theProject_def theWindow_def thePane_def theAgent_def by (intro preserve)+

lemma phases_subset: "set (r_agents r') \<subseteq> set (r_agents r) \<Longrightarrow> phases r' \<subseteq> phases r"
  by (auto simp: phases_def)

lemma phases_removeCreated: "phases (removeCreated ref r) \<subseteq> phases r"
  by (cases ref; cases "fst ref")
    (auto simp: removeCreated_def releaseNames_def intro!: phases_subset dest: set_delFirst_subset [THEN subsetD])

lemma ph_Rollback: "phasesIn V s \<Longrightarrow> phasesIn V (Rollback s)"
proof -
  have "phases (foldr removeCreated L r) \<subseteq> phases r" for r L
    using phases_removeCreated by (induction L) fastforce+
  then show "phasesIn V s \<Longrightarrow> phasesIn V (Rollback s)" by (fastforce simp: phasesIn_def Rollback_def)
qed

lemma ph_inTransaction: "(\<And>now. keeps (phasesIn V) (body now)) \<Longrightarrow> keeps (phasesIn V) (inTransaction m opid body)"
  unfolding inTransaction_def by (intro preserve keeps_onError ph_Rollback ph_same) simp_all

lemma phases_reserve: "reserveExplicitName op owner k name u r = Inr r' \<Longrightarrow> phases r' = phases r"
  by (auto elim!: reserve_cases)

lemma ph_mintLoop: "keeps (phasesIn V) (mintLoop m op owner k x n)"
proof (induction n)
  case (Suc n)
  have "keeps (phasesIn V) (case candidateName reg owner k x uid of
         Inl e \<Rightarrow> throw e
       | Inr None \<Rightarrow> mintLoop m op owner k x n
       | Inr (Some name) \<Rightarrow> (case reserveExplicitName op owner k name uid reg of
           Inl e \<Rightarrow> throw e
         | Inr reg' \<Rightarrow> andThen (modReg (\<lambda>_. reg')) (\<lambda>_. return (uid, name))))"
    if "phases reg \<subseteq> V" for uid reg
    using that Suc
    by (auto split: sum.split option.split intro!: keeps_throw keeps_return keeps_andThen ph_to simp: phases_reserve)
  with Suc show ?case unfolding mintLoop.simps by (intro keeps_andThen ph_env ph_getReg keeps_if)
qed (simp add: keeps_throw)

lemma ph_mint [preserve]: "keeps (phasesIn V) (mintAndReserveName m op owner k x)"
  unfolding mintAndReserveName_def by (intro preserve ph_mintLoop)

lemma ph_addPaneTx [preserve]: "keeps (phasesIn V) (addPaneTx m op owner ok' role x command cwd labels now)"
  unfolding addPaneTx_def Let_def by (intro preserve ph_same) (simp_all add: adoptWindowAnchor_def)

lemma ph_addWindowTx [preserve]: "keeps (phasesIn V) (addWindowTx m op ok' owner declared cwd now)"
  unfolding addWindowTx_def declaredPaneTx_def finishWindow_def
  by (intro preserve ph_same) (auto intro!: preserve ph_same simp: adoptProjectPrimaryWindow_def split: list.split if_splits)

lemma ph_registerProjectTx [preserve]: "keeps (phasesIn V) (registerProjectTx m root now opts)"
  unfolding registerProjectTx_def finishProject_def
  by (intro preserve ph_same) (auto intro!: preserve ph_same simp: setPrimary_def split: list.split)

lemma ph_RegisterProject: "keeps (phasesIn V) (RegisterProject m opts)"
proof -
  have fin: "keeps (phasesIn V) (\<lambda>s. andThen Commit (\<lambda>_. andThen (modReg (\<lambda>r. r\<lparr>r_updated := now\<rparr>)) (\<lambda>_. return (g s))) s)"
    for g and now
    by (auto simp: keeps_def andThen_def Commit_def modReg_def return_def phasesIn_def)
  show ?thesis
    unfolding RegisterProject_def validateRoot_def Let_def
    by (intro preserve keeps_onError ph_Rollback fin)
qed

lemma ph_creation:
  "keeps (phasesIn V) (AddWindow m u bw opid)" "keeps (phasesIn V) (AddWindowToManagedRoot m k u bw cwd opid)"
  "keeps (phasesIn V) (AddPane m u bp opid)"
  unfolding AddWindow_def AddWindowToManagedRoot_def AddPane_def Let_def
  by (intro preserve ph_inTransaction)+

lemma ph_rename_step:
  assumes "\<And>r. phases (f r) = phases r" and "keeps (phasesIn V) g" and "phases reg \<subseteq> V"
  shows "keeps (phasesIn V) (case reserveExplicitName op owner k' name u' reg of
      Inl e \<Rightarrow> throw e
    | Inr reg' \<Rightarrow> andThen (modReg (\<lambda>_. f reg')) (\<lambda>_. andThen (stamp m) (\<lambda>_. g)))"
  using assms phases_reserve
  by (fastforce split: sum.split intro!: keeps_throw keeps_andThen ph_to ph_stamp)

lemma ph_rename:
  "keeps (phasesIn V) (RenameProject m u name)" "keeps (phasesIn V) (RenameWindow m u name)"
  "keeps (phasesIn V) (RenamePane m u name)" "keeps (phasesIn V) (RenameAgent m u name)"
  unfolding RenameProject_def RenameWindow_def RenamePane_def RenameAgent_def
  by (intro ph_getReg keeps_option keeps_throw ph_rename_step ph_the phases_updAgent phases_simps; simp)+

lemma ph_edit:
  "keeps (phasesIn V) (RebindProjectRoot m u root)" "keeps (phasesIn V) (BindLiveProjectSession m u session socket)"
  "keeps (phasesIn V) (BindOfflineProjectSession m u session)"
  "keeps (phasesIn V) (ObserveWindowRuntimeBinding m u session handle)"
  "keeps (phasesIn V) (SetLabels m k u added removed)"
proof -
  show "keeps (phasesIn V) (RebindProjectRoot m u root)"
    unfolding RebindProjectRoot_def validateRoot_def Let_def by (intro preserve ph_same phases_simps)
  show "keeps (phasesIn V) (BindLiveProjectSession m u session socket)"
    unfolding BindLiveProjectSession_def Let_def by (intro preserve ph_same phases_simps)
  show "keeps (phasesIn V) (BindOfflineProjectSession m u session)"
    unfolding BindOfflineProjectSession_def Let_def by (intro preserve ph_same phases_simps)
  show "keeps (phasesIn V) (ObserveWindowRuntimeBinding m u session handle)"
    unfolding ObserveWindowRuntimeBinding_def Let_def by (intro preserve ph_same phases_simps)
  have "phases (updMetadata k u (\<lambda>o'. o'\<lparr>om_labels := ls o'\<rparr>) r) = phases r" for ls r
    by (cases k) (simp_all add: updMetadata_def phases_updAgent)
  then show "keeps (phasesIn V) (SetLabels m k u added removed)"
    unfolding SetLabels_def Let_def by (intro preserve ph_same)
qed

lemma ph_observeRoots: "keeps (phasesIn V) (ObserveProjectRoots m)"
  unfolding ObserveProjectRoots_def
proof (rule keeps_andThen [OF ph_env(1)], rule keeps_andThen_getReg)
  fix now and s :: "'a mstate"
  assume X: "phasesIn V s"
  obtain e qs ch s' where o': "observeRoots m now (r_projects (ms_reg s)) s = ((e, qs, ch), s')"
    by (metis prod_cases3 surj_pair)
  from observeRoots_frame [OF o'] X
  show "phasesIn V (snd (case observeRoots m now (r_projects (ms_reg s)) s of
       ((Some e, ps, _), s') \<Rightarrow> (Inl e, s'\<lparr>ms_reg := (ms_reg s')\<lparr>r_projects := ps\<rparr>\<rparr>)
     | ((None, ps, changed), s') \<Rightarrow> (Inr (), s'\<lparr>ms_reg := (ms_reg s')\<lparr>r_projects := ps,
          r_updated := (if changed then now else r_updated (ms_reg s'))\<rparr>\<rparr>)))"
    by (auto simp: o' phasesIn_def split: option.splits)
qed

lemmas ph_registry_operation = ph_RegisterProject ph_creation ph_rename(1-3) ph_edit ph_observeRoots

lemma ph_regStep: "regStep m s s' \<Longrightarrow> phasesIn V s \<Longrightarrow> phasesIn V s'"
  by (induction rule: regStep.induct) (auto intro: ph_registry_operation [THEN keepsD])

text \<open>Shells and anchors.\<close>

lemma ph_shell:
  "keeps (phasesIn V) (AdoptWindowDefaultShell m w p)" "keeps (phasesIn V) (EnsureWindowDefaultShell m w opid)"
proof -
  show adopt: "keeps (phasesIn V) (AdoptWindowDefaultShell m w p)" for w p
    unfolding AdoptWindowDefaultShell_def Let_def by (intro preserve ph_same phases_simps)
  show "keeps (phasesIn V) (EnsureWindowDefaultShell m w opid)"
    unfolding EnsureWindowDefaultShell_def Let_def
    by (intro preserve adopt ph_creation(3) ph_same phases_simps)
qed

lemma phases_setWindowAnchor [simp]: "phases (setWindowAnchor w p r) = phases r"
  by (simp add: setWindowAnchor_def Let_def split: option.split)

lemma ph_anchoring:
  "keeps (phasesIn V) (anchorWindowOnDefaultShell m w opid now)"
  "keeps (phasesIn V) (repairRetainedWindow m w opid now)"
  "keeps (phasesIn V) (moveAnchorOffReleasedPane m w released preferred opid now)"
  "keeps (phasesIn V) (SetWindowAnchor m w p)"
proof -
  show a: "keeps (phasesIn V) (anchorWindowOnDefaultShell m w opid now)"
    unfolding anchorWindowOnDefaultShell_def by (intro preserve ph_shell(2) ph_same phases_simps)
  show "keeps (phasesIn V) (repairRetainedWindow m w opid now)"
    unfolding repairRetainedWindow_def reanchor_def Let_def by (intro preserve ph_same a) simp
  show "keeps (phasesIn V) (moveAnchorOffReleasedPane m w released preferred opid now)"
    unfolding moveAnchorOffReleasedPane_def by (intro preserve ph_same a phases_setWindowAnchor)
  show "keeps (phasesIn V) (SetWindowAnchor m w p)"
    unfolding SetWindowAnchor_def by (intro preserve ph_same phases_setWindowAnchor)
qed

text \<open>Deletion.\<close>

lemma phases_moveRefs: "phases (moveRefs u r i) = phases r"
  by (simp add: moveRefs_def Let_def)

lemma phases_deletePane: "phases (fst (deletePane u r)) \<subseteq> phases r"
proof -
  have move: "phases (foldl (moveRefs u) r is) = phases r" for r "is"
    by (induction "is" arbitrary: r) (simp_all add: phases_moveRefs)
  have "a_uid (releasePaneRef u a) = a_uid a" "ast_phase (a_status (releasePaneRef u a)) = ast_phase (a_status a)" for a
    by (simp_all add: releasePaneRef_def)
  then have "phases (r\<lparr>r_agents := map (releasePaneRef u) (r_agents r)\<rparr>) = phases r" for r
    by (simp add: phases_def image_image)
  then show ?thesis by (auto simp: deletePane_def Let_def move split: option.splits)
qed

lemma phases_dropPanes: "phases (dropPanes u r) \<subseteq> phases r"
proof -
  have "phases (foldl (\<lambda>r p. fst (deletePane (pn_uid p) r)) r ps) \<subseteq> phases r" for ps
    by (induction ps arbitrary: r) (auto dest: subsetD [OF phases_deletePane])
  then show ?thesis by (simp add: dropPanes_def)
qed

lemma phases_deleteAgentRow: "phases (deleteAgentRow u r) \<subseteq> phases r"
  by (auto simp: deleteAgentRow_def releaseNames_def phases_def dest: set_delFirst_subset [THEN subsetD])

lemma phases_dropWindow: "phases (dropWindow u r) \<subseteq> phases r"
proof -
  have "phases (dropAgent r a) \<subseteq> phases r" for r a
    using phases_deleteAgentRow phases_dropPanes by (fastforce simp: dropAgent_def)
  then have "phases (foldl dropAgent r as) \<subseteq> phases r" for as
    by (induction as arbitrary: r) fastforce+
  then show ?thesis using phases_dropPanes by (fastforce simp: dropWindow_def Let_def)
qed

lemma ph_deleteWindow: "keeps (phasesIn V) (deleteWindow m u b)"
proof -
  have "phases (repickPrimary u t r) = phases r" for t r
    by (simp add: repickPrimary_def Let_def split: option.split)
  then have "phases (let r1 = dropWindow u r in if b then repickPrimary u t r1 else r1) \<subseteq> phases r" for t r
    using phases_dropWindow by (simp add: Let_def)
  then show ?thesis unfolding deleteWindow_def by (intro preserve ph_modReg) simp_all
qed

lemma ph_DeleteProject: "keeps (phasesIn V) (DeleteProject m u)"
  unfolding DeleteProject_def by (intro preserve ph_deleteWindow ph_same) simp

text \<open>Termination evidence.\<close>

lemma phases_evidence [simp]:
  "phases (storeTermination rc r) = phases r" "phases (updAgent u clearAgentTermination r) = phases r"
  by (simp_all add: storeTermination_def phases_updAgent clearAgentTermination_def)

lemma ph_termination:
  "keeps (phasesIn V) (RecordTermination m rc)" "keeps (phasesIn V) (RecordPaneActivation m u opts)"
  "keeps (phasesIn V) (ClearTermination m u opid)" "keeps (phasesIn V) (ObservePaneActivationRuntime m u g h)"
proof -
  show "keeps (phasesIn V) (RecordTermination m rc)"
    unfolding RecordTermination_def Let_def by (intro preserve ph_same) simp_all
  show "keeps (phasesIn V) (RecordPaneActivation m u opts)"
    unfolding RecordPaneActivation_def Let_def by (intro preserve ph_same) simp_all
  show "keeps (phasesIn V) (ClearTermination m u opid)"
    unfolding ClearTermination_def Let_def by (intro preserve ph_same) simp_all
  show "keeps (phasesIn V) (ObservePaneActivationRuntime m u g h)"
    unfolding ObservePaneActivationRuntime_def Let_def by (intro preserve ph_same) simp_all
qed

section \<open>Operations that move a phase\<close>

text \<open>The phases a Registry allows next: an Agent it has stays or moves along the table, a new one is free.\<close>

definition allowed :: "registry \<Rightarrow> (string \<times> agent_phase) set" where
  "allowed r = {(u, p). case lookupAgent r u of
     None \<Rightarrow> True
   | Some a \<Rightarrow> p = ast_phase (a_status a) \<or> CanTransitionAgent (ast_phase (a_status a)) p}"

lemma find_distinct: "distinct (map f xs) \<Longrightarrow> x \<in> set xs \<Longrightarrow> find (\<lambda>y. f y = f x) xs = Some x"
  by (induction xs) (auto simp: rev_image_eqI)

lemma phases_allowed:
  assumes "identity r"
  shows "phases r \<subseteq> allowed r"
proof -
  have "lookupAgent r (a_uid a) = Some a" if "a \<in> set (r_agents r)" for a
    using that assms distinct_idents [of r KindAgent]
    by (auto simp: lookupAgent_def identity_def comp_def intro: find_distinct)
  then show ?thesis by (auto simp: phases_def allowed_def)
qed

lemma ph_move:
  assumes "(u, p) \<in> V" and "\<And>a. a_uid (f a) = a_uid a \<and> ast_phase (a_status (f a)) = p"
    and "\<And>r. phases (g r) \<subseteq> phases r"
  shows "keeps (phasesIn V) (modReg (\<lambda>r. updAgent u f (g r)))"
  using assms(1) phases_move [of f p u, OF assms(2)] assms(3) by (fastforce simp: keeps_def phasesIn_def modReg_def)

lemma ph_restoring: "phases before \<subseteq> V \<Longrightarrow> keeps (phasesIn V) c \<Longrightarrow> keeps (phasesIn V) (restoring before c)"
  unfolding restoring_def by (rule keeps_onError) (simp_all add: phasesIn_def)

lemma ph_updated: "keeps (phasesIn V) (modReg (\<lambda>r. r\<lparr>r_updated := t\<rparr>))"
  by (rule ph_same) simp

lemma getReg_run: "andThen getReg f s = f (ms_reg s) s"
  by (simp add: andThen_def getReg_def)

text \<open>What an operation that reads the Registry first does from a valid Registry.\<close>

definition movesAlong :: "('w mstate, 'a) comp \<Rightarrow> bool" where
  "movesAlong c \<longleftrightarrow> (\<forall>s. identity (ms_reg s) \<longrightarrow> phasesIn (allowed (ms_reg s)) (snd (c s)))"

lemma movesAlong_getReg:
  assumes "\<And>r. phases r \<subseteq> allowed r \<Longrightarrow> keeps (phasesIn (allowed r)) (f r)"
  shows "movesAlong (andThen getReg f)"
  unfolding movesAlong_def getReg_run
proof (intro allI impI)
  fix s :: "'a mstate" assume "identity (ms_reg s)"
  then have p: "phases (ms_reg s) \<subseteq> allowed (ms_reg s)" by (rule phases_allowed)
  show "phasesIn (allowed (ms_reg s)) (snd (f (ms_reg s) s))"
    by (rule keepsD [OF assms [OF p]]) (simp add: phasesIn_def p)
qed

lemma movesAlong_keeps: "(\<And>V. keeps (phasesIn V) c) \<Longrightarrow> movesAlong c"
  unfolding movesAlong_def by (intro allI impI, rule keepsD, assumption, simp add: phasesIn_def phases_allowed)

lemma to_allowed:
  "lookupAgent r u = Some a \<Longrightarrow> CanTransitionAgent (ast_phase (a_status a)) p \<Longrightarrow> (u, p) \<in> allowed r"
  by (simp add: allowed_def)

lemma moves_attach: "movesAlong (AttachAgentPane m u bp opid)"
  unfolding AttachAgentPane_def Let_def
proof (rule movesAlong_getReg)
  fix r assume r: "phases r \<subseteq> allowed r"
  show "keeps (phasesIn (allowed r)) (case lookupAgent r u of None \<Rightarrow> throw (stateErr ''attach agent pane'' ErrNotFound)
      | Some a \<Rightarrow>
          if \<not> CanTransitionAgent (ast_phase (a_status a)) PhaseRunning then throw (stateErr ''attach agent pane'' ErrInvalidPhase)
          else andThen (inTransaction m opid (\<lambda>now. andThen
                  (addPaneTx m ''attach agent pane'' u KindAgent PaneRoleAgent (bp_name bp) (bp_command bp)
                     (bp_cwd bp) (bp_labels bp) now) (\<lambda>p. return (now, p)))) (\<lambda>(now, p).
               andThen (modReg (updAgent u (bindAgent (pn_uid p) now))) (\<lambda>_.
               andThen (if ast_pane (a_status a) \<noteq> '''' \<and> anchors r (OwnerUID (a_meta a)) (ast_pane (a_status a))
                  then restoring r (moveAnchorOffReleasedPane m (OwnerUID (a_meta a)) (ast_pane (a_status a)) (pn_uid p) opid now)
                  else return ()) (\<lambda>_.
               andThen (modReg (\<lambda>r. r\<lparr>r_updated := now\<rparr>)) (\<lambda>_. return p)))))"
  proof (cases "lookupAgent r u")
    case (Some a)
    have "keeps (phasesIn (allowed r)) (modReg (updAgent u (bindAgent p now)))"
      if "CanTransitionAgent (ast_phase (a_status a)) PhaseRunning" for p now
      using ph_move [where g = "\<lambda>x. x", OF to_allowed [OF Some that], of "bindAgent p now"] by (simp add: bindAgent_def)
    then show ?thesis unfolding Some option.case
      by (cases "CanTransitionAgent (ast_phase (a_status a)) PhaseRunning"; simp only: simp_thms if_True if_False keeps_throw)
        (intro preserve ph_inTransaction ph_restoring [OF r] ph_anchoring ph_updated, simp)
  qed (simp add: keeps_throw)
qed

lemma moves_rebind: "movesAlong (RebindAgentPane m u p)"
  unfolding RebindAgentPane_def Let_def
proof (rule movesAlong_getReg)
  fix r assume r: "phases r \<subseteq> allowed r"
  have bind: "keeps (phasesIn (allowed r)) (modReg (\<lambda>x. (updAgent (a_uid a) (bindAgent q now) x)\<lparr>r_updated := now\<rparr>))"
    if "lookupAgent r (trimSpace u) = Some a" "CanTransitionAgent (ast_phase (a_status a)) PhaseRunning" for a q now
  proof -
    have "(a_uid a, PhaseRunning) \<in> allowed r" using to_allowed [OF that] lookup_Some(5) [OF that(1)] by simp
    from ph_move [where g = "\<lambda>x. x", OF this, of "bindAgent q now"] show ?thesis
      by (simp add: bindAgent_def keeps_def phasesIn_def modReg_def)
  qed
  show "keeps (phasesIn (allowed r)) (case lookupAgent r (trimSpace u) of
        None \<Rightarrow> throw (stateErr ''rebind agent pane'' ErrNotFound)
      | Some a \<Rightarrow>
          if \<not> CanTransitionAgent (ast_phase (a_status a)) PhaseRunning then throw (stateErr ''rebind agent pane'' ErrInvalidPhase)
          else if trimSpace (ast_pane (a_status a)) \<noteq> '''' \<and> trimSpace (ast_pane (a_status a)) \<noteq> trimSpace p
          then throw (stateErr ''rebind agent pane'' ErrInvalidRegistry)
          else (case lookupPane r (trimSpace p) of
              None \<Rightarrow> throw (stateErr ''rebind agent pane'' ErrNotFound)
            | Some p \<Rightarrow>
                if om_owner (pn_meta p) \<noteq> Some \<lparr>or_kind = KindAgent, or_uid = a_uid a\<rparr>
                  \<or> pns_role (pn_spec p) \<noteq> PaneRoleAgent
                then throw (stateErr ''rebind agent pane'' ErrInvalidRegistry)
                else andThen (clock m) (\<lambda>now.
                  andThen (modReg (\<lambda>r. (updAgent (a_uid a) (bindAgent (pn_uid p) now) r)\<lparr>r_updated := now\<rparr>))
                    (\<lambda>_. return p))))"
    by (auto intro!: keeps_throw keeps_andThen keeps_return ph_env bind split: option.split)
qed

lemma moves_release: "movesAlong (ReleaseAgentPane m u e why)"
  unfolding ReleaseAgentPane_def Let_def
proof (rule movesAlong_getReg)
  fix r assume r: "phases r \<subseteq> allowed r"
  have edit: "keeps (phasesIn (allowed r)) (modReg (\<lambda>x. updAgent u (releaseAgent phase why now)
      (if ast_pane (a_status a) \<noteq> '''' then fst (deletePane (ast_pane (a_status a)) x) else x)))"
    if "lookupAgent r u = Some a" "CanTransitionAgent (ast_phase (a_status a)) phase" for a phase now
    by (rule ph_move [OF to_allowed [OF that]]) (use phases_deletePane in \<open>auto simp: releaseAgent_def\<close>)
  show "keeps (phasesIn (allowed r)) (case lookupAgent r u of None \<Rightarrow> throw (stateErr ''release agent pane'' ErrNotFound)
      | Some a \<Rightarrow> (case exitPhase e of
          None \<Rightarrow> throw (inputErr ''release agent pane'' ErrInvalidPhase)
        | Some phase \<Rightarrow>
            if \<not> CanTransitionAgent (ast_phase (a_status a)) phase then throw (stateErr ''release agent pane'' ErrInvalidPhase)
            else andThen (clock m) (\<lambda>now.
              andThen (modReg (\<lambda>r. updAgent u (releaseAgent phase why now)
                (if ast_pane (a_status a) \<noteq> '''' then fst (deletePane (ast_pane (a_status a)) r) else r))) (\<lambda>_.
              andThen (restoring r (repairRetainedWindow m (OwnerUID (a_meta a)) ''replace-released-agent-anchor'' now)) (\<lambda>_.
              andThen (modReg (\<lambda>r. r\<lparr>r_updated := now\<rparr>)) (\<lambda>_. theAgent u))))))"
    by (auto split: option.split
        intro!: keeps_throw keeps_andThen ph_env ph_the edit ph_restoring [OF r] ph_anchoring ph_updated
        simp del: if_not_P if_P)
qed

lemma moves_transition: "movesAlong (TransitionAgent m u phase why)"
  unfolding TransitionAgent_def Let_def
proof (rule movesAlong_getReg)
  fix r assume r: "phases r \<subseteq> allowed r"
  have edit: "keeps (phasesIn (allowed r)) (modReg (\<lambda>x. updAgent u (moveAgent phase why now)
      (if b then updPane p clearClaudeRegistration x else x)))"
    if "lookupAgent r u = Some a" "CanTransitionAgent (ast_phase (a_status a)) phase" for a b p now
    by (rule ph_move [OF to_allowed [OF that]]) (auto simp: moveAgent_def releaseAgent_def)
  show "keeps (phasesIn (allowed r)) (case lookupAgent r u of None \<Rightarrow> throw (stateErr ''transition agent'' ErrNotFound)
      | Some a \<Rightarrow>
          if \<not> ValidAgentPhase phase then throw (inputErr ''transition agent'' ErrInvalidPhase)
          else if \<not> CanTransitionAgent (ast_phase (a_status a)) phase then throw (inputErr ''transition agent'' ErrInvalidPhase)
          else andThen (clock m) (\<lambda>now.
               andThen (modReg (\<lambda>r. updAgent u (moveAgent phase why now)
                 (if phase \<noteq> PhaseRunning then updPane (ast_pane (a_status a)) clearClaudeRegistration r else r))) (\<lambda>_.
               andThen (if (if phase \<noteq> PhaseRunning then ast_pane (a_status a) else '''') \<noteq> '''' \<and>
                   anchors r (OwnerUID (a_meta a)) (if phase \<noteq> PhaseRunning then ast_pane (a_status a) else '''')
                  then restoring r (moveAnchorOffReleasedPane m (OwnerUID (a_meta a))
                    (if phase \<noteq> PhaseRunning then ast_pane (a_status a) else '''') '''' ''replace-released-agent-anchor'' now)
                  else return ()) (\<lambda>_.
               andThen (modReg (\<lambda>r. r\<lparr>r_updated := now\<rparr>)) (\<lambda>_. theAgent u)))))"
  proof (cases "lookupAgent r u")
    case (Some a)
    show ?thesis
    proof (cases "CanTransitionAgent (ast_phase (a_status a)) phase")
      case True
      show ?thesis unfolding Some option.case
        by (intro keeps_if keeps_throw keeps_andThen keeps_return ph_env ph_the edit [OF Some True] ph_restoring [OF r] ph_anchoring ph_updated)
    next
      case False
      then show ?thesis unfolding Some option.case by (simp add: keeps_throw)
    qed
  qed (simp add: keeps_throw)
qed

lemma moves_deletePane: "movesAlong (DeletePane m u)"
  unfolding DeletePane_def Let_def DeleteWindow_def
proof (rule movesAlong_getReg)
  fix r assume r: "phases r \<subseteq> allowed r"
  have edit: "keeps (phasesIn (allowed r)) (modReg (\<lambda>x.
      (if offlinesAgent r p then updAgent (OwnerUID (pn_meta p)) (offlineDeleted now) else (\<lambda>y. y)) (fst (deletePane u x))))"
    for p now
  proof (cases "offlinesAgent r p")
    case True
    then obtain a where a: "lookupAgent r (OwnerUID (pn_meta p)) = Some a" "ast_phase (a_status a) = PhaseRunning"
      by (auto simp: offlinesAgent_def OwnerUID_def split: option.splits)
    have "CanTransitionAgent (ast_phase (a_status a)) PhaseOffline" unfolding a by code_simp
    then have "(OwnerUID (pn_meta p), PhaseOffline) \<in> allowed r" by (rule to_allowed [OF a(1)])
    from ph_move [OF this, of "offlineDeleted now" "\<lambda>x. fst (deletePane u x)"] phases_deletePane True
    show ?thesis by (auto simp: offlineDeleted_def)
  qed (simp add: ph_modReg phases_deletePane)
  show "keeps (phasesIn (allowed r)) (case lookupPane r u of None \<Rightarrow> throw (stateErr ''delete pane'' ErrNotFound)
      | Some p \<Rightarrow> (case paneWindowOwnerUID r p of (windowUID, owned) \<Rightarrow>
           if \<not> owned then throw (stateErr ''delete pane'' ErrInvalidRegistry)
           else if VirtualWindowDeleteCascade r KindPane u \<noteq> '''' then deleteWindow m (VirtualWindowDeleteCascade r KindPane u) True
           else andThen (clock m) (\<lambda>now. andThen (modReg (\<lambda>x.
               (if offlinesAgent r p then updAgent (OwnerUID (pn_meta p)) (offlineDeleted now) else (\<lambda>x. x)) (fst (deletePane u x)))) (\<lambda>_.
             andThen (restoring r (repairRetainedWindow m windowUID ''replace-deleted-window-anchor'' now)) (\<lambda>_.
             modReg (\<lambda>r. r\<lparr>r_updated := now\<rparr>))))))"
    by (intro keeps_option keeps_prod keeps_if keeps_throw keeps_andThen ph_env ph_deleteWindow edit ph_restoring [OF r]
        ph_anchoring ph_updated)
qed

lemma moves_deleteAgent: "movesAlong (DeleteAgent m u)"
  unfolding DeleteAgent_def Let_def DeleteWindow_def
proof (rule movesAlong_getReg)
  fix r assume r: "phases r \<subseteq> allowed r"
  have edit: "keeps (phasesIn (allowed r)) (modReg (\<lambda>x. deleteAgentRow u (dropPanes u x)))"
    by (rule ph_modReg) (use phases_deleteAgentRow phases_dropPanes in blast)
  show "keeps (phasesIn (allowed r)) (case lookupAgent r u of None \<Rightarrow> throw (stateErr ''delete agent'' ErrNotFound)
      | Some a \<Rightarrow>
          if VirtualWindowDeleteCascade r KindAgent u \<noteq> '''' then deleteWindow m (VirtualWindowDeleteCascade r KindAgent u) True
          else andThen (clock m) (\<lambda>now. andThen (modReg (\<lambda>x. deleteAgentRow u (dropPanes u x))) (\<lambda>_.
            andThen (restoring r (repairRetainedWindow m (OwnerUID (a_meta a)) ''replace-deleted-agent-anchor'' now)) (\<lambda>_.
            modReg (\<lambda>r. r\<lparr>r_updated := now\<rparr>)))))"
    by (intro keeps_option keeps_if keeps_throw keeps_andThen ph_env ph_deleteWindow edit ph_restoring [OF r]
        ph_anchoring ph_updated)
qed

text \<open>A created Agent has a uid no Agent had.\<close>

lemma createAgent_phases:
  assumes I: "identity (ms_reg s)" and run: "createAgentTx m W opts now s = (res, s')"
  shows "phasesIn (allowed (ms_reg s)) s'"
proof (cases "mintAndReserveName m ''create agent'' W KindAgent (ca_name opts) s")
  case (Pair e s1)
  show ?thesis
  proof (cases e)
    case (Inl x)
    then show ?thesis using run Pair mint_fail [of m _ W KindAgent _ s x s1] phases_allowed [OF I]
      by (auto simp: createAgentTx_def andThen_def phasesIn_def)
  next
    case (Inr un)
    obtain uid name where un: "un = (uid, name)" by fastforce
    have mint: "mintedAt s KindAgent W (ca_name opts) uid name s1" using mint_ok [OF I] Pair Inr un by simp
    then have fresh: "lookupAgent (ms_reg s) uid = None"
      by (auto simp: mintedAt_def lookup_None set_allUids uidsAt_simps [symmetric] dest: bspec)
    have same: "phases (ms_reg s1) = phases (ms_reg s)" using mint by (auto simp: mintedAt_def)
    have "ms_reg s' = (ms_reg s1)\<lparr>r_agents := r_agents (ms_reg s1) @ [newAgent uid name W now opts]\<rparr>"
      using run Pair Inr un by (auto simp: createAgentTx_def andThen_def modReg_def record_created_def return_def Let_def)
    then have "phases (ms_reg s') = insert (uid, PhasePending) (phases (ms_reg s))"
      using same by (auto simp: phases_def newAgent_def newMeta_def)
    then show ?thesis using phases_allowed [OF I] fresh by (auto simp: phasesIn_def allowed_def)
  qed
qed

lemma moves_createAgent: "movesAlong (CreateAgent m W opts)"
  unfolding movesAlong_def
proof (intro allI impI)
  fix s :: "'a mstate" assume I: "identity (ms_reg s)"
  obtain now w where c: "Now m (ms_world s) = (now, w)" by fastforce
  let ?s = "s\<lparr>ms_world := w, ms_txn := \<lparr>tx_id = ca_operation opts, tx_ledger = [], tx_done = False\<rparr>\<rparr>"
  obtain res t where run: "createAgentTx m W opts now ?s = (res, t)" by fastforce
  have t: "phasesIn (allowed (ms_reg s)) t" using createAgent_phases [OF _ run] I by simp
  have tx: "phasesIn (allowed (ms_reg s)) (snd (inTransaction m (ca_operation opts) (createAgentTx m W opts) s))"
    using t ph_Rollback [OF t] c run
    by (cases res) (auto simp: inTransaction_def andThen_def clock_def Begin_def onError_def Commit_def modReg_def return_def phasesIn_def)
  have "phasesIn (allowed (ms_reg s)) s" using phases_allowed [OF I] by (simp add: phasesIn_def)
  with tx show "phasesIn (allowed (ms_reg s)) (snd (CreateAgent m W opts s))"
    by (auto simp: CreateAgent_def andThen_def getReg_def liftE_def throw_def return_def split: sum.splits)
qed

lemma movesAlongD: "movesAlong c \<Longrightarrow> identity (ms_reg s) \<Longrightarrow> phasesIn (allowed (ms_reg s)) (snd (c s))"
  by (simp add: movesAlong_def)

lemmas moves_operation = moves_createAgent moves_attach moves_rebind moves_release moves_transition moves_deletePane
  moves_deleteAgent movesAlong_keeps [OF ph_rename(4)] movesAlong_keeps [OF ph_deleteWindow, of _ _ True, folded DeleteWindow_def]
  movesAlong_keeps [OF ph_DeleteProject] ph_shell [THEN movesAlong_keeps] movesAlong_keeps [OF ph_anchoring(4)]
  ph_termination [THEN movesAlong_keeps]

lemma lifeStep_phases: "lifeStep m s s' \<Longrightarrow> identity (ms_reg s) \<Longrightarrow> phasesIn (allowed (ms_reg s)) s'"
proof (induction rule: lifeStep.induct)
  case (registry_step s s')
  from registry_step(2) have "phasesIn (allowed (ms_reg s)) s" by (simp add: phasesIn_def phases_allowed)
  then show ?case by (rule ph_regStep [OF registry_step(1)])
qed (auto intro: moves_operation [THEN movesAlongD])

section \<open>What a Project's deletion takes\<close>

text \<open>Dropping the Windows \<open>Ws\<close>: their rows, the Agents they own, and the Panes either owns.\<close>

definition ownedAgents :: "string set \<Rightarrow> (kind \<Rightarrow> ident list) \<Rightarrow> string set" where
  "ownedAgents Ws f = iuid ` {i \<in> set (f KindAgent). iowner i \<in> Ws}"

definition cascade :: "string set \<Rightarrow> (kind \<Rightarrow> ident list) \<Rightarrow> kind \<Rightarrow> ident list" where
  "cascade Ws f = f(KindPane := filter (\<lambda>i. iowner i \<notin> Ws \<and> iowner i \<notin> ownedAgents Ws f) (f KindPane),
     KindAgent := filter (\<lambda>i. iowner i \<notin> Ws) (f KindAgent),
     KindWindow := filter (\<lambda>i. iuid i \<notin> Ws) (f KindWindow))"

lemma cascade_empty: "cascade {} f = f"
  by (simp add: cascade_def ownedAgents_def fun_eq_iff)

lemma cascade_insert: "cascade Ws (cascade {W} f) = cascade (insert W Ws) f"
proof -
  have "ownedAgents {W} f \<union> ownedAgents Ws (cascade {W} f) = ownedAgents (insert W Ws) f"
    by (auto simp: ownedAgents_def cascade_def)
  then have o': "x \<in> ownedAgents (insert W Ws) f \<longleftrightarrow> x \<in> ownedAgents {W} f \<or> x \<in> ownedAgents Ws (cascade {W} f)" for x
    by blast
  have "cascade Ws (cascade {W} f) k = cascade (insert W Ws) f k" for k
    using o' by (cases k) (auto simp: cascade_def intro!: filter_cong)
  then show ?thesis by (rule ext)
qed

lemma dropWindow_cascade:
  assumes "wf r" and "lookupWindow r W \<noteq> None"
  shows "idents (dropWindow W r) = cascade {W} (idents r)"
proof -
  have "a_uid ` set (AgentsOf r W) = ownedAgents {W} (idents r)"
    by (auto simp: AgentsOf_def ownedAgents_def image_iff ident_def; blast)
  then have eq: "iowner i \<in> ownedAgents {W} (idents r) \<longleftrightarrow> iowner i \<in> a_uid ` set (AgentsOf r W)" for i by simp
  have "identity r" "exactRefs r" "W \<in> uidsAt r KindWindow"
    using assms by (auto simp: wf_def lookup_None uidsAt_simps)
  then show ?thesis by (simp only: cascade_def dropWindow_view(3) eq singleton_iff simp_thms)
qed

lemma deleteWindows_cascade:
  assumes "wf (ms_reg s)" and "distinct (map w_uid ws)" and "w_uid ` set ws \<subseteq> uidsAt (ms_reg s) KindWindow"
    and "forEach (\<lambda>w. deleteWindow m (w_uid w) False) ws s = (res, s')"
  shows "idents (ms_reg s') = cascade (w_uid ` set ws) (idents (ms_reg s)) \<and> wf (ms_reg s') \<and> (\<exists>xs. res = Inr xs)"
  using assms
proof (induction ws arbitrary: s res)
  case Nil
  then show ?case by (auto simp: return_def cascade_empty)
next
  case (Cons w ws)
  have l: "lookupWindow (ms_reg s) (w_uid w) \<noteq> None"
    using Cons.prems(3) by (auto simp: lookup_None uidsAt_simps)
  obtain e s1 where one: "deleteWindow m (w_uid w) False s = (e, s1)" by fastforce
  note d = deleteWindow_run [OF Cons.prems(1) l one]
  have ids: "idents (ms_reg s1) = cascade {w_uid w} (idents (ms_reg s))"
    using d dropWindow_cascade [OF Cons.prems(1) l] by simp
  have "uidsAt (ms_reg s1) KindWindow = uidsAt (ms_reg s) KindWindow - {w_uid w}"
    by (auto simp: uidsAt_def ids cascade_def simp del: idents.simps)
  then have in1: "w_uid ` set ws \<subseteq> uidsAt (ms_reg s1) KindWindow"
    using Cons.prems(2,3) by (simp add: subset_Diff_insert)
  obtain e2 where rest: "forEach (\<lambda>w. deleteWindow m (w_uid w) False) ws s1 = (e2, s')"
    "(\<exists>xs. e2 = Inr xs) \<Longrightarrow> (\<exists>xs. res = Inr xs)"
    using Cons.prems(4) one d by (auto simp: andThen_def return_def split: prod.splits sum.splits)
  from Cons.IH [OF _ _ in1 rest(1)] d rest(2) Cons.prems(2) show ?case
    by (simp add: ids cascade_insert)
qed

lemma DeleteProject_run:
  assumes W: "wf (ms_reg s)" and p: "lookupProject (ms_reg s) u \<noteq> None" and run: "DeleteProject m u s = (res, s')"
  shows "res = Inr () \<and> wf (ms_reg s') \<and> idents (ms_reg s')
    = (cascade (w_uid ` set (WindowsOf (ms_reg s) u)) (idents (ms_reg s)))
        (KindProject := filter (\<lambda>i. iuid i \<noteq> u) (idents (ms_reg s) KindProject))"
proof -
  let ?r = "ms_reg s" and ?ws = "WindowsOf (ms_reg s) u"
  obtain e t where one: "forEach (\<lambda>w. deleteWindow m (w_uid w) False) ?ws s = (e, t)" by fastforce
  have "distinct (map w_uid ?ws)" "w_uid ` set ?ws \<subseteq> uidsAt ?r KindWindow"
    using W by (auto simp: wf_def identity_def allUids_def WindowsOf_def uidsAt_simps distinct_map_filter)
  note d = deleteWindows_cascade [OF W this one]
  let ?t = "\<lambda>now. (releaseNames u ((ms_reg t)\<lparr>r_projects := delFirst (\<lambda>p. p_uid p = u) (r_projects (ms_reg t))\<rparr>))\<lparr>r_updated := now\<rparr>"
  have "andThen (forEach (\<lambda>w. deleteWindow m (w_uid w) False) ?ws) (\<lambda>_.
      andThen (modReg (\<lambda>r. releaseNames u (r\<lparr>r_projects := delFirst (\<lambda>p. p_uid p = u) (r_projects r)\<rparr>))) (\<lambda>_. stamp m)) s
      = (res, s')" using run p by (simp add: DeleteProject_def getReg_run)
  moreover obtain now w where now: "Now m (ms_world t) = (now, w)" by fastforce
  ultimately have "res = Inr () \<and> ms_reg s' = ?t now"
    using one d by (auto simp: andThen_def modReg_def stamp_def clock_def)
  then have res: "res = Inr () \<and> (\<exists>now. ms_reg s' = ?t now)" by blast
  have wf': "wf (ms_reg s')"
    using keepsD [OF wf_DeleteProject [of m u], of s] W run by (simp add: wfOK_def)
  have I: "identity (ms_reg t)" using d by (simp add: wf_def)
  have "idents (?t now) = (idents (ms_reg t))(KindProject := filter (\<lambda>i. iuid i \<noteq> u) (idents (ms_reg t) KindProject))" for now
    using sameIdents_updated [unfolded sameIdents_def] deleteRow_idents [OF I] by (simp add: releaseNames_view del: idents.simps)
  then have "idents (ms_reg s') = (idents (ms_reg t))(KindProject := filter (\<lambda>i. iuid i \<noteq> u) (idents (ms_reg t) KindProject))"
    using res by auto
  moreover have "idents (ms_reg t) KindProject = idents ?r KindProject" using d by (simp add: cascade_def del: idents.simps)
  ultimately show ?thesis using d res wf' by simp
qed

section \<open>Properties\<close>


definition demoAgentOptions :: create_agent_options where
  "demoAgentOptions = \<lparr>ca_name = ''a'', ca_provider = ''codex'', ca_labels = fmempty, ca_annotations = fmempty,
     ca_workspace = \<lparr>wk_cwd = ''/a'', wk_roots = []\<rparr>, ca_activation = ActivationUnset, ca_operation = ''op''\<rparr>"

text \<open>A Project with one Window, in which an Agent was created and attached.\<close>

definition demoCreated :: "nat mstate" where
  "demoCreated = snd (CreateAgent (demoMutator 9) ''uu'' demoAgentOptions demoRegistered)"

definition demoAttached :: "nat mstate" where
  "demoAttached = snd (AttachAgentPane (demoMutator 9) ''uuuu'' demoPane ''op'' demoCreated)"

lemma demo_steps:
  "lifeReachable (demoMutator 9) demoState demoAttached"
  "lifeReachable (demoMutator 9) demoState (snd (DeleteProject (demoMutator 9) ''u'' demoAttached))"
proof -
  have r: "lifeReachable (demoMutator 9) demoState demoRegistered"
    unfolding demoRegistered_def by (rule lifeReachable.step [OF lifeReachable.start]) (intro lifeStep.intros regStep.intros)
  show a: "lifeReachable (demoMutator 9) demoState demoAttached"
    unfolding demoAttached_def demoCreated_def
    by (rule lifeReachable.step [OF lifeReachable.step [OF r lifeStep.create_agent] lifeStep.attach_agent])
  show "lifeReachable (demoMutator 9) demoState (snd (DeleteProject (demoMutator 9) ''u'' demoAttached))"
    by (rule lifeReachable.step [OF a lifeStep.delete_project])
qed

lemma demo_wf: "wf (ms_reg demoState)"
proof -
  have "idents NewRegistry k = []" for k by (cases k) (simp_all add: NewRegistry_def)
  then show ?thesis using demoState_identity by (simp add: wf_def exactRefs_def demoState_def)
qed




text \<open>C8: Deleting a Project that exists always succeeds, and takes exactly what hangs under it: its row, its
  Windows, the Agents those Windows own and the Panes that either owns. Every other Project, control session,
  Window, Agent and Pane keeps its row's uid, name and owner and its place in the order, and the Registry
  stays valid, so nothing is left whose owner is gone and no reservation of a deleted resource survives.\<close>

theorem delete_project_takes_exactly_its_tree:
  assumes "wf (ms_reg s)" and "lookupProject (ms_reg s) u \<noteq> None" and "DeleteProject m u s = (res, s')"
  shows "res = Inr () \<and> wf (ms_reg s') \<and> idents (ms_reg s')
    = (cascade (w_uid ` set (WindowsOf (ms_reg s) u)) (idents (ms_reg s)))
        (KindProject := filter (\<lambda>i. iuid i \<noteq> u) (idents (ms_reg s) KindProject))"
  using assms by (rule DeleteProject_run)

theorem delete_project_takes_exactly_its_tree_witness:
  "map pn_uid (r_panes (ms_reg demoAttached)) = [''uuu'', ''uuuuu'']
   \<and> fst (DeleteProject (demoMutator 9) ''u'' demoAttached) = Inr ()
   \<and> idents (ms_reg (snd (DeleteProject (demoMutator 9) ''u'' demoAttached))) KindWindow = []
   \<and> idents (ms_reg (snd (DeleteProject (demoMutator 9) ''u'' demoAttached))) KindPane = []"
proof -
  let ?r = "ms_reg demoAttached" and ?t = "DeleteProject (demoMutator 9) ''u'' demoAttached"
  have W: "wf ?r" by (rule lifeReachable_wf [OF demo_steps(1) exactMint_demo demo_wf])
  have p: "lookupProject ?r ''u'' \<noteq> None" by code_simp
  note d = delete_project_takes_exactly_its_tree [OF W p surjective_pairing [of ?t]]
  have "map w_uid (WindowsOf ?r ''u'') = [''uu'']" by code_simp
  from arg_cong [OF this, of set] have ws: "w_uid ` set (WindowsOf ?r ''u'') = {''uu''}" by simp
  have "map (\<lambda>i. (iuid i, iowner i)) (idents ?r KindWindow) = [(''uu'', ''u'')]"
    "map (\<lambda>i. (iuid i, iowner i)) (idents ?r KindAgent) = [(''uuuu'', ''uu'')]"
    "map (\<lambda>i. (iuid i, iowner i)) (idents ?r KindPane) = [(''uuu'', ''uu''), (''uuuuu'', ''uuuu'')]" by code_simp+
  then obtain nw na n1 n2 where l: "idents ?r KindWindow = [(''uu'', nw, ''u'')]" "idents ?r KindAgent = [(''uuuu'', na, ''uu'')]"
    "idents ?r KindPane = [(''uuu'', n1, ''uu''), (''uuuuu'', n2, ''uuuu'')]"
    by (auto simp: map_eq_Cons_conv simp del: idents.simps)
  then have own: "ownedAgents {''uu''} (idents ?r) = {''uuuu''}" by (auto simp: ownedAgents_def image_iff simp del: idents.simps)
  have e: "idents (ms_reg (snd ?t)) = (cascade {''uu''} (idents ?r))
      (KindProject := filter (\<lambda>i. iuid i \<noteq> ''u'') (idents ?r KindProject))" using d unfolding ws by blast
  show ?thesis
  proof (intro conjI)
    show "map pn_uid (r_panes ?r) = [''uuu'', ''uuuuu'']" by code_simp
    show "fst ?t = Inr ()" using d by blast
    show "idents (ms_reg (snd ?t)) KindWindow = []" "idents (ms_reg (snd ?t)) KindPane = []"
      unfolding e by (simp_all add: cascade_def own l del: idents.simps)
  qed
qed

end
