(* ===== verification/Process_Steps.thy ===== *)
theory Process_Steps
  imports Process_Runtime Agent_Steps
begin

text \<open>
  The writers of the process runtime, seen from outside. A writer settles: it leaves the Registry as it was, or
  it succeeds and commits one that \<open>Validate\<close> accepts and in which no live child of a Pane was replaced by
  another. The same composition rules carry both facts through all nine writers, and through the clones some of
  them run on.
\<close>

section \<open>What a commit checks\<close>

lemma lookups_updated [simp]:
  "lookupProject (r\<lparr>r_updated := t\<rparr>) = lookupProject r" "lookupControlSession (r\<lparr>r_updated := t\<rparr>) = lookupControlSession r"
  "lookupWindow (r\<lparr>r_updated := t\<rparr>) = lookupWindow r" "lookupPane (r\<lparr>r_updated := t\<rparr>) = lookupPane r"
  "lookupAgent (r\<lparr>r_updated := t\<rparr>) = lookupAgent r"
  by (rule ext, simp add: lookupProject_def lookupControlSession_def lookupWindow_def lookupPane_def lookupAgent_def)+

lemma owners_updated [simp]:
  "requireOwner (r\<lparr>r_updated := t\<rparr>) x ks = requireOwner r x ks" "paneWindowOwnerUID (r\<lparr>r_updated := t\<rparr>) p = paneWindowOwnerUID r p"
  "validProcessBinding (r\<lparr>r_updated := t\<rparr>) p b = validProcessBinding r p b" "paneRefCheck (r\<lparr>r_updated := t\<rparr>) a = paneRefCheck r a"
  "progressTurnInvalid (r\<lparr>r_updated := t\<rparr>) a = progressTurnInvalid r a"
  "claudeBindingInvalid (r\<lparr>r_updated := t\<rparr>) p cb = claudeBindingInvalid r p cb"
  "rootScope (r\<lparr>r_updated := t\<rparr>) u = rootScope r u" "agentScope (r\<lparr>r_updated := t\<rparr>) u = agentScope r u"
  "paneScope (r\<lparr>r_updated := t\<rparr>) u = paneScope r u"
  by (unfold requireOwner_def paneWindowOwnerUID_def validProcessBinding_def paneRefCheck_def
      progressTurnInvalid_def claudeBindingInvalid_def paneScope_def agentScope_def rootScope_def lookups_updated) (rule refl)+

lemma pane_checks_updated [simp]:
  "windowAnchorEligibility (r\<lparr>r_updated := t\<rparr>) u p = windowAnchorEligibility r u p"
  "validatePaneTeardown (r\<lparr>r_updated := t\<rparr>) p = validatePaneTeardown r p"
  "validatePaneRuntime (r\<lparr>r_updated := t\<rparr>) p = validatePaneRuntime r p"
  by (unfold windowAnchorEligibility_def validatePaneTeardown_def validatePaneRuntime_def processHistoryInvalid_def
      processActivationInvalid_def validateProcessSession_def owners_updated lookups_updated) (rule refl)+

lemma WindowsOf_updated [simp]: "WindowsOf (r\<lparr>r_updated := t\<rparr>) u = WindowsOf r u"
  by (simp add: WindowsOf_def)

lemma checks_updated [simp]:
  "validateWindow (r\<lparr>r_updated := t\<rparr>) = validateWindow r" "validatePane (r\<lparr>r_updated := t\<rparr>) = validatePane r"
  "validateAgent (r\<lparr>r_updated := t\<rparr>) = validateAgent r" "validateWindowRefs (r\<lparr>r_updated := t\<rparr>) = validateWindowRefs r"
  "validateProjectRefs (r\<lparr>r_updated := t\<rparr>) = validateProjectRefs r"
  by (rule ext, (unfold validateWindow_def validatePane_def validateAgent_def validateWindowRefs_def validateProjectRefs_def
      owners_updated pane_checks_updated lookups_updated WindowsOf_updated)?, rule refl)+

lemma scope_updated [simp]: "scopeFor (r\<lparr>r_updated := t\<rparr>) k u = scopeFor r k u"
  by (cases k) simp_all

lemma Validate_updated [simp]: "Validate (r\<lparr>r_updated := t\<rparr>) = Validate r"
  by (simp add: Validate_def claimAll_def validateReservations_def requireReservation_def)

section \<open>Live children\<close>

definition activationOf :: "registry \<Rightarrow> string \<Rightarrow> pane_activation option" where
  "activationOf r u = map_option (\<lambda>p. pnst_activation (pn_status p)) (lookupPane r u)"

definition childKept :: "pane_activation option \<Rightarrow> pane_activation option \<Rightarrow> bool" where
  "childKept before after = (case (before, after) of
     (Some a, Some b) \<Rightarrow> activationIsZero a \<or> activationIsZero b \<or> act_process b = act_process a
   | (None, None) \<Rightarrow> True
   | _ \<Rightarrow> False)"

definition childrenKept :: "registry \<Rightarrow> registry \<Rightarrow> bool" where
  "childrenKept r r' \<longleftrightarrow> (\<forall>u. childKept (activationOf r u) (activationOf r' u))"

lemma childKept_refl [simp]: "childKept x x"
  by (simp add: childKept_def split: option.split)

lemma childrenKept_refl [simp]: "childrenKept r r"
  by (simp add: childrenKept_def)

lemma childrenKept_same: "activationOf r' = activationOf r \<Longrightarrow> childrenKept q r \<Longrightarrow> childrenKept q r'"
  by (simp add: childrenKept_def)

lemma lookupPane_updPane:
  assumes "\<And>p. pn_uid (f p) = pn_uid p"
  shows "lookupPane (updPane u f r) v = (if u = v then map_option f (lookupPane r v) else lookupPane r v)"
proof -
  have "find (\<lambda>p. pn_uid p = v) (updFirst (\<lambda>p. pn_uid p = u) f ps)
      = (if u = v then map_option f (find (\<lambda>p. pn_uid p = v) ps) else find (\<lambda>p. pn_uid p = v) ps)" for ps
    by (induction ps) (auto simp: assms)
  then show ?thesis by (simp add: lookupPane_def updPane_def)
qed

lemma lookupAgent_updAgent:
  assumes "\<And>a. a_uid (f a) = a_uid a"
  shows "lookupAgent (updAgent u f r) v = (if u = v then map_option f (lookupAgent r v) else lookupAgent r v)"
proof -
  have "find (\<lambda>a. a_uid a = v) (updFirst (\<lambda>a. a_uid a = u) f xs)
      = (if u = v then map_option f (find (\<lambda>a. a_uid a = v) xs) else find (\<lambda>a. a_uid a = v) xs)" for xs
    by (induction xs) (auto simp: assms)
  then show ?thesis by (simp add: lookupAgent_def updAgent_def)
qed

lemma lookup_other [simp]:
  "lookupPane (updAgent u f r) = lookupPane r" "lookupPane (updWindow u g r) = lookupPane r"
  "lookupAgent (updPane u h r) = lookupAgent r"
  by (rule ext, simp add: lookup_defs upd_defs)+

lemma row_uids [simp]:
  "pn_uid (setActivation act p) = pn_uid p" "pn_uid (setSession s p) = pn_uid p" "pn_uid (markResumable p) = pn_uid p"
  "a_uid (setPhase ph a) = a_uid a" "pn_uid (paneStored rc p) = pn_uid p"
  by (simp_all add: setActivation_def setSession_def markResumable_def setPhase_def paneStored_def clearClaudeRegistration_def
      split: option.split)

lemma activationOf_updated [simp]: "activationOf (r\<lparr>r_updated := t\<rparr>) = activationOf r"
  by (rule ext) (simp add: activationOf_def)

lemma activationOf_updAgent [simp]: "activationOf (updAgent u f r) = activationOf r"
  by (rule ext) (simp add: activationOf_def)

lemma activationOf_pane:
  assumes "\<And>p. pn_uid (f p) = pn_uid p" "\<And>p. pnst_activation (pn_status (f p)) = g (pnst_activation (pn_status p))"
  shows "activationOf (updPane u f r) = (activationOf r)(u := map_option g (activationOf r u))"
  using assms(1) by (auto simp: activationOf_def lookupPane_updPane option.map_comp comp_def assms(2))

lemma activationOf_same:
  assumes "\<And>p. pn_uid (f p) = pn_uid p" "\<And>p. pnst_activation (pn_status (f p)) = pnst_activation (pn_status p)"
  shows "activationOf (updPane u f r) = activationOf r"
  using activationOf_pane [of f id] assms by (simp add: option.map_id)

lemma activationOf_rows [simp]:
  "activationOf (updPane u (setSession s) r) = activationOf r" "activationOf (updPane u markResumable r) = activationOf r"
  "activationOf (updPane u (setActivation act) r) = (activationOf r)(u := map_option (\<lambda>_. act) (activationOf r u))"
  by (rule activationOf_same activationOf_pane; simp add: setSession_def markResumable_def setActivation_def)+

lemma activationOf_setWindowAnchor [simp]: "activationOf (setWindowAnchor w p r) = activationOf r"
  by (rule ext) (simp add: activationOf_def lookupPane_def setWindowAnchor_def Let_def upd_defs split: option.split)

lemma childrenKept_zero:
  assumes "childrenKept q r" and "activationOf r' = (activationOf r)(u := map_option (\<lambda>_. emptyActivation) (activationOf r u))"
  shows "childrenKept q r'"
  unfolding childrenKept_def
proof
  fix v
  from assms(1) have "childKept (activationOf q v) (activationOf r v)" by (simp add: childrenKept_def)
  then show "childKept (activationOf q v) (activationOf r' v)"
    by (cases "activationOf q v"; cases "activationOf r v") (auto simp: assms(2) childKept_def)
qed

lemma childrenKept_retired: "childrenKept q r \<Longrightarrow> childrenKept q (retireActivation b r)"
  by (rule childrenKept_zero [where u = "pb_pane b"]) (simp_all add: retireActivation_def)

lemma childrenKept_birth:
  assumes "map_option activationIsZero (activationOf r u) \<noteq> Some False \<or> map_option act_process (activationOf r u) = Some (act_process act)"
    and "activationOf r' = (activationOf r)(u := map_option (\<lambda>_. act) (activationOf r u))"
  shows "childrenKept r r'"
  unfolding childrenKept_def
proof
  fix v
  show "childKept (activationOf r v) (activationOf r' v)"
    using assms(1) by (cases "v = u"; cases "activationOf r v") (auto simp: assms(2) childKept_def)
qed

lemma childrenKept_claude:
  assumes "\<And>p. pn_uid (f p) = pn_uid p" "\<And>p. act_process (pnst_activation (pn_status (f p))) = act_process (pnst_activation (pn_status p))"
    "\<And>p. activationIsZero (pnst_activation (pn_status p)) \<Longrightarrow> activationIsZero (pnst_activation (pn_status (f p)))"
    "childrenKept q r"
  shows "childrenKept q (updPane u f r)"
  unfolding childrenKept_def
proof
  fix v
  from assms(4) have "childKept (activationOf q v) (activationOf r v)" by (simp add: childrenKept_def)
  then show "childKept (activationOf q v) (activationOf (updPane u f r) v)"
    using assms(2,3) by (auto simp: activationOf_def lookupPane_updPane [OF assms(1)] childKept_def split: option.splits)
qed

lemma childrenKept_storeTermination: "childrenKept q r \<Longrightarrow> childrenKept q (storeTermination rc r)"
proof -
  assume k: "childrenKept q r"
  have "childrenKept q (updPane (t_pane rc) (paneStored rc) r)"
    by (rule childrenKept_claude [OF _ _ _ k]) (simp_all add: paneStored_def clearClaudeRegistration_def emptyActivation_def)
  then show ?thesis by (simp add: storeTermination_def childrenKept_def)
qed

section \<open>Writers that settle\<close>

definition keptFrom :: "registry \<Rightarrow> 'w mstate \<Rightarrow> bool" where
  "keptFrom r s \<longleftrightarrow> childrenKept r (ms_reg s)"

definition committed :: "registry \<Rightarrow> registry \<Rightarrow> bool" where
  "committed r r' \<longleftrightarrow> Validate r' = ok \<and> childrenKept r r'"

definition settles :: "registry \<Rightarrow> ('w mstate, 'a) comp \<Rightarrow> bool" where
  "settles r c \<longleftrightarrow> (\<forall>s. ms_reg s = r \<longrightarrow> ms_reg (snd (c s)) = r \<or> \<not> isl (fst (c s)) \<and> committed r (ms_reg (snd (c s))))"

named_theorems settle

lemma settles_pure [settle]: "settles r (throw e)" "settles r (return v)"
  by (simp_all add: settles_def comp_defs)

lemma settles_if [settle]: "(b \<Longrightarrow> settles r c) \<Longrightarrow> (\<not> b \<Longrightarrow> settles r d) \<Longrightarrow> settles r (if b then c else d)"
  by simp

lemma settles_option [settle]:
  "settles r c \<Longrightarrow> (\<And>v. x = Some v \<Longrightarrow> settles r (f v)) \<Longrightarrow> settles r (case x of None \<Rightarrow> c | Some v \<Rightarrow> f v)"
  by (cases x) simp_all

lemma settles_pair [settle]: "(\<And>v w. x = (v, w) \<Longrightarrow> settles r (f v w)) \<Longrightarrow> settles r (case x of (v, w) \<Rightarrow> f v w)"
  by (cases x) simp

lemma settles_getReg [settle]: "settles r (f r) \<Longrightarrow> settles r (andThen getReg f)"
  by (simp add: settles_def getReg_run)

lemma settles_check [settle]: "(\<And>v. e = Inr v \<Longrightarrow> settles r (f v)) \<Longrightarrow> settles r (andThen (liftE e) f)"
  by (cases e) (simp_all add: settles_def liftE_def comp_defs)

lemma settles_clock [settle]: "(\<And>now. settles r (f now)) \<Longrightarrow> settles r (andThen (clock m) f)"
  by (simp add: settles_def clock_def andThen_def split: prod.split)

lemma settles_commit: "childrenKept r r' \<Longrightarrow> settles r (commitProcessRegistry m r')"
  by (cases "Validate r'") (simp_all add: settles_def commitProcessRegistry_def liftE_def comp_defs clock_def modReg_def
      committed_def childrenKept_def ok_def split: prod.split)

lemma settles_run:
  assumes "\<And>s x s'. ms_reg s = r \<Longrightarrow> c s = (Inr x, s') \<Longrightarrow> settles r (f (x, ms_reg s'))"
  shows "settles r (andThen (onClone r c) f)"
  unfolding settles_def
proof (intro allI impI)
  fix s :: "'a mstate"
  assume s: "ms_reg s = r"
  obtain e s' where c: "c (s\<lparr>ms_reg := r\<rparr>) = (e, s')" by fastforce
  show "ms_reg (snd (andThen (onClone r c) f s)) = r \<or>
    \<not> isl (fst (andThen (onClone r c) f s)) \<and> committed r (ms_reg (snd (andThen (onClone r c) f s)))"
  proof (cases e)
    case (Inr x)
    from assms [of "s\<lparr>ms_reg := r\<rparr>" x s'] c Inr have "settles r (f (x, ms_reg s'))" by simp
    then show ?thesis using c s Inr by (simp add: settles_def andThen_def onClone_def)
  qed (use c s in \<open>simp add: andThen_def onClone_def\<close>)
qed

lemma settles_clone [settle]:
  assumes "keeps (keptFrom r) c" and "\<And>x r'. childrenKept r r' \<Longrightarrow> settles r (f (x, r'))"
  shows "settles r (andThen (onClone r c) f)"
proof (rule settles_run)
  fix s x s' assume s: "ms_reg s = r" and c: "c s = (Inr x, s')"
  from assms(1) s have "keptFrom r (snd (c s))" unfolding keeps_def by (simp add: keptFrom_def)
  with c show "settles r (f (x, ms_reg s'))" by (intro assms(2)) (simp add: keptFrom_def)
qed

section \<open>Every writer settles\<close>

lemma kept_env [preserve]: "keeps (keptFrom r) (clock m)" "keeps (keptFrom r) getReg"
  by (simp_all add: keeps_def keptFrom_def clock_def getReg_def split: prod.split)

lemma kept_modReg: "(\<And>r'. childrenKept r r' \<Longrightarrow> childrenKept r (f r')) \<Longrightarrow> keeps (keptFrom r) (modReg f)"
  by (simp add: keeps_def keptFrom_def modReg_def)

lemma kept_same: "(\<And>r'. activationOf (f r') = activationOf r') \<Longrightarrow> keeps (keptFrom r) (modReg f)"
  by (rule kept_modReg) (rule childrenKept_same)

lemma kept_RecordTermination: "keeps (keptFrom r) (RecordTermination m rc)"
  unfolding RecordTermination_def Let_def
  by (intro keeps_andThen keeps_liftE keeps_getReg keeps_option keeps_return kept_env kept_modReg)
    (auto intro: childrenKept_same [OF activationOf_updated] childrenKept_storeTermination)

lemma kept_recordVerbatim: "keeps (keptFrom r) (recordVerbatim m op b rc)"
  unfolding recordVerbatim_def
  by (intro keeps_andThen keeps_getReg keeps_if keeps_throw keeps_return kept_RecordTermination)

lemma kept_retireProcessWait: "keeps (keptFrom r) (retireProcessWait m b rc)"
  unfolding retireProcessWait_def
  by (intro keeps_andThen kept_recordVerbatim kept_modReg childrenKept_retired)

lemma kept_commit: "activationOf r' = activationOf q \<Longrightarrow> childrenKept r q \<Longrightarrow> keeps (keptFrom r) (commitProcessRegistry m r')"
  unfolding commitProcessRegistry_def
  by (intro keeps_andThen keeps_liftE kept_env kept_modReg) (simp add: childrenKept_def)

lemma kept_read: "(\<And>q. childrenKept r q \<Longrightarrow> keeps (keptFrom r) (f q)) \<Longrightarrow> keeps (keptFrom r) (andThen getReg f)"
  by (simp add: keeps_def keptFrom_def getReg_run)

lemma kept_RecordProcessResumable: "keeps (keptFrom r) (RecordProcessResumable m b receipt)"
  unfolding RecordProcessResumable_def Let_def
  by (intro kept_read keeps_andThen keeps_liftE keeps_prod keeps_option keeps_if keeps_throw keeps_return kept_commit) simp_all

lemma kept_promote: "keeps (keptFrom r) (promoteProcessWaitResume m b rc)"
  unfolding promoteProcessWaitResume_def
  by (intro kept_read keeps_option keeps_if keeps_return kept_RecordProcessResumable)

lemma kept_ReserveProcessResume: "keeps (keptFrom r) (ReserveProcessResume m previous b)"
  unfolding ReserveProcessResume_def Let_def
  by (intro kept_read keeps_andThen keeps_liftE keeps_prod keeps_option keeps_if keeps_throw keeps_return kept_commit) simp_all

lemma kept_RestoreProcessResume: "keeps (keptFrom r) (RestoreProcessResume m b previous)"
  unfolding RestoreProcessResume_def Let_def
  by (intro kept_read keeps_andThen keeps_liftE keeps_prod keeps_option keeps_if keeps_throw keeps_return kept_commit) simp_all

lemma settles_same: "activationOf r' = activationOf r \<Longrightarrow> settles r (commitProcessRegistry m r')"
  by (rule settles_commit) (simp add: childrenKept_def)

lemma settles_ReserveProcessBinding: "settles r (ReserveProcessBinding m b)"
  unfolding ReserveProcessBinding_def Let_def reserveProcess_def
  by (intro settle settles_same) (simp add: activationOf_same setSession_def)

lemma reservation_pane:
  "currentProcessReservation r b = Some (p, a) \<Longrightarrow> lookupPane r (pb_pane b) = Some p \<and> validProcessBinding r p b"
  by (auto simp: currentProcessReservation_def split: option.splits if_splits)

lemma settles_birth:
  assumes "lookupPane r u = Some p"
    and "activationIsZero (pnst_activation (pn_status p)) \<or> act_process (pnst_activation (pn_status p)) = act_process act"
    and "activationOf r' = (activationOf r)(u := map_option (\<lambda>_. act) (activationOf r u))"
  shows "settles r (commitProcessRegistry m r')"
  using assms(1,2) by (intro settles_commit childrenKept_birth [OF _ assms(3)]) (auto simp: activationOf_def)

lemma settles_RecordProcessChild: "settles r (RecordProcessChild m pa)"
  unfolding RecordProcessChild_def Let_def
  by (intro settle settles_birth [where u = "pb_pane (pa_binding pa)" and act = "bornActivation pa"])
    (auto dest: reservation_pane)

lemma settles_RecordProcessSession: "settles r (RecordProcessSession m pa record0)"
  unfolding RecordProcessSession_def Let_def
  by (intro settle settles_same) simp

lemma settles_RecordProcessActivation: "settles r (RecordProcessActivation m pa session)"
proof -
  let ?b = "pa_binding pa"
  let ?f = "\<lambda>prov p. setSession (map_option (\<lambda>s. (if prov = ''codex'' then s\<lparr>pss_thread := session\<rparr> else s\<lparr>pss_session := session\<rparr>)
                \<lparr>pss_connection := pb_operation ?b\<rparr>) (pnst_process (pn_status p))) (setActivation (bornActivation pa) p)"
  have born: "settles r (commitProcessRegistry m (updPane (pb_pane ?b) (?f prov) r))"
    if "lookupPane r (pb_pane ?b) = Some p" and "activationIsZero (pnst_activation (pn_status p))
      \<or> act_process (pnst_activation (pn_status p)) = Some pa" for p prov
    by (rule settles_birth [OF that(1), where act = "bornActivation pa"])
      (use that(2) in \<open>auto simp: bornActivation_def intro!: activationOf_pane simp: setSession_def setActivation_def\<close>)
  show ?thesis
    unfolding RecordProcessActivation_def Let_def
    by (intro settle born) (auto dest: reservation_pane)
qed

lemma settles_RecordProcessResumable: "settles r (RecordProcessResumable m b receipt)"
  unfolding RecordProcessResumable_def Let_def
  by (intro settle settles_same) simp

lemma settles_promote: "settles r (promoteProcessWaitResume m b rc)"
  unfolding promoteProcessWaitResume_def
  by (intro settle settles_RecordProcessResumable)

lemma settles_RecordProcessWait: "settles r (RecordProcessWait m pa rc)"
  unfolding RecordProcessWait_def Let_def
  by (rule settles_if settles_pure settles_getReg settles_check settles_option settles_pair settles_clone settles_promote
      keeps_andThen kept_retireProcessWait kept_promote | simp add: settles_commit)+

lemma settles_ReserveProcessResume: "settles r (ReserveProcessResume m previous b)"
  unfolding ReserveProcessResume_def Let_def
  by (intro settle settles_same) simp

lemma settles_RestoreProcessResume: "settles r (RestoreProcessResume m b previous)"
  unfolding RestoreProcessResume_def Let_def
  by (intro settle settles_same) simp

lemma settles_ReserveProcessHostLostResume: "settles r (ReserveProcessHostLostResume m pa b)"
  unfolding ReserveProcessHostLostResume_def Let_def
  by (intro settles_getReg settles_check settles_option settles_pure settles_clock settles_clone settles_pair settles_commit
      keeps_andThen kept_recordVerbatim kept_ReserveProcessResume kept_modReg childrenKept_same [OF activationOf_same]
      childrenKept_retired) (simp_all add: setSession_def markResumable_def)

lemma settles_MarkProcessHostLostOffline: "settles r (MarkProcessHostLostOffline m pa)"
  unfolding MarkProcessHostLostOffline_def Let_def
  by (intro settles_getReg settles_check settles_option settles_pure settles_clock settles_clone settles_pair settles_commit
      keeps_andThen kept_recordVerbatim kept_modReg childrenKept_same [OF activationOf_same]
      childrenKept_retired) (simp_all add: markResumable_def setSession_def)

lemma run_simps:
  "andThen (liftE e) f s = (Inr v, s') \<longleftrightarrow> (\<exists>x. e = Inr x \<and> f x s = (Inr v, s'))"
  "throw err s = (Inr v, s') \<longleftrightarrow> False" "return y s = (Inr v, s') \<longleftrightarrow> v = y \<and> s' = s"
  by (auto simp: liftE_def comp_defs split: sum.split)

lemma run_commit:
  "commitProcessRegistry m r' s = (Inr v, s') \<Longrightarrow> Validate r' = ok \<and> (\<exists>now. ms_reg s' = r'\<lparr>r_updated := now\<rparr>)"
proof -
  assume c: "commitProcessRegistry m r' s = (Inr v, s')"
  obtain now w where n: "Now m (ms_world s) = (now, w)" by fastforce
  from c have "Validate r' = ok" "ms_reg s' = r'\<lparr>r_updated := now\<rparr>"
    by (auto simp: commitProcessRegistry_def run_simps ok_def) (auto simp: clock_def andThen_def modReg_def n)
  then show ?thesis by blast
qed

lemma RestoreProcessResume_success:
  assumes "RestoreProcessResume m b previous s = (Inr v, s')" and "ms_reg s = r"
  obtains p where "lookupPane r (pb_pane b) = Some p" "activationIsZero (pnst_activation (pn_status p))"
    "pb_pane (pss_binding previous) = pb_pane b" "activationOf (ms_reg s') = activationOf r"
proof -
  from assms obtain p a where r: "currentProcessReservation r b = Some (p, a)" and z: "activationIsZero (pnst_activation (pn_status p))"
    and v: "validProcessBinding r p (pss_binding previous)"
    and c: "commitProcessRegistry m (updAgent (pb_agent b) (setPhase PhaseOffline) (updPane (pb_pane b) (setSession (Some previous)) r)) s
      = (Inr v, s')"
    unfolding RestoreProcessResume_def Let_def getReg_run run_simps
    by (auto simp: run_simps split: option.splits if_splits)
  from reservation_pane [OF r] have p: "lookupPane r (pb_pane b) = Some p" by simp
  have "pn_uid p = pb_pane b" using p lookup_Some(4) by fastforce
  moreover have "pn_uid p = pb_pane (pss_binding previous)" using v by (auto simp: validProcessBinding_def split: option.splits)
  moreover have "activationOf (ms_reg s') = activationOf r"
    using run_commit [OF c] by auto
  ultimately show ?thesis using p z that by simp
qed

lemma settles_RestoreProcessHostLostResume: "settles r (RestoreProcessHostLostResume m b previous pa)"
  unfolding RestoreProcessHostLostResume_def
proof (intro settles_if settles_pure settles_getReg settles_run)
  fix s :: "'a mstate" and x s'
  let ?P = "pb_pane (pss_binding previous)"
  assume s: "ms_reg s = r"
    and ok: "RestoreProcessResume m b (previous\<lparr>pss_resume := ProcessResumable, pss_history := None\<rparr>) s = (Inr x, s')"
  from RestoreProcessResume_success [OF ok s] obtain p where q: "lookupPane r (pb_pane b) = Some p"
    and p2: "activationIsZero (pnst_activation (pn_status p))"
    and b: "pb_pane (pss_binding (previous\<lparr>pss_resume := ProcessResumable, pss_history := None\<rparr>)) = pb_pane b"
    and p3: "activationOf (ms_reg s') = activationOf r" .
  have "?P = pb_pane b" using b by simp
  then have p1: "lookupPane r ?P = Some p" using q by simp
  have "settles r (commitProcessRegistry m (updAgent (pb_agent (pss_binding previous)) (setPhase PhaseRunning)
      (updPane ?P (\<lambda>p. setActivation (bornActivation pa) (setSession (Some previous) p)) (ms_reg s'))))"
  proof (rule settles_birth [OF p1, where act = "bornActivation pa"])
    have "activationOf (updPane ?P (\<lambda>p. setActivation (bornActivation pa) (setSession (Some previous) p)) (ms_reg s'))
      = (activationOf (ms_reg s'))(?P := map_option (\<lambda>_. bornActivation pa) (activationOf (ms_reg s') ?P))"
      by (rule activationOf_pane) (simp_all add: setActivation_def setSession_def)
    then show "activationOf (updAgent (pb_agent (pss_binding previous)) (setPhase PhaseRunning)
        (updPane ?P (\<lambda>p. setActivation (bornActivation pa) (setSession (Some previous) p)) (ms_reg s')))
      = (activationOf r)(?P := map_option (\<lambda>_. bornActivation pa) (activationOf r ?P))"
      by (simp only: activationOf_updAgent p3)
  qed (use p2 in simp)
  then show "settles r (case (x, ms_reg s') of (_, next') \<Rightarrow>
      commitProcessRegistry m (updAgent (pb_agent (pss_binding previous)) (setPhase PhaseRunning)
        (updPane ?P (\<lambda>p. setActivation (bornActivation pa) (setSession (Some previous) p)) next')))" by simp
qed

section \<open>Calls and runs\<close>

datatype process_call =
    ReserveBinding process_binding
  | RecordChild process_activation
  | RecordSession process_activation process_session
  | RecordActivation process_activation string
  | RecordWait process_activation termination_record
  | RecordResumable process_binding "termination_record option"
  | ReserveResume process_binding process_binding
  | RestoreResume process_binding process_session
  | ReserveHostLost process_activation process_binding
  | RestoreHostLost process_binding process_session process_activation
  | MarkHostLost process_activation

fun runCall :: "'w mutator \<Rightarrow> process_call \<Rightarrow> ('w mstate, unit) comp" where
  "runCall m (ReserveBinding b) = ReserveProcessBinding m b"
| "runCall m (RecordChild pa) = RecordProcessChild m pa"
| "runCall m (RecordSession pa s) = RecordProcessSession m pa s"
| "runCall m (RecordActivation pa x) = RecordProcessActivation m pa x"
| "runCall m (RecordWait pa rc) = RecordProcessWait m pa rc"
| "runCall m (RecordResumable b rc) = RecordProcessResumable m b rc"
| "runCall m (ReserveResume p b) = ReserveProcessResume m p b"
| "runCall m (RestoreResume b s) = RestoreProcessResume m b s"
| "runCall m (ReserveHostLost pa b) = ReserveProcessHostLostResume m pa b"
| "runCall m (RestoreHostLost b s pa) = RestoreProcessHostLostResume m b s pa"
| "runCall m (MarkHostLost pa) = MarkProcessHostLostOffline m pa"

fun runCalls :: "'w mutator \<Rightarrow> process_call list \<Rightarrow> 'w mstate \<Rightarrow> 'w mstate" where
  "runCalls m [] s = s"
| "runCalls m (c # cs) s = runCalls m cs (snd (runCall m c s))"

lemma runCall_settles: "settles r (runCall m c)"
  by (cases c) (simp_all add: settles_ReserveProcessBinding settles_RecordProcessChild settles_RecordProcessSession
      settles_RecordProcessActivation settles_RecordProcessWait settles_RecordProcessResumable settles_ReserveProcessResume
      settles_RestoreProcessResume settles_ReserveProcessHostLostResume settles_RestoreProcessHostLostResume
      settles_MarkProcessHostLostOffline)

lemma runCall_outcome:
  "ms_reg (snd (runCall m c s)) = ms_reg s
   \<or> \<not> isl (fst (runCall m c s)) \<and> committed (ms_reg s) (ms_reg (snd (runCall m c s)))"
  using runCall_settles [of "ms_reg s" m c] by (simp add: settles_def)

lemma runCalls_append: "runCalls m (cs @ ds) s = runCalls m ds (runCalls m cs s)"
  by (induction cs arbitrary: s) simp_all

lemma runCall_child: "childrenKept (ms_reg s) (ms_reg (snd (runCall m c s)))"
  using runCall_outcome [of m c s] by (auto simp: committed_def)

section \<open>Undoing a resume reservation\<close>

lemma updFirst_undo:
  "find p xs = Some x \<Longrightarrow> p (g x) \<Longrightarrow> f (g x) = x \<Longrightarrow> updFirst p f (updFirst p g xs) = xs"
  by (induction xs) (auto split: if_splits)

lemma updPane_undo:
  "lookupPane r u = Some p \<Longrightarrow> pn_uid (g p) = pn_uid p \<Longrightarrow> f (g p) = p \<Longrightarrow> updPane u f (updPane u g r) = r"
  using lookup_Some(4) [of r u p] by (simp add: lookupPane_def updPane_def updFirst_undo)

lemma updAgent_undo:
  "lookupAgent r u = Some a \<Longrightarrow> a_uid (g a) = a_uid a \<Longrightarrow> f (g a) = a \<Longrightarrow> updAgent u f (updAgent u g r) = r"
  using lookup_Some(5) [of r u a] by (simp add: lookupAgent_def updAgent_def updFirst_undo)

lemma upd_updated: "updPane u f (r\<lparr>r_updated := t\<rparr>) = (updPane u f r)\<lparr>r_updated := t\<rparr>"
  "updAgent u g (r\<lparr>r_updated := t\<rparr>) = (updAgent u g r)\<lparr>r_updated := t\<rparr>"
  by (simp_all add: upd_defs)

lemma upd_commute: "updPane u f (updAgent v g r) = updAgent v g (updPane u f r)"
  by (simp add: upd_defs)

lemma reserve_fields [simp]:
  "pn_meta (setSession s p) = pn_meta p" "pn_spec (setSession s p) = pn_spec p"
  "pnst_activation (pn_status (setSession s p)) = pnst_activation (pn_status p)" "pnst_process (pn_status (setSession s p)) = s"
  "a_meta (setPhase ph a) = a_meta a" "a_spec (setPhase ph a) = a_spec a" "ast_pane (a_status (setPhase ph a)) = ast_pane (a_status a)"
  "ast_phase (a_status (setPhase ph a)) = ph"
  by (simp_all add: setSession_def setPhase_def)

lemma binding_after_reserve:
  "validProcessBinding (updAgent u (setPhase ph) (updPane v (setSession x) r)) (setSession y p) b = validProcessBinding r p b"
  by (cases "lookupAgent r (pb_agent b)")
    (simp_all add: validProcessBinding_def lookupAgent_updAgent,
     simp_all add: lookup_defs upd_defs)

text \<open>What \<open>Validate\<close> says of a Pane with a process session, as far as \<open>currentProcessReservation\<close> needs it.\<close>

lemma requireOwner_ok': "requireOwner r meta [k] = ok \<Longrightarrow> map_option or_kind (om_owner meta) = Some k"
  by (auto elim: requireOwner_ok)

lemma validatePane_parts:
  assumes "validatePane r p = ok" and "pns_role (pn_spec p) = PaneRoleAgent"
  shows "requireOwner r (pn_meta p) [KindAgent] = ok \<and> validatePaneRuntime r p = ok"
  using assms(1) unfolding validatePane_def Let_def allChecks.simps thenCheck_ok assms(2) pane_role.case by blast

lemma validateAgent_owner: "validateAgent r a = ok \<Longrightarrow> requireOwner r (a_meta a) [KindWindow] = ok"
  unfolding validateAgent_def Let_def allChecks.simps thenCheck_ok by blast

lemma Validate_owner:
  assumes v: "Validate r = ok" and p: "lookupPane r (pb_pane b) = Some p" and a: "lookupAgent r (pb_agent b) = Some a"
    and b: "validProcessBinding r p b" and k: "EffectiveKind (pns_runtime (pn_spec p)) = RuntimeProcess"
    and s: "pnst_process (pn_status p) = Some s" and ref: "ast_pane (a_status a) = pb_pane b"
  shows "currentProcessReservation r b = Some (p, a)"
proof -
  obtain us where us: "claimAll r = Inr us" by (rule Validate_parts [OF v])
  have pin: "p \<in> set (r_panes r)" and ain: "a \<in> set (r_agents r)" using lookup_Some(4) [OF p] lookup_Some(5) [OF a] by simp_all
  note vp = claimAll_resources(2) [OF us pin] and va = claimAll_resources(3) [OF us ain]
  have role: "pns_role (pn_spec p) = PaneRoleAgent" "OwnerUID (pn_meta p) = pb_agent b"
    using b a by (simp_all add: validProcessBinding_def)
  have po: "requireOwner r (pn_meta p) [KindAgent] = ok" and rt: "validatePaneRuntime r p = ok"
    using validatePane_parts [OF vp role(1)] by simp_all
  note ao = validateAgent_owner [OF va]
  have "validateProcessSession r p = ok" using rt k by (simp add: validatePaneRuntime_def Let_def)
  then have "\<not> ((pss_provider s \<noteq> ''claude'' \<and> pss_provider s \<noteq> ''codex'') \<or> as_provider (a_spec a) \<noteq> pss_provider s)"
    using s a role(2) by (simp add: validateProcessSession_def Let_def)
  then have "as_provider (a_spec a) = ''claude'' \<or> as_provider (a_spec a) = ''codex''" by auto
  then have "currentProcessOwner p a b"
    using ref requireOwner_ok' [OF po] requireOwner_ok' [OF ao] by (simp add: currentProcessOwner_def)
  then show ?thesis using p a b k by (simp add: currentProcessReservation_def)
qed

lemma ReserveProcessResume_success:
  assumes "ReserveProcessResume m previous b s = (Inr v, s')"
  obtains p a x now where "Validate (ms_reg s) = ok" "lookupPane (ms_reg s) (pb_pane b) = Some p"
    "lookupAgent (ms_reg s) (pb_agent b) = Some a" "validProcessBinding (ms_reg s) p previous" "validProcessBinding (ms_reg s) p b"
    "freshGeneration previous b" "pnst_process (pn_status p) = Some x" "EffectiveKind (pns_runtime (pn_spec p)) = RuntimeProcess"
    "ast_phase (a_status a) = PhaseOffline" "ast_pane (a_status a) = pb_pane b" "activationIsZero (pnst_activation (pn_status p))"
    "pss_binding x = previous" "pss_resume x = ProcessResumable" "Validate (ms_reg s') = ok"
    "ms_reg s' = (updAgent (pb_agent b) (setPhase PhasePending)
       (updPane (pb_pane b) (setSession (Some (processResumeReservation x b))) (ms_reg s)))\<lparr>r_updated := now\<rparr>"
proof -
  from assms obtain p a x where g: "Validate (ms_reg s) = ok" "lookupPane (ms_reg s) (pb_pane previous) = Some p"
    "lookupAgent (ms_reg s) (pb_agent previous) = Some a" "validProcessBinding (ms_reg s) p previous"
    "validProcessBinding (ms_reg s) p b" "freshGeneration previous b" "pnst_process (pn_status p) = Some x"
    "EffectiveKind (pns_runtime (pn_spec p)) = RuntimeProcess" "ast_phase (a_status a) = PhaseOffline"
    "ast_pane (a_status a) = pn_uid p" "activationIsZero (pnst_activation (pn_status p))"
    "pss_binding x = previous" "pss_resume x = ProcessResumable"
    and c: "commitProcessRegistry m (updAgent (pb_agent b) (setPhase PhasePending)
       (updPane (pb_pane b) (setSession (Some (processResumeReservation x b))) (ms_reg s))) s = (Inr v, s')"
    unfolding ReserveProcessResume_def Let_def getReg_run run_simps
    by (auto simp: run_simps ok_def simp del: activationIsZero_iff split: option.splits if_splits)
  from g(6) have e: "pb_pane previous = pb_pane b" "pb_agent previous = pb_agent b" by (simp_all add: freshGeneration_def)
  have u: "pn_uid p = pb_pane b" using lookup_Some(4) [OF g(2)] e by simp
  from run_commit [OF c] obtain now where n: "Validate (updAgent (pb_agent b) (setPhase PhasePending)
       (updPane (pb_pane b) (setSession (Some (processResumeReservation x b))) (ms_reg s))) = ok"
    "ms_reg s' = (updAgent (pb_agent b) (setPhase PhasePending)
       (updPane (pb_pane b) (setSession (Some (processResumeReservation x b))) (ms_reg s)))\<lparr>r_updated := now\<rparr>" by blast
  then have "Validate (ms_reg s') = ok" by simp
  from g this n(2) show ?thesis unfolding e u by (rule that)
qed

lemma restore_after_reserve:
  assumes "ReserveProcessResume m previous b s = (Inr v, s1)"
    and "Option.bind (lookupPane (ms_reg s) (pb_pane b)) (\<lambda>p. pnst_process (pn_status p)) = Some x"
  shows "\<exists>s2 now. RestoreProcessResume m b x s1 = (Inr (), s2) \<and> ms_reg s2 = (ms_reg s)\<lparr>r_updated := now\<rparr>"
proof -
  let ?u = "pb_pane b" and ?w = "pb_agent b"
  let ?r = "updAgent ?w (setPhase PhasePending) (updPane ?u (setSession (Some (processResumeReservation x b))) (ms_reg s))"
  obtain p a y now where v: "Validate (ms_reg s) = ok"
    and p: "lookupPane (ms_reg s) ?u = Some p" and a: "lookupAgent (ms_reg s) ?w = Some a"
    and old: "validProcessBinding (ms_reg s) p previous" and new: "validProcessBinding (ms_reg s) p b"
    and fresh: "freshGeneration previous b" and y: "pnst_process (pn_status p) = Some y"
    and k: "EffectiveKind (pns_runtime (pn_spec p)) = RuntimeProcess" and off: "ast_phase (a_status a) = PhaseOffline"
    and ref: "ast_pane (a_status a) = ?u" and z: "activationIsZero (pnst_activation (pn_status p))"
    and "pss_binding y = previous" "pss_resume y = ProcessResumable" and v1: "Validate (ms_reg s1) = ok"
    and "ms_reg s1 = (updAgent ?w (setPhase PhasePending)
       (updPane ?u (setSession (Some (processResumeReservation y b))) (ms_reg s)))\<lparr>r_updated := now\<rparr>"
    by (rule ReserveProcessResume_success [OF assms(1)])
  moreover have "y = x" using assms(2) p y by simp
  ultimately have x: "pnst_process (pn_status p) = Some x" and bx: "pss_binding x = previous" "pss_resume x = ProcessResumable"
    and r1: "ms_reg s1 = ?r\<lparr>r_updated := now\<rparr>" by simp_all
  let ?p = "setSession (Some (processResumeReservation x b)) p" and ?a = "setPhase PhasePending a"
  have lp: "lookupPane (ms_reg s1) ?u = Some ?p" and la: "lookupAgent (ms_reg s1) ?w = Some ?a"
    using p a by (simp_all add: r1 lookupPane_updPane lookupAgent_updAgent)
  have vb: "validProcessBinding (ms_reg s1) ?p c = validProcessBinding (ms_reg s) p c" for c
    by (simp add: r1 binding_after_reserve)
  have cur: "currentProcessReservation (ms_reg s1) b = Some (?p, ?a)"
    by (rule Validate_owner [OF v1 lp la]) (use new k ref in \<open>simp_all add: vb\<close>)
  have neq: "previous \<noteq> b" using fresh by (auto simp: freshGeneration_def)
  have undo: "updAgent ?w (setPhase PhaseOffline) (updPane ?u (setSession (Some x)) (ms_reg s1)) = (ms_reg s)\<lparr>r_updated := now\<rparr>"
  proof -
    have "updPane ?u (setSession (Some x)) ?r
      = updAgent ?w (setPhase PhasePending) (updPane ?u (setSession (Some x))
          (updPane ?u (setSession (Some (processResumeReservation x b))) (ms_reg s)))" by (rule upd_commute)
    also have "updPane ?u (setSession (Some x)) (updPane ?u (setSession (Some (processResumeReservation x b))) (ms_reg s)) = ms_reg s"
      using p x by (intro updPane_undo [of _ _ p]) (simp_all add: setSession_def)
    finally have "updAgent ?w (setPhase PhaseOffline) (updPane ?u (setSession (Some x)) ?r)
      = updAgent ?w (setPhase PhaseOffline) (updAgent ?w (setPhase PhasePending) (ms_reg s))" by simp
    also have "\<dots> = ms_reg s" using a off by (intro updAgent_undo [of _ _ a]) (simp_all add: setPhase_def)
    finally show ?thesis by (simp add: r1 upd_updated)
  qed
  have "RestoreProcessResume m b x s1 = commitProcessRegistry m ((ms_reg s)\<lparr>r_updated := now\<rparr>) s1"
    unfolding RestoreProcessResume_def Let_def getReg_run
    using v1 z bx neq old by (simp add: liftE_def ok_def comp_defs cur vb undo del: activationIsZero_iff)
  also obtain now' w where "Now m (ms_world s1) = (now', w)" by fastforce
  then have "commitProcessRegistry m ((ms_reg s)\<lparr>r_updated := now\<rparr>) s1
      = (Inr (), s1\<lparr>ms_world := w, ms_reg := (ms_reg s)\<lparr>r_updated := now'\<rparr>\<rparr>)"
    using v by (simp add: commitProcessRegistry_def liftE_def ok_def comp_defs clock_def modReg_def)
  finally show ?thesis by (intro exI [of _ "s1\<lparr>ms_world := w, ms_reg := (ms_reg s)\<lparr>r_updated := now'\<rparr>\<rparr>"] exI [of _ now']) simp
qed

section \<open>A small run\<close>

definition demoName :: "string \<Rightarrow> kind \<Rightarrow> string \<Rightarrow> string \<Rightarrow> reservation" where
  "demoName scope k name uid = \<lparr>nr_scope = scope, nr_kind = k, nr_name = name, nr_uid = uid\<rparr>"

definition demoRegistry :: registry where
  "demoRegistry = NewRegistry\<lparr>
     r_projects := [(newProject ''u'' ''x'' ''/a'' 7 demoOptions)\<lparr>p_spec := \<lparr>ps_root = ''/a'', ps_primary = ''w''\<rparr>\<rparr>],
     r_windows := [(newWindow ''w'' ''y'' fmempty KindProject ''u'' 7)
       \<lparr>w_spec := \<lparr>ws_anchor = ''s'', ws_shell = ''s'', ws_shape = SourceTyped, ws_legacy = ''''\<rparr>\<rparr>],
     r_panes := [newPane ''s'' ''m'' fmempty KindWindow ''w'' 7 PaneRoleShell ''/a'' '''',
       newPane ''p'' ''n'' fmempty KindAgent ''a'' 7 PaneRoleAgent ''/a'' ''''],
     r_agents := [bindAgent ''p'' 7 (newAgent ''a'' ''z'' ''w'' 7 (demoAgentOptions\<lparr>ca_provider := ''claude''\<rparr>))],
     r_names := [demoName '''' KindProject ''x'' ''u'', demoName ''u'' KindWindow ''y'' ''w'', demoName ''u'' KindPane ''m'' ''s'',
       demoName ''u'' KindPane ''n'' ''p'', demoName ''u'' KindAgent ''z'' ''a'']\<rparr>"

definition demoClaude :: "nat mstate" where
  "demoClaude = demoState\<lparr>ms_reg := demoRegistry\<rparr>"

definition demoBinding :: "string \<Rightarrow> process_binding" where
  "demoBinding g = \<lparr>pb_host = ''h'' @ g, pb_project = ''u'', pb_window = ''w'', pb_agent = ''a'', pb_pane = ''p'',
     pb_generation = ''g'' @ g, pb_operation = ''o'' @ g\<rparr>"

definition demoChild :: process_activation where
  "demoChild = \<lparr>pa_binding = demoBinding ''1'', pa_host = \<lparr>pi_pid = 1, pi_owner = 0, pi_start = ''t''\<rparr>,
     pa_child = \<lparr>pi_pid = 2, pi_owner = 0, pi_start = ''t''\<rparr>\<rparr>"

text \<open>The same Registry with the child running, and with its Wait recorded.\<close>

definition demoSession :: process_session where
  "demoSession = \<lparr>pss_provider = ''claude'', pss_binding = demoBinding ''1'', pss_session = ''s'', pss_thread = '''',
     pss_connection = ''o1'', pss_turn = '''', pss_resume = ProcessResumable, pss_stop = False, pss_pending = [], pss_history = None\<rparr>"

definition demoProcessPane :: "process_session \<Rightarrow> pane \<Rightarrow> pane" where
  "demoProcessPane x p = setSession (Some x) (p\<lparr>pn_spec := (pn_spec p)\<lparr>pns_runtime := RuntimeProcess\<rparr>\<rparr>)"

definition demoLive :: "nat mstate" where
  "demoLive = demoState\<lparr>ms_reg := updPane ''p'' (\<lambda>p. setActivation (bornActivation demoChild)
     (demoProcessPane (demoSession\<lparr>pss_resume := ProcessResumeUnknown\<rparr>) p)) demoRegistry\<rparr>"

definition demoRetired :: "nat mstate" where
  "demoRetired = demoState\<lparr>ms_reg := updAgent ''a'' (setPhase PhaseOffline)
     (updPane ''p'' (demoProcessPane demoSession) demoRegistry)\<rparr>"

section \<open>Properties\<close>

text \<open>C4: The writers of the process runtime never leave a Registry that the next load would refuse. A call that
  fails leaves the Registry exactly as it was, and after any sequence of calls, failing ones included, a Registry
  that \<open>Validate\<close> accepted is still accepted: a writer that runs another writer on its clone commits the
  clone only after validating it.\<close>

theorem process_writers_keep_the_registry_valid:
  assumes "Validate (ms_reg s) = ok"
  shows "Validate (ms_reg (runCalls m cs s)) = ok
    \<and> (isl (fst (runCall m c s)) \<longrightarrow> ms_reg (snd (runCall m c s)) = ms_reg s)"
proof
  show "Validate (ms_reg (runCalls m cs s)) = ok"
    using assms
  proof (induction cs arbitrary: s)
    case (Cons c cs)
    then show ?case using runCall_outcome [of m c s] by (auto simp: committed_def)
  qed simp
  show "isl (fst (runCall m c s)) \<longrightarrow> ms_reg (snd (runCall m c s)) = ms_reg s"
    using runCall_outcome [of m c s] by blast
qed

text \<open>C5: The child of a Pane is never replaced by another one. As long as the Pane keeps a live activation at
  every moment of a run of process writers, its recorded host, child and binding at the end are the ones it
  started with; a different child needs the old one retired first, by its Wait or by a proof that its host is
  lost.\<close>

theorem live_child_is_never_replaced:
  assumes "\<And>k. k \<le> length cs \<Longrightarrow> map_option activationIsZero (activationOf (ms_reg (runCalls m (take k cs) s)) u) = Some False"
  shows "map_option act_process (activationOf (ms_reg (runCalls m cs s)) u) = map_option act_process (activationOf (ms_reg s) u)"
proof -
  have "k \<le> length cs \<Longrightarrow> map_option act_process (activationOf (ms_reg (runCalls m (take k cs) s)) u)
      = map_option act_process (activationOf (ms_reg s) u)" for k
  proof (induction k)
    case (Suc k)
    then have k: "k < length cs" by simp
    let ?t = "runCalls m (take k cs) s"
    have step: "runCalls m (take (Suc k) cs) s = snd (runCall m (cs ! k) ?t)"
      by (simp add: take_Suc_conv_app_nth [OF k] runCalls_append)
    have "childKept (activationOf (ms_reg ?t) u) (activationOf (ms_reg (snd (runCall m (cs ! k) ?t))) u)"
      using runCall_child [of ?t m "cs ! k"] by (simp add: childrenKept_def)
    moreover note assms [of k] assms [of "Suc k"] Suc step
    ultimately show ?case by (auto simp: childKept_def split: option.splits)
  qed simp
  from this [of "length cs"] show ?thesis by simp
qed

text \<open>C6: A resume reservation that spawned nothing can be taken back exactly. If \<open>ReserveProcessResume\<close> succeeded on
  a Pane whose recorded conversation was \<open>x\<close>, then \<open>RestoreProcessResume\<close> with that record succeeds on the result
  and returns the original Registry, up to the time of its last update: the conversation, its resume history,
  the Agent's phase and everything else are as before.\<close>

theorem resume_reservation_is_undone:
  assumes "ReserveProcessResume m previous b s = (Inr v, s1)"
    and "Option.bind (lookupPane (ms_reg s) (pb_pane b)) (\<lambda>p. pnst_process (pn_status p)) = Some x"
  shows "\<exists>s2 now. RestoreProcessResume m b x s1 = (Inr (), s2) \<and> ms_reg s2 = (ms_reg s)\<lparr>r_updated := now\<rparr>"
  using assms by (rule restore_after_reserve)

theorem process_writers_keep_the_registry_valid_witness:
  "Validate (ms_reg (runCalls (demoMutator 9) [ReserveBinding (demoBinding ''1''), RecordChild demoChild] demoClaude)) = ok
   \<and> isl (fst (runCall (demoMutator 9) (RecordChild demoChild) demoClaude))
   \<and> ms_reg (snd (runCall (demoMutator 9) (RecordChild demoChild) demoClaude)) = ms_reg demoClaude"
proof -
  have "Validate (ms_reg demoClaude) = ok" by code_simp
  note valid = process_writers_keep_the_registry_valid [OF this]
  have "isl (fst (runCall (demoMutator 9) (RecordChild demoChild) demoClaude))" by code_simp
  with valid show ?thesis by blast
qed

theorem live_child_is_never_replaced_witness:
  "isl (fst (runCall (demoMutator 9) (RecordChild (demoChild\<lparr>pa_child := \<lparr>pi_pid = 3, pi_owner = 0, pi_start = ''t''\<rparr>\<rparr>)) demoLive))
   \<and> map_option act_process (activationOf (ms_reg (runCalls (demoMutator 9) [RecordChild demoChild] demoLive)) ''p'')
     = map_option act_process (activationOf (ms_reg demoLive) ''p'')"
proof
  show "isl (fst (runCall (demoMutator 9) (RecordChild (demoChild\<lparr>pa_child := \<lparr>pi_pid = 3, pi_owner = 0, pi_start = ''t''\<rparr>\<rparr>)) demoLive))"
    by code_simp
  have z: "map_option activationIsZero (activationOf (ms_reg demoLive) ''p'') = Some False"
    "map_option activationIsZero (activationOf (ms_reg (runCalls (demoMutator 9) [RecordChild demoChild] demoLive)) ''p'') = Some False"
    by code_simp+
  show "map_option act_process (activationOf (ms_reg (runCalls (demoMutator 9) [RecordChild demoChild] demoLive)) ''p'')
     = map_option act_process (activationOf (ms_reg demoLive) ''p'')"
  proof (rule live_child_is_never_replaced)
    fix k assume "k \<le> length [RecordChild demoChild]"
    then consider "k = 0" | "k = 1" by fastforce
    then show "map_option activationIsZero (activationOf (ms_reg (runCalls (demoMutator 9) (take k [RecordChild demoChild]) demoLive)) ''p'')
        = Some False" using z by cases simp_all
  qed
qed

theorem resume_reservation_is_undone_witness:
  "\<exists>s2 now. RestoreProcessResume (demoMutator 9) (demoBinding ''2'') demoSession
         (snd (ReserveProcessResume (demoMutator 9) (demoBinding ''1'') (demoBinding ''2'') demoRetired)) = (Inr (), s2)
     \<and> ms_reg s2 = (ms_reg demoRetired)\<lparr>r_updated := now\<rparr>"
proof -
  have "fst (ReserveProcessResume (demoMutator 9) (demoBinding ''1'') (demoBinding ''2'') demoRetired) = Inr ()" by code_simp
  then obtain s1 where s1: "ReserveProcessResume (demoMutator 9) (demoBinding ''1'') (demoBinding ''2'') demoRetired = (Inr (), s1)"
    by (metis prod.collapse)
  have x: "Option.bind (lookupPane (ms_reg demoRetired) (pb_pane (demoBinding ''2''))) (\<lambda>p. pnst_process (pn_status p)) = Some demoSession"
    by code_simp
  from resume_reservation_is_undone [OF s1 x] s1 show ?thesis by simp
qed

end
