(* ===== verification/Observations.thy ===== *)
theory Observations
  imports Adoption Process_Steps
begin

text \<open>
  What an observation of the runtime writes: the \<open>MissingRuntime\<close> conditions of \<open>ObserveRuntimeBindings\<close>, the
  lowering of ended sessions of \<^verbatim>\<open>sessionprojection.go\<close>, Windows that return to virtual when their tmux side is
  gone, and the creation of a process Window (\<^verbatim>\<open>virtual_window.go\<close>).
\<close>

section \<open>Conditions\<close>

definition windowUnmirrored :: "string \<Rightarrow> string" where
  "windowUnmirrored uid = ''no live tmux window mirrors window uid '' @ uid"

definition paneUnmirrored :: "string \<Rightarrow> string" where
  "paneUnmirrored uid = ''no live tmux pane mirrors pane uid '' @ uid"

definition observeWindow :: "runtime_observation \<Rightarrow> registry \<Rightarrow> time \<Rightarrow> window \<Rightarrow> window \<times> bool" where
  "observeWindow ob r now w = (case refreshRuntimeCondition (BoundWindow ob (w_uid w) \<or> IsVirtualWindow r (w_uid w))
        (windowUnmirrored (w_uid w)) now (wst_conditions (w_status w)) of
     (cs, changed) \<Rightarrow> (w\<lparr>w_status := (w_status w)\<lparr>wst_conditions := cs\<rparr>\<rparr>, changed))"

definition observePane :: "runtime_observation \<Rightarrow> time \<Rightarrow> pane \<Rightarrow> pane \<times> bool" where
  "observePane ob now p = (if pn_uid p \<in> ro_process ob then (p, False)
     else case refreshRuntimeCondition (BoundPane ob (pn_uid p))
        (paneUnmirrored (pn_uid p)) now (pnst_conditions (pn_status p)) of
     (cs, changed) \<Rightarrow> (p\<lparr>pn_status := (pn_status p)\<lparr>pnst_conditions := cs\<rparr>\<rparr>, changed))"

definition observeRegistry :: "runtime_observation \<Rightarrow> time \<Rightarrow> registry \<Rightarrow> registry" where
  "observeRegistry ob now r =
     (let ws = map (observeWindow ob r now) (r_windows r); ps = map (observePane ob now) (r_panes r);
          r' = r\<lparr>r_windows := map fst ws, r_panes := map fst ps\<rparr>
      in if list_ex snd ws \<or> list_ex snd ps then r'\<lparr>r_updated := now\<rparr> else r')"

definition ObserveRuntimeBindings :: "'w mutator \<Rightarrow> runtime_observation \<Rightarrow> ('w mstate, unit) comp" where
  "ObserveRuntimeBindings m ob = andThen (clock m) (\<lambda>now. modReg (observeRegistry ob now))"

section \<open>Sessions that ended\<close>

definition sessionEnded :: "string \<Rightarrow> string set \<Rightarrow> project \<Rightarrow> bool" where
  "sessionEnded socket present p \<longleftrightarrow> (case pst_session (p_status p) of
     None \<Rightarrow> False
   | Some x \<Rightarrow> sp_live x \<and> sp_socket x = socket \<and> sp_name x \<notin> present)"

definition lowerSession :: "project \<Rightarrow> project" where
  "lowerSession p = p\<lparr>p_status := (p_status p)\<lparr>pst_session := map_option (\<lambda>x. x\<lparr>sp_live := False\<rparr>) (pst_session (p_status p))\<rparr>\<rparr>"

definition LowerProjectSessionsEndedOnServer ::
  "'w mutator \<Rightarrow> string \<Rightarrow> string set \<Rightarrow> ('w mstate, project list) comp" where
  "LowerProjectSessionsEndedOnServer m socket present =
     (if socket = '''' then return []
      else andThen getReg (\<lambda>r. let lowered = filter (sessionEnded socket present) (r_projects r) in
        andThen (modReg (\<lambda>r. r\<lparr>r_projects := map (\<lambda>p. if sessionEnded socket present p then lowerSession p else p) (r_projects r)\<rparr>)) (\<lambda>_.
        andThen (if lowered \<noteq> [] then stamp m else return ()) (\<lambda>_. return (map lowerSession lowered)))))"

definition SessionAbsenceAttributableTo :: "session_projection option \<Rightarrow> string \<Rightarrow> bool" where
  "SessionAbsenceAttributableTo x socket \<longleftrightarrow> (case x of None \<Rightarrow> True | Some x \<Rightarrow> sp_socket x = '''' \<or> sp_socket x = socket)"

section \<open>Virtual Windows\<close>

definition ownedPanes :: "registry \<Rightarrow> string \<Rightarrow> pane list" where
  "ownedPanes r windowUID = filter (\<lambda>p. paneWindowOwnerUID r p = (windowUID, True)) (r_panes r)"

text \<open>The tmux Panes of a bound Window that is gone while an eligible process Pane remains; \<open>None\<close> skips it.\<close>

definition absentPanes :: "registry \<Rightarrow> runtime_observation \<Rightarrow> window \<Rightarrow> string list option" where
  "absentPanes r ob w =
     (let uid = w_uid w; owned = ownedPanes r uid;
          tmux = filter (\<lambda>p. EffectiveKind (pns_runtime (pn_spec p)) \<noteq> RuntimeProcess) owned;
          process = list_ex (\<lambda>p. EffectiveKind (pns_runtime (pn_spec p)) = RuntimeProcess
             \<and> windowAnchorEligibility r uid p = AnchorEligible) owned;
          live = list_ex (\<lambda>p. BoundPane ob (pn_uid p)) tmux
      in if wst_runtime (w_status w) = '''' \<or> BoundWindow ob uid then None
         else if \<not> process \<or> live then None else Some (map pn_uid tmux))"

definition returnToVirtual :: "'w mutator \<Rightarrow> registry \<Rightarrow> runtime_observation \<Rightarrow> window \<Rightarrow> ('w mstate, unit) comp" where
  "returnToVirtual m r ob w = (case absentPanes r ob w of
     None \<Rightarrow> return ()
   | Some panes \<Rightarrow> andThen (forEach (DeletePane m) panes) (\<lambda>_.
       modReg (\<lambda>n. setWindowAnchor (w_uid w) (firstWindowAnchorPaneUID n (w_uid w)) n)))"

definition ReturnAbsentTmuxWindowsToVirtual :: "'w mutator \<Rightarrow> runtime_observation \<Rightarrow> ('w mstate, unit) comp" where
  "ReturnAbsentTmuxWindowsToVirtual m ob = andThen getReg (\<lambda>r.
     andThen (onClone r (forEach (returnToVirtual m r ob) (r_windows r))) (\<lambda>(_, next'). modReg (\<lambda>_. next')))"

definition agentPaneName :: "agent \<Rightarrow> string" where
  "agentPaneName a = (let name = om_name (a_meta a) @ ''-pane'' in if ValidateName name \<noteq> ok then '''' else name)"

definition createProcessWindow ::
  "'w mutator \<Rightarrow> string \<Rightarrow> bootstrap_window \<Rightarrow> create_agent_options \<Rightarrow> process_binding \<Rightarrow> ('w mstate, string \<times> string \<times> string) comp" where
  "createProcessWindow m projectUID declared opts binding =
     andThen (mintAndReserveName m ''create process window'' projectUID KindWindow (bw_name declared)) (\<lambda>(uid, name).
     andThen (clock m) (\<lambda>now.
     andThen (modReg (\<lambda>n. adoptProjectPrimaryWindow KindProject projectUID uid
        (n\<lparr>r_windows := r_windows n @ [newWindow uid name (bw_labels declared) KindProject projectUID now]\<rparr>))) (\<lambda>_.
     andThen (CreateAgent m uid opts) (\<lambda>a.
     andThen (AttachAgentPane m (a_uid a) \<lparr>bp_name = agentPaneName a, bp_command = '''', bp_cwd = wk_cwd (ca_workspace opts),
        bp_labels = ca_labels opts\<rparr> (ca_operation opts)) (\<lambda>p.
     andThen (modReg (updWindow uid (\<lambda>w. w\<lparr>w_spec := (w_spec w)\<lparr>ws_anchor := pn_uid p\<rparr>\<rparr>))) (\<lambda>_.
     andThen (ReserveProcessBinding m (binding\<lparr>pb_project := projectUID, pb_window := uid, pb_agent := a_uid a, pb_pane := pn_uid p\<rparr>)) (\<lambda>_.
     return (uid, a_uid a, pn_uid p))))))))"

definition CreateProcessWindow ::
  "'w mutator \<Rightarrow> string \<Rightarrow> bootstrap_window \<Rightarrow> create_agent_options \<Rightarrow> process_binding
   \<Rightarrow> ('w mstate, window option \<times> agent option \<times> pane option) comp" where
  "CreateProcessWindow m projectUID declared opts binding = andThen getReg (\<lambda>r.
     if lookupProject r projectUID = None then throw (stateErr ''create process window'' ErrNotFound)
     else andThen (onClone r (createProcessWindow m projectUID declared opts binding)) (\<lambda>((w, a, p), next').
       andThen (modReg (\<lambda>_. next')) (\<lambda>_. return (lookupWindow next' w, lookupAgent next' a, lookupPane next' p))))"

section \<open>What an observation leaves\<close>

text \<open>Only condition lists differ: uids, metadata and specifications of the rows are the same.\<close>

lemma find_map_key: "(\<And>x. k (f x) = k x) \<Longrightarrow> find (\<lambda>x. k x = u) (map f xs) = map_option f (find (\<lambda>x. k x = u) xs)"
  by (induction xs) auto

lemma virtual_frame:
  assumes f: "\<And>w. w_meta (f w) = w_meta w" "\<And>w. w_spec (f w) = w_spec w"
    and g: "\<And>p. pn_meta (g p) = pn_meta p" "\<And>p. pn_spec (g p) = pn_spec p"
  shows "IsVirtualWindow (r\<lparr>r_windows := map f (r_windows r), r_panes := map g (r_panes r)\<rparr>) u = IsVirtualWindow r u"
proof -
  let ?r = "r\<lparr>r_windows := map f (r_windows r), r_panes := map g (r_panes r)\<rparr>"
  have lw: "lookupWindow ?r v = map_option f (lookupWindow r v)" for v
    using find_map_key [of w_uid f v "r_windows r"] by (simp add: lookupWindow_def f)
  have lp: "lookupPane ?r v = map_option g (lookupPane r v)" for v
    using find_map_key [of pn_uid g v "r_panes r"] by (simp add: lookupPane_def g)
  have la: "lookupAgent ?r v = lookupAgent r v" for v by (simp add: lookupAgent_def)
  have ow: "paneWindowOwnerUID ?r (g p) = paneWindowOwnerUID r p" for p
    by (auto simp: paneWindowOwnerUID_def g lw la split: option.split)
  have el: "windowAnchorEligibility ?r v (g p) = windowAnchorEligibility r v p" for v p
    unfolding windowAnchorEligibility_def ow g la by (rule refl)
  have "WindowAnchor ?r u = map_option g (WindowAnchor r u)"
    by (auto simp: WindowAnchor_def lw lp el f split: option.split)
  then show ?thesis by (cases "WindowAnchor r u") (simp_all add: IsVirtualWindow_def paneKind_def g)
qed

lemma observed_rows:
  "w_meta (fst (observeWindow ob r now w)) = w_meta w" "w_spec (fst (observeWindow ob r now w)) = w_spec w"
  "pn_meta (fst (observePane ob now p)) = pn_meta p" "pn_spec (fst (observePane ob now p)) = pn_spec p"
  by (simp_all add: observeWindow_def observePane_def split: prod.split)

lemma IsVirtualWindow_updated [simp]: "IsVirtualWindow (r\<lparr>r_updated := t\<rparr>) u = IsVirtualWindow r u"
  by (unfold IsVirtualWindow_def WindowAnchor_def lookups_updated pane_checks_updated) (rule refl)

lemma observed_virtual: "IsVirtualWindow (observeRegistry ob now r) u = IsVirtualWindow r u"
proof -
  have "IsVirtualWindow (r\<lparr>r_windows := map (\<lambda>w. fst (observeWindow ob r now w)) (r_windows r),
      r_panes := map (\<lambda>p. fst (observePane ob now p)) (r_panes r)\<rparr>) u = IsVirtualWindow r u"
    by (rule virtual_frame) (simp_all add: observed_rows)
  then show ?thesis by (auto simp: observeRegistry_def Let_def comp_def)
qed

definition missingRuntime :: "condition list \<Rightarrow> bool" where
  "missingRuntime cs \<longleftrightarrow> findCondition cs ConditionMissingRuntime \<noteq> None"

text \<open>At most one \<open>MissingRuntime\<close> per resource, which is what the setters keep.\<close>

definition oneMissing :: "condition list \<Rightarrow> bool" where
  "oneMissing cs \<longleftrightarrow> length (filter (\<lambda>c. c_type c = ConditionMissingRuntime) cs) \<le> 1"

lemma delFirst_last: "length (filter p xs) \<le> 1 \<Longrightarrow> \<not> list_ex p (delFirst p xs)"
proof (induction xs)
  case (Cons x xs)
  show ?case
  proof (cases "p x")
    case True
    with Cons.prems have "filter p xs = []" by simp
    then have "\<not> list_ex p xs" by (simp add: filter_empty_conv list_ex_iff)
    with True show ?thesis by simp
  qed (use Cons in simp)
qed simp

lemma find_ex: "find p xs \<noteq> None \<longleftrightarrow> list_ex p xs"
  by (auto simp: find_None_iff list_ex_iff)

lemma missing_ex: "missingRuntime cs \<longleftrightarrow> list_ex (\<lambda>c. c_type c = ConditionMissingRuntime) cs"
  by (simp only: missingRuntime_def findCondition_def find_ex)

lemma refresh_exact:
  assumes "oneMissing cs"
  shows "missingRuntime (fst (refreshRuntimeCondition bound msg now cs)) \<longleftrightarrow> \<not> bound"
  using assms delFirst_last [of "\<lambda>c. c_type c = ConditionMissingRuntime" cs]
  by (auto simp: missing_ex refreshRuntimeCondition_def clearCondition_def setCondition_def oneMissing_def)

lemma refresh_again:
  assumes "oneMissing cs"
  shows "refreshRuntimeCondition bound msg' now' (fst (refreshRuntimeCondition bound msg now cs))
    = (fst (refreshRuntimeCondition bound msg now cs), False)"
  using assms delFirst_last [of "\<lambda>c. c_type c = ConditionMissingRuntime" cs]
  by (auto simp: refreshRuntimeCondition_def clearCondition_def setCondition_def oneMissing_def)

definition oneMissingEach :: "registry \<Rightarrow> bool" where
  "oneMissingEach r \<longleftrightarrow> list_all (\<lambda>w. oneMissing (wst_conditions (w_status w))) (r_windows r)
     \<and> list_all (\<lambda>p. oneMissing (pnst_conditions (pn_status p))) (r_panes r)"

lemma observeWindow_again:
  assumes "oneMissing (wst_conditions (w_status w))" and "\<And>u. IsVirtualWindow r' u = IsVirtualWindow r u"
  shows "observeWindow ob r' now' (fst (observeWindow ob r now w)) = (fst (observeWindow ob r now w), False)"
proof -
  obtain cs ch where c: "refreshRuntimeCondition (BoundWindow ob (w_uid w) \<or> IsVirtualWindow r (w_uid w))
      (windowUnmirrored (w_uid w)) now (wst_conditions (w_status w)) = (cs, ch)" by fastforce
  have "refreshRuntimeCondition (BoundWindow ob (w_uid w) \<or> IsVirtualWindow r (w_uid w))
      (windowUnmirrored (w_uid w)) now' cs = (cs, False)"
    using refresh_again [OF assms(1), of _ _ now'] c by (metis fst_conv)
  then show ?thesis by (simp add: observeWindow_def assms(2) c)
qed

lemma observePane_again:
  assumes "oneMissing (pnst_conditions (pn_status p))"
  shows "observePane ob now' (fst (observePane ob now p)) = (fst (observePane ob now p), False)"
proof -
  obtain cs ch where c: "refreshRuntimeCondition (BoundPane ob (pn_uid p))
      (paneUnmirrored (pn_uid p)) now (pnst_conditions (pn_status p)) = (cs, ch)" by fastforce
  have "refreshRuntimeCondition (BoundPane ob (pn_uid p)) (paneUnmirrored (pn_uid p)) now' cs = (cs, False)"
    using refresh_again [OF assms, of _ _ now'] c by (metis fst_conv)
  then show ?thesis by (simp add: observePane_def c)
qed

lemma observeRegistry_again:
  assumes "oneMissingEach r"
  shows "observeRegistry ob now' (observeRegistry ob now r) = observeRegistry ob now r"
proof -
  let ?r = "observeRegistry ob now r"
  have rows: "r_windows ?r = map (\<lambda>w. fst (observeWindow ob r now w)) (r_windows r)"
    "r_panes ?r = map (\<lambda>p. fst (observePane ob now p)) (r_panes r)"
    by (simp_all add: observeRegistry_def Let_def)
  have ws: "map (observeWindow ob ?r now') (r_windows ?r) = map (\<lambda>w. (w, False)) (r_windows ?r)"
    using assms observeWindow_again [OF _ observed_virtual] by (simp add: rows oneMissingEach_def list_all_iff)
  have ps: "map (observePane ob now') (r_panes ?r) = map (\<lambda>p. (p, False)) (r_panes ?r)"
    using assms observePane_again by (simp add: rows oneMissingEach_def list_all_iff)
  show ?thesis
    unfolding observeRegistry_def [of ob now' ?r] Let_def ws ps by (simp add: comp_def list_ex_iff)
qed

text \<open>the \<open>MissingRuntime\<close> conditions say exactly what was observed. After \<open>ObserveRuntimeBindings\<close> a Window
  carries the condition just when no live tmux Window mirrors it and it is not virtual, a Pane that is not a process
  Pane just when no live tmux Pane mirrors it, and observing the same thing again, at any time, changes nothing.\<close>

theorem conditions_say_what_was_observed:
  assumes "oneMissingEach (ms_reg s)" and "ObserveRuntimeBindings m ob s = (Inr (), s')"
  shows "(\<forall>w \<in> set (r_windows (ms_reg s')). missingRuntime (wst_conditions (w_status w))
            \<longleftrightarrow> \<not> BoundWindow ob (w_uid w) \<and> \<not> IsVirtualWindow (ms_reg s') (w_uid w))
    \<and> (\<forall>p \<in> set (r_panes (ms_reg s')). pn_uid p \<notin> ro_process ob
            \<longrightarrow> missingRuntime (pnst_conditions (pn_status p)) = (\<not> BoundPane ob (pn_uid p)))
    \<and> ms_reg (snd (ObserveRuntimeBindings m ob s')) = ms_reg s'"
proof -
  obtain now w where "Now m (ms_world s) = (now, w)" by fastforce
  with assms(2) have r: "ms_reg s' = observeRegistry ob now (ms_reg s)"
    by (auto simp: ObserveRuntimeBindings_def comp_defs clock_def modReg_def)
  obtain now' w' where "Now m (ms_world s') = (now', w')" by fastforce
  then have again: "ms_reg (snd (ObserveRuntimeBindings m ob s')) = observeRegistry ob now' (ms_reg s')"
    by (simp add: ObserveRuntimeBindings_def comp_defs clock_def modReg_def)
  have win: "missingRuntime (wst_conditions (w_status (fst (observeWindow ob (ms_reg s) now w))))
      \<longleftrightarrow> \<not> (BoundWindow ob (w_uid w) \<or> IsVirtualWindow (ms_reg s) (w_uid w))" if "w \<in> set (r_windows (ms_reg s))" for w
    using refresh_exact that assms(1) by (simp add: observeWindow_def oneMissingEach_def list_all_iff split: prod.split) (metis fst_conv)
  have pan: "missingRuntime (pnst_conditions (pn_status (fst (observePane ob now p)))) = (\<not> BoundPane ob (pn_uid p))"
    if "p \<in> set (r_panes (ms_reg s))" "pn_uid p \<notin> ro_process ob" for p
    using refresh_exact that assms(1) by (simp add: observePane_def oneMissingEach_def list_all_iff split: prod.split) (metis fst_conv)
  have rows: "r_windows (ms_reg s') = map (\<lambda>w. fst (observeWindow ob (ms_reg s) now w)) (r_windows (ms_reg s))"
    "r_panes (ms_reg s') = map (\<lambda>p. fst (observePane ob now p)) (r_panes (ms_reg s))"
    by (simp_all add: r observeRegistry_def Let_def)
  show ?thesis
  proof (intro conjI)
    show "\<forall>w \<in> set (r_windows (ms_reg s')). missingRuntime (wst_conditions (w_status w))
            \<longleftrightarrow> \<not> BoundWindow ob (w_uid w) \<and> \<not> IsVirtualWindow (ms_reg s') (w_uid w)"
      using win by (simp add: rows observed_rows) (simp add: r observed_virtual)
    show "\<forall>p \<in> set (r_panes (ms_reg s')). pn_uid p \<notin> ro_process ob
            \<longrightarrow> missingRuntime (pnst_conditions (pn_status p)) = (\<not> BoundPane ob (pn_uid p))"
      using pan by (simp add: rows observed_rows)
    show "ms_reg (snd (ObserveRuntimeBindings m ob s')) = ms_reg s'"
      using observeRegistry_again [OF assms(1)] by (simp only: again r)
  qed
qed

definition demoSeen :: runtime_observation where
  "demoSeen = \<lparr>ro_process = {}, ro_windows = {''w''}, ro_panes = {''s''}, ro_sessions = {}, ro_sessions_observed = False, ro_unobserved = {}\<rparr>"

lemma conditions_say_what_was_observed_witness:
  "ms_reg (snd (ObserveRuntimeBindings (demoMutator 9) demoSeen (snd (ObserveRuntimeBindings (demoMutator 9) demoSeen demoClaude))))
     = ms_reg (snd (ObserveRuntimeBindings (demoMutator 9) demoSeen demoClaude))
   \<and> map (\<lambda>p. missingRuntime (pnst_conditions (pn_status p))) (r_panes (ms_reg (snd (ObserveRuntimeBindings (demoMutator 9) demoSeen demoClaude))))
     = [False, True]"
proof
  have "oneMissingEach (ms_reg demoClaude)" by code_simp
  moreover have "fst (ObserveRuntimeBindings (demoMutator 9) demoSeen demoClaude) = Inr ()" by code_simp
  then have "ObserveRuntimeBindings (demoMutator 9) demoSeen demoClaude = (Inr (), snd (ObserveRuntimeBindings (demoMutator 9) demoSeen demoClaude))"
    by (simp add: prod_eq_iff)
  ultimately show "ms_reg (snd (ObserveRuntimeBindings (demoMutator 9) demoSeen (snd (ObserveRuntimeBindings (demoMutator 9) demoSeen demoClaude))))
     = ms_reg (snd (ObserveRuntimeBindings (demoMutator 9) demoSeen demoClaude))"
    using conditions_say_what_was_observed by blast
  show "map (\<lambda>p. missingRuntime (pnst_conditions (pn_status p))) (r_panes (ms_reg (snd (ObserveRuntimeBindings (demoMutator 9) demoSeen demoClaude))))
     = [False, True]" by code_simp
qed

section \<open>Sessions\<close>

text \<open>Lowering writes \<open>live\<close> and nothing else, and only where the absence is evidence: a projection recorded as live
  on exactly this server whose session that server no longer has.\<close>

theorem sessions_are_lowered_only_by_their_server:
  assumes "LowerProjectSessionsEndedOnServer m socket present s = (Inr lowered, s')"
  shows "r_projects (ms_reg s') = map (\<lambda>p. if socket \<noteq> '''' \<and> sessionEnded socket present p then lowerSession p else p) (r_projects (ms_reg s))
    \<and> lowered = map lowerSession (filter (\<lambda>p. socket \<noteq> '''' \<and> sessionEnded socket present p) (r_projects (ms_reg s)))
    \<and> (lowered = [] \<longrightarrow> ms_reg s' = ms_reg s)
    \<and> (\<forall>p \<in> set lowered. SessionAbsenceAttributableTo (pst_session (p_status p)) socket)"
proof (cases "socket = ''''")
  case False
  let ?f = "\<lambda>p. if sessionEnded socket present p then lowerSession p else p"
  let ?low = "filter (sessionEnded socket present) (r_projects (ms_reg s))"
  have same: "map ?f ps = ps" if "filter (sessionEnded socket present) ps = []" for ps
    using that by (induction ps) (auto split: if_splits)
  obtain t where s': "ms_reg s' = (if ?low = [] then (ms_reg s)\<lparr>r_projects := map ?f (r_projects (ms_reg s))\<rparr>
      else (ms_reg s)\<lparr>r_projects := map ?f (r_projects (ms_reg s)), r_updated := t\<rparr>)" and low: "lowered = map lowerSession ?low"
  proof -
    obtain t w where "Now m (ms_world s) = (t, w)" by fastforce
    with assms False show thesis
      unfolding LowerProjectSessionsEndedOnServer_def if_not_P [OF False] getReg_run Let_def
      by (intro that [of t]) (auto simp: modReg_def stamp_def clock_def comp_defs split: if_splits)
  qed
  have attr: "SessionAbsenceAttributableTo (pst_session (p_status (lowerSession p))) socket" if "sessionEnded socket present p" for p
    using that by (auto simp: SessionAbsenceAttributableTo_def lowerSession_def sessionEnded_def split: option.splits)
  have "lowered = [] \<longrightarrow> ms_reg s' = ms_reg s" using same by (simp add: s' low)
  moreover have "r_projects (ms_reg s') = map ?f (r_projects (ms_reg s))" by (simp add: s')
  ultimately show ?thesis using attr False by (auto simp: low)
qed (use assms in \<open>auto simp: LowerProjectSessionsEndedOnServer_def comp_defs\<close>)

section \<open>Atomicity\<close>

text \<open>Both writers work on a clone: a failure half way leaves the Registry as it was.\<close>

lemma CreateProcessWindow_atomic:
  "CreateProcessWindow m u d opts b s = (Inl e, s') \<Longrightarrow> ms_reg s' = ms_reg s"
  unfolding CreateProcessWindow_def getReg_run
  by (auto simp: onClone_def andThen_def throw_def return_def modReg_def split: if_splits prod.splits sum.splits)

lemma ReturnAbsentTmuxWindowsToVirtual_atomic:
  "ReturnAbsentTmuxWindowsToVirtual m ob s = (Inl e, s') \<Longrightarrow> ms_reg s' = ms_reg s"
  unfolding ReturnAbsentTmuxWindowsToVirtual_def getReg_run
  by (auto simp: onClone_def andThen_def modReg_def split: prod.splits sum.splits)

end
