(* ===== verification/Claude_Binding.thy ===== *)
theory Claude_Binding
  imports Process_Steps
begin

text \<open>
  The Claude registration lease of a Pane activation: the writers of \<^verbatim>\<open>claudebinding.go\<close> and the
  classification of \<^verbatim>\<open>claude_registration_shape.go\<close>. The process of an activation is bound once; a
  SessionStart helper claims a registration generation, records its lease under it, and clears it again. The
  theorems are about helpers that race: the newest claim is the one that stands, and a session that registered
  is never diagnosed as one that never did.
\<close>

section \<open>Writers\<close>

definition claudeBadErr :: "string \<Rightarrow> error" where
  "claudeBadErr op = stateErr op ErrInvalidRegistry"

definition setClaude :: "claude_binding option \<Rightarrow> pane \<Rightarrow> pane" where
  "setClaude b p = setActivation ((pnst_activation (pn_status p))\<lparr>act_claude := b\<rparr>) p"

text \<open>The exact managed Claude Agent Pane: the part of the guard every writer repeats.\<close>

definition ownedClaudePane :: "registry \<Rightarrow> string \<Rightarrow> string \<Rightarrow> string \<Rightarrow> (pane \<times> agent) option" where
  "ownedClaudePane r paneUID agentUID generation = (case (lookupPane r paneUID, lookupAgent r agentUID) of
     (Some p, Some a) \<Rightarrow>
       if as_provider (a_spec a) \<noteq> ''claude'' \<or> ast_pane (a_status a) \<noteq> paneUID
         \<or> map_option or_kind (om_owner (pn_meta p)) \<noteq> Some KindAgent \<or> OwnerUID (pn_meta p) \<noteq> agentUID
         \<or> pns_role (pn_spec p) \<noteq> PaneRoleAgent \<or> act_agent (pnst_activation (pn_status p)) \<noteq> agentUID
         \<or> act_generation (pnst_activation (pn_status p)) \<noteq> generation
       then None else Some (p, a)
   | _ \<Rightarrow> None)"

definition managedClaudePane :: "registry \<Rightarrow> string \<Rightarrow> string \<Rightarrow> string \<Rightarrow> pane option" where
  "managedClaudePane r paneUID agentUID generation = (case ownedClaudePane r paneUID agentUID generation of
     None \<Rightarrow> None
   | Some (p, a) \<Rightarrow> if ast_phase (a_status a) \<noteq> PhaseRunning \<or> generation = '''' then None else Some p)"

definition writeClaude :: "'w mutator \<Rightarrow> string \<Rightarrow> claude_binding \<Rightarrow> ('w mstate, unit) comp" where
  "writeClaude m paneUID b = andThen (modReg (updPane paneUID (setClaude (Some b)))) (\<lambda>_. stamp m)"

definition RecordClaudeProcess ::
  "'w mutator \<Rightarrow> string \<Rightarrow> string \<Rightarrow> string \<Rightarrow> process_identity \<Rightarrow> ('w mstate, unit) comp" where
  "RecordClaudeProcess m paneUID agentUID generation process =
     (let bad = claudeBadErr ''record Claude process'' in andThen getReg (\<lambda>r.
      case managedClaudePane r paneUID agentUID generation of
        None \<Rightarrow> throw bad
      | Some p \<Rightarrow>
          if \<not> identityProcessValid process then throw bad
          else if act_claude (pnst_activation (pn_status p)) \<noteq> None then throw bad
          else writeClaude m paneUID \<lparr>cb_process = process, cb_session = '''', cb_generation = '''', cb_registration = None\<rparr>))"

definition claudeRegistrationClaimTarget ::
  "registry \<Rightarrow> string \<Rightarrow> string \<Rightarrow> string \<Rightarrow> claude_authority \<Rightarrow> claude_binding option" where
  "claudeRegistrationClaimTarget r paneUID agentUID generation authority =
     (case Option.bind (managedClaudePane r paneUID agentUID generation) (\<lambda>p. act_claude (pnst_activation (pn_status p))) of
        None \<Rightarrow> None
      | Some b \<Rightarrow> if cb_process b \<noteq> cla_process authority \<or> \<not> claudeAuthorityValid authority then None else Some b)"

definition claimClaudeRegistration ::
  "'w mutator \<Rightarrow> string \<Rightarrow> claude_binding \<Rightarrow> claude_authority \<Rightarrow> ('w mstate, unit) comp" where
  "claimClaudeRegistration m paneUID b authority =
     writeClaude m paneUID (b\<lparr>cb_session := cla_session authority, cb_generation := cla_registration authority,
       cb_registration := None\<rparr>)"

definition BeginClaudeRegistration ::
  "'w mutator \<Rightarrow> string \<Rightarrow> string \<Rightarrow> string \<Rightarrow> claude_authority \<Rightarrow> ('w mstate, unit) comp" where
  "BeginClaudeRegistration m paneUID agentUID generation authority = andThen getReg (\<lambda>r.
     case claudeRegistrationClaimTarget r paneUID agentUID generation authority of
       None \<Rightarrow> throw (claudeBadErr ''begin Claude registration'')
     | Some b \<Rightarrow> claimClaudeRegistration m paneUID b authority)"

definition BeginClaudeRegistrationAfter ::
  "'w mutator \<Rightarrow> string \<Rightarrow> string \<Rightarrow> string \<Rightarrow> string \<Rightarrow> claude_authority \<Rightarrow> ('w mstate, unit) comp" where
  "BeginClaudeRegistrationAfter m paneUID agentUID generation prior authority =
     (let bad = claudeBadErr ''begin Claude registration'' in andThen getReg (\<lambda>r.
      case claudeRegistrationClaimTarget r paneUID agentUID generation authority of
        None \<Rightarrow> throw bad
      | Some b \<Rightarrow>
          if cb_generation b = cla_registration authority
          then (if cb_session b \<noteq> cla_session authority then throw bad else return ())
          else if cb_generation b = prior then claimClaudeRegistration m paneUID b authority
          else throw bad))"

definition RecordClaudeRegistration ::
  "'w mutator \<Rightarrow> string \<Rightarrow> string \<Rightarrow> string \<Rightarrow> claude_registration \<Rightarrow> ('w mstate, unit) comp" where
  "RecordClaudeRegistration m paneUID agentUID generation registration =
     (let bad = claudeBadErr ''record Claude registration''; authority = cr_authority registration in andThen getReg (\<lambda>r.
      case Option.bind (managedClaudePane r paneUID agentUID generation) (\<lambda>p. act_claude (pnst_activation (pn_status p))) of
        None \<Rightarrow> throw bad
      | Some b \<Rightarrow>
          if cb_process b \<noteq> cla_process authority \<or> cb_generation b \<noteq> cla_registration authority
            \<or> cb_session b \<noteq> cla_session authority \<or> \<not> claudeAuthorityValid authority then throw bad
          else (case cb_registration b of
            Some current \<Rightarrow> if cr_authority current = authority then return () else throw bad
          | None \<Rightarrow> writeClaude m paneUID (b\<lparr>cb_registration := Some (registration\<lparr>cr_ready := True\<rparr>)\<rparr>))))"

definition ClearClaudeRegistration ::
  "'w mutator \<Rightarrow> string \<Rightarrow> string \<Rightarrow> string \<Rightarrow> claude_authority \<Rightarrow> ('w mstate, bool) comp" where
  "ClearClaudeRegistration m paneUID agentUID generation authority = andThen getReg (\<lambda>r.
     case Option.bind (ownedClaudePane r paneUID agentUID generation) (\<lambda>(p, a). act_claude (pnst_activation (pn_status p))) of
       None \<Rightarrow> return False
     | Some b \<Rightarrow>
         if cb_process b \<noteq> cla_process authority \<or> cb_session b \<noteq> cla_session authority
           \<or> cb_generation b \<noteq> cla_registration authority
           \<or> map_option cr_authority (cb_registration b) \<noteq> Some authority then return False
         else andThen (writeClaude m paneUID (b\<lparr>cb_registration := None\<rparr>)) (\<lambda>_. return True))"

section \<open>Why a lease is missing\<close>

datatype registration_shape =
    ClaudeRegistrationReady | ClaudeRegistrationNeverStarted | ClaudeRegistrationLost | ClaudeRegistrationSessionGone

definition ClassifyClaudeRegistration :: "pane \<Rightarrow> bool \<Rightarrow> registration_shape" where
  "ClassifyClaudeRegistration p alive =
     (let binding = act_claude (pnst_activation (pn_status p)) in
      if map_option cr_ready (Option.bind binding cb_registration) = Some True then ClaudeRegistrationReady
      else if pnst_termination (pn_status p) \<noteq> None then ClaudeRegistrationSessionGone
      else case binding of
        None \<Rightarrow> ClaudeRegistrationNeverStarted
      | Some b \<Rightarrow>
          if \<not> alive then ClaudeRegistrationSessionGone
          else if cb_session b \<noteq> '''' \<or> cb_generation b \<noteq> '''' then ClaudeRegistrationLost
          else ClaudeRegistrationNeverStarted)"

section \<open>What one call writes\<close>

datatype claude_call =
    BindProcess string string process_identity
  | Claim string string claude_authority
  | ClaimAfter string string string claude_authority
  | RecordLease string string claude_registration
  | ClearLease string string claude_authority

text \<open>A call names its Pane and, in order, its Agent, the Pane generation and what the helper presents.\<close>

fun runClaude :: "'w mutator \<Rightarrow> string \<times> claude_call \<Rightarrow> ('w mstate, unit) comp" where
  "runClaude m (u, BindProcess a g x) = RecordClaudeProcess m u a g x"
| "runClaude m (u, Claim a g x) = BeginClaudeRegistration m u a g x"
| "runClaude m (u, ClaimAfter a g prior x) = BeginClaudeRegistrationAfter m u a g prior x"
| "runClaude m (u, RecordLease a g x) = RecordClaudeRegistration m u a g x"
| "runClaude m (u, ClearLease a g x) = andThen (ClearClaudeRegistration m u a g x) (\<lambda>_. return ())"

definition runClaudes :: "'w mutator \<Rightarrow> (string \<times> claude_call) list \<Rightarrow> 'w mstate \<Rightarrow> 'w mstate" where
  "runClaudes m cs s = foldl (\<lambda>s c. snd (runClaude m c s)) s cs"

text \<open>The binding a call finds, and the one it leaves.\<close>

fun rebinds :: "claude_call \<Rightarrow> claude_binding option \<Rightarrow> claude_binding \<Rightarrow> bool" where
  "rebinds (BindProcess a g x) old b \<longleftrightarrow> old = None \<and> cb_registration b = None"
| "rebinds (Claim a g x) old b \<longleftrightarrow> old \<noteq> None \<and> cb_session b = cla_session x \<and> cb_generation b = cla_registration x
     \<and> cb_registration b = None \<and> claudeAuthorityValid x"
| "rebinds (ClaimAfter a g prior x) old b \<longleftrightarrow> map_option cb_generation old = Some prior \<and> cla_registration x \<noteq> prior
     \<and> cb_session b = cla_session x \<and> cb_generation b = cla_registration x \<and> cb_registration b = None \<and> claudeAuthorityValid x"
| "rebinds (RecordLease a g x) old b \<longleftrightarrow> (\<exists>c. old = Some c \<and> cb_registration c = None
     \<and> cb_generation c = cla_registration (cr_authority x) \<and> b = c\<lparr>cb_registration := Some (x\<lparr>cr_ready := True\<rparr>)\<rparr>)"
| "rebinds (ClearLease a g x) old b \<longleftrightarrow> (\<exists>c. old = Some c \<and> cb_generation c = cla_registration x
     \<and> b = c\<lparr>cb_registration := None\<rparr>)"

definition claudeOf :: "registry \<Rightarrow> string \<Rightarrow> claude_binding option" where
  "claudeOf r u = Option.bind (activationOf r u) act_claude"

definition leases :: "(claude_binding option \<Rightarrow> claude_binding \<Rightarrow> bool) \<Rightarrow> string \<Rightarrow> ('w mstate, 'a) comp \<Rightarrow> bool" where
  "leases R u c \<longleftrightarrow> (\<forall>s. ms_reg (snd (c s)) = ms_reg s
     \<or> (\<exists>b now. R (claudeOf (ms_reg s) u) b \<and> lookupPane (ms_reg s) u \<noteq> None
          \<and> ms_reg (snd (c s)) = (updPane u (setClaude (Some b)) (ms_reg s))\<lparr>r_updated := now\<rparr>))"

named_theorems lease

text \<open>Inside a writer the Registry is the one it read.\<close>

definition leasesAt :: "registry \<Rightarrow> (claude_binding option \<Rightarrow> claude_binding \<Rightarrow> bool) \<Rightarrow> string \<Rightarrow> ('w mstate, 'a) comp \<Rightarrow> bool" where
  "leasesAt r R u c \<longleftrightarrow> (\<forall>s. ms_reg s = r \<longrightarrow> ms_reg (snd (c s)) = r
     \<or> (\<exists>b now. R (claudeOf r u) b \<and> lookupPane r u \<noteq> None
          \<and> ms_reg (snd (c s)) = (updPane u (setClaude (Some b)) r)\<lparr>r_updated := now\<rparr>))"

lemma leases_getReg: "(\<And>r. leasesAt r R u (f r)) \<Longrightarrow> leases R u (andThen getReg f)"
  by (simp add: leases_def leasesAt_def getReg_run)

lemma leasesAt_pure [lease]: "leasesAt r R u (throw e)" "leasesAt r R u (return v)"
  by (simp_all add: leasesAt_def comp_defs)

lemma leasesAt_if [lease]: "(b \<Longrightarrow> leasesAt r R u c) \<Longrightarrow> (\<not> b \<Longrightarrow> leasesAt r R u d) \<Longrightarrow> leasesAt r R u (if b then c else d)"
  by simp

lemma leasesAt_option [lease]:
  "(x = None \<Longrightarrow> leasesAt r R u c) \<Longrightarrow> (\<And>v. x = Some v \<Longrightarrow> leasesAt r R u (f v))
   \<Longrightarrow> leasesAt r R u (case x of None \<Rightarrow> c | Some v \<Rightarrow> f v)"
  by (cases x) simp_all

lemma leasesAt_write:
  assumes "lookupPane r u \<noteq> None" and "R (claudeOf r u) b"
  shows "leasesAt r R u (writeClaude m u b)"
  using assms by (auto simp: leasesAt_def writeClaude_def stamp_def clock_def modReg_def comp_defs split: prod.split)

lemma snd_then_return: "snd (andThen c (\<lambda>_. return v) s) = snd (c s)"
  by (auto simp: andThen_def return_def split: prod.split sum.split)

lemma leasesAt_then_return: "leasesAt r R u c \<Longrightarrow> leasesAt r R u (andThen c (\<lambda>_. return v))"
  by (simp add: leasesAt_def snd_then_return)

lemma leases_then_return: "leases R u c \<Longrightarrow> leases R u (andThen c (\<lambda>_. return v))"
  by (simp add: leases_def snd_then_return)

lemma ownedClaudePane_lookup:
  "ownedClaudePane r u a g = Some (p, ag) \<Longrightarrow> lookupPane r u = Some p"
  by (auto simp: ownedClaudePane_def split: option.splits if_splits)

lemma managedClaudePane_lookup: "managedClaudePane r u a g = Some p \<Longrightarrow> lookupPane r u = Some p"
  by (auto simp: managedClaudePane_def split: option.splits if_splits dest: ownedClaudePane_lookup)

lemma claudeOf_pane: "lookupPane r u = Some p \<Longrightarrow> claudeOf r u = act_claude (pnst_activation (pn_status p))"
  by (simp add: claudeOf_def activationOf_def)

lemma bound_pane:
  "Option.bind (managedClaudePane r u a g) (\<lambda>p. act_claude (pnst_activation (pn_status p))) = Some b
   \<Longrightarrow> lookupPane r u \<noteq> None \<and> claudeOf r u = Some b"
  "Option.bind (ownedClaudePane r u a g) (\<lambda>(p, a). act_claude (pnst_activation (pn_status p))) = Some b
   \<Longrightarrow> lookupPane r u \<noteq> None \<and> claudeOf r u = Some b"
  by (auto simp: Option.bind_eq_Some_conv claudeOf_pane dest!: managedClaudePane_lookup ownedClaudePane_lookup)

lemma claim_target:
  "claudeRegistrationClaimTarget r u a g x = Some b \<Longrightarrow> lookupPane r u \<noteq> None \<and> claudeOf r u = Some b \<and> claudeAuthorityValid x"
  by (auto simp: claudeRegistrationClaimTarget_def dest: bound_pane split: option.splits if_splits)

lemma leases_process: "leases (rebinds (BindProcess a g x)) u (RecordClaudeProcess m u a g x)"
  unfolding RecordClaudeProcess_def Let_def
  by (intro leases_getReg lease leasesAt_write) (auto dest!: managedClaudePane_lookup simp: claudeOf_pane)

lemma leases_claim: "leases (rebinds (Claim a g x)) u (BeginClaudeRegistration m u a g x)"
  unfolding BeginClaudeRegistration_def claimClaudeRegistration_def
  by (intro leases_getReg lease leasesAt_write) (auto dest!: claim_target)

lemma leases_claimAfter: "leases (rebinds (ClaimAfter a g prior x)) u (BeginClaudeRegistrationAfter m u a g prior x)"
  unfolding BeginClaudeRegistrationAfter_def claimClaudeRegistration_def Let_def
  by (intro leases_getReg lease leasesAt_write) (auto dest!: claim_target)

lemma leases_record: "leases (rebinds (RecordLease a g x)) u (RecordClaudeRegistration m u a g x)"
  unfolding RecordClaudeRegistration_def Let_def
  by (intro leases_getReg lease leasesAt_write) (auto dest!: bound_pane)

lemma leases_clear: "leases (rebinds (ClearLease a g x)) u (ClearClaudeRegistration m u a g x)"
  unfolding ClearClaudeRegistration_def
  by (intro leases_getReg lease leasesAt_then_return leasesAt_write) (auto dest!: bound_pane)

lemma runClaude_leases: "leases (rebinds c) u (runClaude m (u, c))"
  by (cases c) (simp_all add: leases_process leases_claim leases_claimAfter leases_record
      leases_then_return [OF leases_clear] del: rebinds.simps)

section \<open>Runs of racing helpers\<close>

lemma claudeOf_written:
  "lookupPane r u \<noteq> None \<Longrightarrow>
   claudeOf ((updPane u (setClaude (Some b)) r)\<lparr>r_updated := now\<rparr>) v = (if u = v then Some b else claudeOf r v)"
  by (auto simp: claudeOf_def activationOf_def lookupPane_updPane setClaude_def setActivation_def)

lemma runClaude_step:
  "claudeOf (ms_reg (snd (runClaude m (u, c) s))) v = claudeOf (ms_reg s) v
   \<or> u = v \<and> (\<exists>b. rebinds c (claudeOf (ms_reg s) u) b \<and> claudeOf (ms_reg (snd (runClaude m (u, c) s))) v = Some b)"
  using runClaude_leases [of c u m] unfolding leases_def
  by (metis claudeOf_written)

lemma runClaudes_Nil [simp]: "runClaudes m [] s = s"
  by (simp add: runClaudes_def)

lemma runClaudes_Cons [simp]: "runClaudes m (c # cs) s = runClaudes m cs (snd (runClaude m c s))"
  by (simp add: runClaudes_def)

text \<open>
  What a single call can do to a standing binding: any property of the binding that the relation \<open>rebinds\<close> keeps
  is kept by a run.
\<close>

lemma runClaudes_keep:
  assumes "Q (claudeOf (ms_reg s) u)"
    and "\<And>c old b. (u, c) \<in> set cs \<Longrightarrow> Q old \<Longrightarrow> rebinds c old b \<Longrightarrow> Q (Some b)"
  shows "Q (claudeOf (ms_reg (runClaudes m cs s)) u)"
  using assms
proof (induction cs arbitrary: s)
  case (Cons c cs)
  obtain v d where c: "c = (v, d)" by fastforce
  have "Q (claudeOf (ms_reg (snd (runClaude m c s))) u)"
    using runClaude_step [of m v d s u] Cons.prems unfolding c by (metis list.set_intros(1))
  then have "Q (claudeOf (ms_reg (runClaudes m cs (snd (runClaude m c s)))) u)"
    by (rule Cons.IH) (rule Cons.prems(2), simp_all)
  then show ?case by simp
qed simp

text \<open>A call of a helper other than the one that holds generation \<open>g\<close>, which is not a fresh unconditional claim.\<close>

fun overtaken :: "string \<Rightarrow> claude_call \<Rightarrow> bool" where
  "overtaken gen (BindProcess a g x) \<longleftrightarrow> True"
| "overtaken gen (Claim a g x) \<longleftrightarrow> False"
| "overtaken gen (ClaimAfter a g prior x) \<longleftrightarrow> prior \<noteq> gen"
| "overtaken gen (RecordLease a g x) \<longleftrightarrow> cla_registration (cr_authority x) \<noteq> gen"
| "overtaken gen (ClearLease a g x) \<longleftrightarrow> cla_registration x \<noteq> gen"

lemma overtaken_inert: "overtaken (cb_generation b) c \<Longrightarrow> \<not> rebinds c (Some b) b'"
  by (cases c) auto

fun claims :: "claude_call \<Rightarrow> claude_authority \<Rightarrow> bool" where
  "claims (Claim a g x) y \<longleftrightarrow> x = y"
| "claims (ClaimAfter a g prior x) y \<longleftrightarrow> x = y"
| "claims _ y \<longleftrightarrow> False"

lemma claim_unconditional:
  assumes "BeginClaudeRegistration m u a g x s = (Inr (), s')"
  shows "\<exists>b. claudeOf (ms_reg s') u = Some b \<and> cb_generation b = cla_registration x \<and> cb_session b = cla_session x"
    and "claudeAuthorityValid x"
proof -
  from assms obtain b where b: "claudeRegistrationClaimTarget (ms_reg s) u a g x = Some b"
    and s': "claimClaudeRegistration m u b x s = (Inr (), s')"
    unfolding BeginClaudeRegistration_def getReg_run by (auto simp: run_simps split: option.splits)
  from claim_target [OF b] have p: "lookupPane (ms_reg s) u \<noteq> None" and v: "claudeAuthorityValid x" by simp_all
  from s' obtain now where "ms_reg s' = (updPane u (setClaude (Some (b\<lparr>cb_session := cla_session x,
      cb_generation := cla_registration x, cb_registration := None\<rparr>))) (ms_reg s))\<lparr>r_updated := now\<rparr>"
    by (auto simp: claimClaudeRegistration_def writeClaude_def stamp_def clock_def modReg_def comp_defs split: prod.splits)
  with p show "\<exists>b. claudeOf (ms_reg s') u = Some b \<and> cb_generation b = cla_registration x \<and> cb_session b = cla_session x"
    by (simp add: claudeOf_written)
  show "claudeAuthorityValid x" by (rule v)
qed

lemma claim_after:
  assumes "BeginClaudeRegistrationAfter m u a g prior x s = (Inr (), s')"
  shows "\<exists>b. claudeOf (ms_reg s') u = Some b \<and> cb_generation b = cla_registration x \<and> cb_session b = cla_session x"
    and "claudeAuthorityValid x"
proof -
  from assms obtain b where b: "claudeRegistrationClaimTarget (ms_reg s) u a g x = Some b"
    and s': "cb_generation b = cla_registration x \<and> cb_session b = cla_session x \<and> s' = s
      \<or> claimClaudeRegistration m u b x s = (Inr (), s')"
    unfolding BeginClaudeRegistrationAfter_def Let_def getReg_run by (auto simp: run_simps split: option.splits if_splits)
  from s' show "\<exists>b. claudeOf (ms_reg s') u = Some b \<and> cb_generation b = cla_registration x \<and> cb_session b = cla_session x"
  proof
    assume "claimClaudeRegistration m u b x s = (Inr (), s')"
    with b have "BeginClaudeRegistration m u a g x s = (Inr (), s')"
      by (simp add: BeginClaudeRegistration_def getReg_run)
    then show ?thesis by (rule claim_unconditional)
  qed (use claim_target [OF b] in auto)
  show "claudeAuthorityValid x" using claim_target [OF b] by simp
qed

lemma claim_stands:
  assumes "runClaude m (u, c) s = (Inr (), s')" and "claims c x"
  shows "\<exists>b. claudeOf (ms_reg s') u = Some b \<and> cb_generation b = cla_registration x \<and> cb_session b = cla_session x"
    and "claudeAuthorityValid x"
  using assms by (cases c; simp add: claim_unconditional claim_after)+

lemma claim_binding_stands:
  assumes "runClaude m (u, c) s = (Inr (), s')" and "claims c x"
    and "\<forall>d. (u, d) \<in> set cs \<longrightarrow> overtaken (cla_registration x) d"
  obtains b where "claudeOf (ms_reg s') u = Some b" "claudeOf (ms_reg (runClaudes m cs s')) u = Some b"
    "cb_generation b = cla_registration x" "cb_session b = cla_session x"
proof -
  from claim_stands [OF assms(1,2)] obtain b where b: "claudeOf (ms_reg s') u = Some b"
    "cb_generation b = cla_registration x" "cb_session b = cla_session x" by blast
  have "claudeOf (ms_reg (runClaudes m cs s')) u = Some b"
    by (rule runClaudes_keep [where Q = "\<lambda>y. y = Some b"]) (use b assms(3) in \<open>auto simp: overtaken_inert\<close>)
  with b show ?thesis using that by blast
qed

text \<open>the newest claim stands. After a helper's claim of the registration lease succeeded, no run of calls by
  helpers that are not it (late records, late clears, compare-and-swap claims that observed another generation,
  rebinding the process) changes the Pane's Claude binding, as long as none of them is a new unconditional claim:
  the binding is the one the claim left, with the claimer's generation and session.\<close>

theorem newest_claim_stands:
  assumes "runClaude m (u, c) s = (Inr (), s')" and "claims c x"
    and "\<forall>d. (u, d) \<in> set cs \<longrightarrow> overtaken (cla_registration x) d"
  shows "claudeOf (ms_reg (runClaudes m cs s')) u = claudeOf (ms_reg s') u
    \<and> map_option cb_generation (claudeOf (ms_reg s') u) = Some (cla_registration x)
    \<and> map_option cb_session (claudeOf (ms_reg s') u) = Some (cla_session x)"
  by (rule claim_binding_stands [OF assms]) simp

lemma recorded_token: "claudeAuthorityValid x \<Longrightarrow> cla_session x \<noteq> ''''"
  by (auto simp: claudeAuthorityValid_def ValidCodexIdentityToken_def)

definition registered :: "claude_binding option \<Rightarrow> bool" where
  "registered b \<longleftrightarrow> (case b of None \<Rightarrow> False | Some b \<Rightarrow> cb_session b \<noteq> '''')"

lemma rebinds_registered: "registered old \<Longrightarrow> rebinds c old b \<Longrightarrow> registered (Some b)"
  by (cases c) (auto simp: registered_def recorded_token)

text \<open>a session that registered is never diagnosed as one that never did. Once a claim of the lease succeeded
  on a Pane, whatever the helpers do afterwards, in any order, the classification of that Pane is ready, lost or
  gone, whether its process is alive or not.\<close>

theorem registered_is_never_never_registered:
  assumes "runClaude m (u, c) s = (Inr (), s')" and "claims c x"
    and "lookupPane (ms_reg (runClaudes m cs s')) u = Some p"
  shows "ClassifyClaudeRegistration p alive \<noteq> ClaudeRegistrationNeverStarted"
proof -
  from claim_stands [OF assms(1,2)] have "registered (claudeOf (ms_reg s') u)"
    by (auto simp: registered_def recorded_token)
  then have "registered (claudeOf (ms_reg (runClaudes m cs s')) u)"
    by (rule runClaudes_keep) (rule rebinds_registered)
  then show ?thesis
    by (auto simp: claudeOf_pane [OF assms(3)] registered_def ClassifyClaudeRegistration_def Let_def split: option.splits)
qed

text \<open>A lease is held under the claim it was recorded for, and is ready.\<close>

definition leaseUnderClaim :: "claude_binding option \<Rightarrow> bool" where
  "leaseUnderClaim b \<longleftrightarrow> (case Option.bind b cb_registration of None \<Rightarrow> True
     | Some l \<Rightarrow> map_option cb_generation b = Some (cla_registration (cr_authority l)) \<and> cr_ready l)"

theorem lease_stays_under_its_claim:
  assumes "leaseUnderClaim (claudeOf (ms_reg s) u)"
  shows "leaseUnderClaim (claudeOf (ms_reg (runClaudes m cs s)) u)"
proof (rule runClaudes_keep [where Q = leaseUnderClaim, OF assms])
  fix c old b assume "leaseUnderClaim old" "rebinds c old b"
  then show "leaseUnderClaim (Some b)" by (cases c) (auto simp: leaseUnderClaim_def)
qed

section \<open>A small race\<close>

definition demoIdentity :: "int \<Rightarrow> process_identity" where
  "demoIdentity pid = \<lparr>pi_pid = pid, pi_owner = 0, pi_start = ''t''\<rparr>"

definition demoHelper :: "string \<Rightarrow> int \<Rightarrow> claude_authority" where
  "demoHelper g pid = \<lparr>cla_session = ''c'', cla_process = demoIdentity 2, cla_registration = g, cla_lease = demoIdentity pid\<rparr>"

definition demoBound :: "nat mstate" where
  "demoBound = demoState\<lparr>ms_reg := updPane ''p'' (setActivation (emptyActivation\<lparr>act_generation := ''g'', act_agent := ''a'',
     act_claude := Some \<lparr>cb_process = demoIdentity 2, cb_session = '''', cb_generation = '''', cb_registration = None\<rparr>\<rparr>)) demoRegistry\<rparr>"

definition demoRace :: "(string \<times> claude_call) list" where
  "demoRace = [(''p'', RecordLease ''a'' ''g'' \<lparr>cr_authority = demoHelper ''old'' 3, cr_ready = False\<rparr>),
     (''p'', ClearLease ''a'' ''g'' (demoHelper ''old'' 3)), (''p'', ClaimAfter ''a'' ''g'' '''' (demoHelper ''old'' 3))]"

lemma demo_claimed: "runClaude (demoMutator 9) (''p'', ClaimAfter ''a'' ''g'' '''' (demoHelper ''new'' 4)) demoBound
  = (Inr (), snd (runClaude (demoMutator 9) (''p'', ClaimAfter ''a'' ''g'' '''' (demoHelper ''new'' 4)) demoBound))"
proof -
  have "fst (runClaude (demoMutator 9) (''p'', ClaimAfter ''a'' ''g'' '''' (demoHelper ''new'' 4)) demoBound) = Inr ()" by code_simp
  then show ?thesis by (simp add: prod_eq_iff)
qed

lemma newest_claim_stands_witness:
  "claudeOf (ms_reg (runClaudes (demoMutator 9) demoRace
      (snd (runClaude (demoMutator 9) (''p'', ClaimAfter ''a'' ''g'' '''' (demoHelper ''new'' 4)) demoBound)))) ''p''
    = claudeOf (ms_reg (snd (runClaude (demoMutator 9) (''p'', ClaimAfter ''a'' ''g'' '''' (demoHelper ''new'' 4)) demoBound))) ''p''
   \<and> map_option cb_generation (claudeOf (ms_reg (snd (runClaude (demoMutator 9)
       (''p'', ClaimAfter ''a'' ''g'' '''' (demoHelper ''new'' 4)) demoBound))) ''p'') = Some ''new''"
  using newest_claim_stands [OF demo_claimed, of "demoHelper ''new'' 4" demoRace]
  by (simp add: demoRace_def demoHelper_def)

lemma registered_is_never_never_registered_witness:
  "let s = runClaudes (demoMutator 9) demoRace
      (snd (runClaude (demoMutator 9) (''p'', ClaimAfter ''a'' ''g'' '''' (demoHelper ''new'' 4)) demoBound))
   in lookupPane (ms_reg s) ''p'' \<noteq> None
     \<and> ClassifyClaudeRegistration (the (lookupPane (ms_reg s) ''p'')) True \<noteq> ClaudeRegistrationNeverStarted"
proof -
  let ?s = "runClaudes (demoMutator 9) demoRace
      (snd (runClaude (demoMutator 9) (''p'', ClaimAfter ''a'' ''g'' '''' (demoHelper ''new'' 4)) demoBound))"
  have "map_option pn_uid (lookupPane (ms_reg ?s) ''p'') = Some ''p''" by code_simp
  then obtain p where p: "lookupPane (ms_reg ?s) ''p'' = Some p" by blast
  have "ClassifyClaudeRegistration p True \<noteq> ClaudeRegistrationNeverStarted"
    by (rule registered_is_never_never_registered [OF demo_claimed _ p]) simp
  with p show ?thesis by (simp add: Let_def)
qed

end
