(* ===== verification/Agent_Routes.thy ===== *)
theory Agent_Routes
  imports Claude_Binding
begin

text \<open>
  Routes to an Agent's provider endpoint (\<^verbatim>\<open>agentroute.go\<close>): the sealed union of provider authorities, the
  resolution of a route from Registry evidence, and the route incarnation that durable records carry. The first
  18 bytes of a SHA-256 sum, in hexadecimal, are the parameter \<open>digest\<close>; where a theorem needs it, \<open>digest\<close> is
  assumed injective. The theorems are about what a route names: the exact managed activation, and after a claim
  of the Claude lease only the newest claim.
\<close>

section \<open>Authorities\<close>

record codex_route =
  crt_thread :: string
  crt_authority :: codex_authority

record codex_process_evidence =
  cpe_host :: string
  cpe_pane :: string
  cpe_generation :: string
  cpe_thread :: string
  cpe_connection :: string
  cpe_process :: process_identity
  cpe_host_process :: process_identity

datatype route_authority =
    CodexRouteAuthority codex_route | CodexProcessRoute codex_process_evidence | ClaudeRoute claude_authority

record agent_route =
  ar_agent :: string
  ar_pane :: string
  ar_generation :: string
  ar_authority :: "route_authority option"

definition processEvidenceValid :: "codex_process_evidence \<Rightarrow> bool" where
  "processEvidenceValid e \<longleftrightarrow> cpe_host e \<noteq> '''' \<and> cpe_pane e \<noteq> '''' \<and> cpe_generation e \<noteq> ''''
     \<and> ValidCodexIdentityToken (cpe_thread e) \<and> cpe_connection e \<noteq> '''' \<and> identityProcessValid (cpe_process e)
     \<and> identityProcessValid (cpe_host_process e)"

fun routeProvider :: "route_authority \<Rightarrow> string" where
  "routeProvider (CodexRouteAuthority a) = ''codex''"
| "routeProvider (CodexProcessRoute e) = ''codex''"
| "routeProvider (ClaudeRoute a) = ''claude''"

fun sameAuthority :: "route_authority \<Rightarrow> route_authority option \<Rightarrow> bool" where
  "sameAuthority (CodexRouteAuthority a) (Some (CodexRouteAuthority b)) \<longleftrightarrow>
     crt_thread a \<noteq> '''' \<and> crt_thread a = crt_thread b \<and> authorizes (crt_authority a) (crt_authority b)"
| "sameAuthority (CodexProcessRoute e) (Some (CodexProcessRoute f)) \<longleftrightarrow> processEvidenceValid e \<and> processEvidenceValid f \<and> e = f"
| "sameAuthority (ClaudeRoute a) (Some (ClaudeRoute b)) \<longleftrightarrow> claudeAuthorityValid a \<and> claudeAuthorityValid b \<and> a = b"
| "sameAuthority _ _ \<longleftrightarrow> False"

definition sameRoute :: "agent_route \<Rightarrow> agent_route \<Rightarrow> bool" where
  "sameRoute r other \<longleftrightarrow> ar_agent r \<noteq> '''' \<and> ar_pane r \<noteq> '''' \<and> ar_generation r \<noteq> '''' \<and> ar_agent r = ar_agent other
     \<and> ar_pane r = ar_pane other \<and> ar_generation r = ar_generation other
     \<and> (case ar_authority r of None \<Rightarrow> False | Some a \<Rightarrow> sameAuthority a (ar_authority other))"

section \<open>Incarnations\<close>

definition formatInt :: "int \<Rightarrow> string" where
  "formatInt i = (if i < 0 then CHR ''-'' # formatUint (nat (- i)) else formatUint (nat i))"

fun authorityUsable :: "route_authority \<Rightarrow> bool" where
  "authorityUsable (CodexRouteAuthority a) \<longleftrightarrow> crt_thread a \<noteq> '''' \<and> authorityValid (crt_authority a)"
| "authorityUsable (CodexProcessRoute e) \<longleftrightarrow> processEvidenceValid e"
| "authorityUsable (ClaudeRoute a) \<longleftrightarrow> claudeAuthorityValid a"

fun sessionMaterial :: "route_authority \<Rightarrow> string" where
  "sessionMaterial (CodexRouteAuthority a) = ''codex-session''"
| "sessionMaterial (CodexProcessRoute e) = ''codex-session''"
| "sessionMaterial (ClaudeRoute a) = joinNul [''claude-session'', cla_session a]"

definition identityParts :: "process_identity \<Rightarrow> string list" where
  "identityParts p = [formatInt (pi_pid p), formatUint (unat (pi_owner p)), pi_start p]"

fun fullMaterial :: "route_authority \<Rightarrow> string" where
  "fullMaterial (CodexRouteAuthority a) = joinNul ([''codex'', crt_thread a, ca_domain (crt_authority a),
     ca_generation (crt_authority a), ca_broker (crt_authority a), formatUint (unat (ca_connection (crt_authority a))),
     formatUint (unat (ca_binding (crt_authority a)))])"
| "fullMaterial (CodexProcessRoute e) = joinNul ([''codex-process'', cpe_host e, cpe_generation e, cpe_thread e, cpe_connection e]
     @ identityParts (cpe_process e) @ identityParts (cpe_host_process e))"
| "fullMaterial (ClaudeRoute a) = joinNul ([''claude'', cla_session a] @ identityParts (cla_process a)
     @ [cla_registration a] @ identityParts (cla_lease a))"

definition digested :: "(string \<Rightarrow> string) \<Rightarrow> (route_authority \<Rightarrow> string) \<Rightarrow> agent_route \<Rightarrow> string" where
  "digested digest material r = (case ar_authority r of
     None \<Rightarrow> ''''
   | Some a \<Rightarrow> if \<not> authorityUsable a then '''' else ''route-'' @ digest (material a))"

definition Incarnation :: "(string \<Rightarrow> string) \<Rightarrow> agent_route \<Rightarrow> string" where
  "Incarnation digest = digested digest sessionMaterial"

definition SessionIncarnation :: "(string \<Rightarrow> string) \<Rightarrow> agent_route \<Rightarrow> string" where
  "SessionIncarnation digest = Incarnation digest"

definition FullIncarnation :: "(string \<Rightarrow> string) \<Rightarrow> agent_route \<Rightarrow> string" where
  "FullIncarnation digest = digested digest fullMaterial"

definition AcceptsIncarnation :: "(string \<Rightarrow> string) \<Rightarrow> agent_route \<Rightarrow> string \<Rightarrow> bool" where
  "AcceptsIncarnation digest r value \<longleftrightarrow> value \<noteq> '''' \<and> (value = FullIncarnation digest r \<or> value = Incarnation digest r)"

section \<open>Resolution\<close>

text \<open>A refusal is its reason; the zero route the source returns with it is not represented.\<close>

definition CodexCompositeAuthorityUnavailableReason :: string where
  "CodexCompositeAuthorityUnavailableReason = ''Codex composite authority is unavailable''"

definition ClaudeRegistrationUnavailableReason :: string where
  "ClaudeRegistrationUnavailableReason = ''Claude registration lease is unavailable''"

definition codexRouteAuthority :: "agent \<Rightarrow> pane_activation \<Rightarrow> string + route_authority" where
  "codexRouteAuthority a act = (case (act_codex act, ast_session (a_status a)) of
     (Some b, Some stored) \<Rightarrow> (case (cxb_authority b, sr_codex stored) of
       (Some auth, Some c) \<Rightarrow>
         if \<not> authorityValid auth \<or> cxb_thread b = '''' \<or> sr_provider stored \<noteq> ''codex'' \<or> cxs_thread c \<noteq> cxb_thread b
           \<or> map_option (\<lambda>e. endpointSame e (authorityEndpoint auth)) (cxs_endpoint c) \<noteq> Some True
         then Inl CodexCompositeAuthorityUnavailableReason
         else Inr (CodexRouteAuthority \<lparr>crt_thread = cxb_thread b, crt_authority = auth\<rparr>)
     | _ \<Rightarrow> Inl CodexCompositeAuthorityUnavailableReason)
   | _ \<Rightarrow> Inl CodexCompositeAuthorityUnavailableReason)"

definition claudeRouteAuthority :: "pane_activation \<Rightarrow> string + route_authority" where
  "claudeRouteAuthority act = (case act_claude act of
     None \<Rightarrow> Inl ClaudeRegistrationUnavailableReason
   | Some b \<Rightarrow> (case cb_registration b of
       None \<Rightarrow> Inl ClaudeRegistrationUnavailableReason
     | Some l \<Rightarrow>
         if \<not> claudeAuthorityValid (cr_authority l) \<or> cb_generation b \<noteq> cla_registration (cr_authority l)
           \<or> cb_session b \<noteq> cla_session (cr_authority l) \<or> cb_process b \<noteq> cla_process (cr_authority l) \<or> \<not> cr_ready l
         then Inl ClaudeRegistrationUnavailableReason
         else Inr (ClaudeRoute (cr_authority l))))"

definition resolveAgentRoute :: "registry \<Rightarrow> string \<Rightarrow> bool \<Rightarrow> string + agent_route" where
  "resolveAgentRoute r agentUID requireRuntime = (case lookupAgent r agentUID of
     None \<Rightarrow> Inl ''no current Running Agent activation''
   | Some a \<Rightarrow>
       if ast_phase (a_status a) \<noteq> PhaseRunning \<or> ast_pane (a_status a) = '''' then Inl ''no current Running Agent activation''
       else (case lookupPane r (ast_pane (a_status a)) of
         None \<Rightarrow> Inl ''managed activation ownership mismatch''
       | Some p \<Rightarrow> (let act = pnst_activation (pn_status p) in
           if pns_role (pn_spec p) \<noteq> PaneRoleAgent \<or> om_owner (pn_meta p) \<noteq> Some \<lparr>or_kind = KindAgent, or_uid = agentUID\<rparr>
             \<or> act_agent act \<noteq> agentUID then Inl ''managed activation ownership mismatch''
           else if act_generation act = '''' \<or> (requireRuntime \<and> act_runtime act = '''')
           then Inl ''managed activation identity is incomplete''
           else (let authority = (if as_provider (a_spec a) = ''codex'' then codexRouteAuthority a act
                   else if as_provider (a_spec a) = ''claude'' then claudeRouteAuthority act
                   else Inl ''provider has no endpoint adapter'')
             in map_sum id (\<lambda>auth. \<lparr>ar_agent = agentUID, ar_pane = pn_uid p, ar_generation = act_generation act,
                  ar_authority = Some auth\<rparr>) authority))))"

definition ResolveAgentRoute :: "registry \<Rightarrow> string \<Rightarrow> string + agent_route" where
  "ResolveAgentRoute r agentUID = resolveAgentRoute r agentUID True"

record claude_process_evidence =
  cle_host :: string
  cle_pane :: string
  cle_generation :: string
  cle_session :: string
  cle_process :: process_identity
  cle_host_process :: process_identity
  cle_registration :: claude_registration

definition processClaudeEvidenceMatches :: "process_binding \<Rightarrow> process_activation \<Rightarrow> claude_process_evidence \<Rightarrow> bool" where
  "processClaudeEvidenceMatches b act e \<longleftrightarrow> (let a = cr_authority (cle_registration e) in
     cle_host e = pb_host b \<and> cle_generation e = pb_generation b \<and> cle_process e = pa_child act
     \<and> cle_host_process e = pa_host act \<and> cr_ready (cle_registration e) \<and> claudeAuthorityValid a
     \<and> cla_process a = cle_process e \<and> cla_session a = cle_session e)"

text \<open>The verifier may be missing, which refuses.\<close>

definition verified :: "('e \<Rightarrow> bool) option \<Rightarrow> 'e \<Rightarrow> bool" where
  "verified verify e = (case verify of None \<Rightarrow> False | Some f \<Rightarrow> f e)"

definition ResolveProcessClaudeRoute ::
  "registry \<Rightarrow> string \<Rightarrow> claude_process_evidence \<Rightarrow> (claude_process_evidence \<Rightarrow> bool) option \<Rightarrow> string + agent_route" where
  "ResolveProcessClaudeRoute r agentUID e verify = (let refused = Inl ''process Claude authority is unavailable'' in
     case lookupPane r (cle_pane e) of
       None \<Rightarrow> refused
     | Some p \<Rightarrow> (case act_process (pnst_activation (pn_status p)) of
         None \<Rightarrow> refused
       | Some recorded \<Rightarrow> (case (CurrentProcessActivation r (pa_binding recorded), lookupAgent r agentUID) of
           (Some (act, provider), Some a) \<Rightarrow>
             if provider \<noteq> ''claude'' \<or> ast_phase (a_status a) \<noteq> PhaseRunning \<or> pb_agent (pa_binding recorded) \<noteq> agentUID
               \<or> \<not> processClaudeEvidenceMatches (pa_binding recorded) act e
               \<or> \<not> processClaudeSessionMatches (pnst_process (pn_status p)) (pa_binding recorded) (cle_session e) False
               \<or> \<not> verified verify e then refused
             else Inr \<lparr>ar_agent = agentUID, ar_pane = cle_pane e, ar_generation = cle_generation e,
                    ar_authority = Some (ClaudeRoute (cr_authority (cle_registration e)))\<rparr>
         | _ \<Rightarrow> refused)))"

definition ResolveProcessCodexRoute ::
  "registry \<Rightarrow> string \<Rightarrow> codex_process_evidence \<Rightarrow> (codex_process_evidence \<Rightarrow> bool) option \<Rightarrow> string + agent_route" where
  "ResolveProcessCodexRoute r agentUID e verify = (let refused = Inl ''process Codex authority is unavailable'' in
     case lookupPane r (cpe_pane e) of
       None \<Rightarrow> refused
     | Some p \<Rightarrow> (case act_process (pnst_activation (pn_status p)) of
         None \<Rightarrow> refused
       | Some recorded \<Rightarrow> (case (CurrentProcessActivation r (pa_binding recorded), lookupAgent r agentUID) of
           (Some (act, provider), Some a) \<Rightarrow>
             if \<not> processEvidenceValid e \<or> provider \<noteq> ''codex'' \<or> ast_phase (a_status a) \<noteq> PhaseRunning
               \<or> pb_agent (pa_binding recorded) \<noteq> agentUID
               \<or> \<lparr>cpe_host = pb_host (pa_binding recorded), cpe_pane = pb_pane (pa_binding recorded),
                   cpe_generation = pb_generation (pa_binding recorded), cpe_thread = cpe_thread e,
                   cpe_connection = pb_operation (pa_binding recorded), cpe_process = pa_child act,
                   cpe_host_process = pa_host act\<rparr> \<noteq> e
               \<or> \<not> processActivationSessionMatches (pnst_process (pn_status p)) (pa_binding recorded) ''codex'' (cpe_thread e) False
               \<or> \<not> verified verify e then refused
             else Inr \<lparr>ar_agent = agentUID, ar_pane = cpe_pane e, ar_generation = cpe_generation e,
                    ar_authority = Some (CodexProcessRoute e)\<rparr>
         | _ \<Rightarrow> refused)))"

section \<open>What a resolved route names\<close>

lemma resolved:
  assumes "ResolveAgentRoute r u = Inr route"
  obtains a p auth where "lookupAgent r u = Some a" "ast_phase (a_status a) = PhaseRunning" "ast_pane (a_status a) \<noteq> ''''"
    "lookupPane r (ast_pane (a_status a)) = Some p" "pns_role (pn_spec p) = PaneRoleAgent"
    "om_owner (pn_meta p) = Some \<lparr>or_kind = KindAgent, or_uid = u\<rparr>" "act_agent (pnst_activation (pn_status p)) = u"
    "act_generation (pnst_activation (pn_status p)) \<noteq> ''''" "act_runtime (pnst_activation (pn_status p)) \<noteq> ''''"
    "route = \<lparr>ar_agent = u, ar_pane = pn_uid p, ar_generation = act_generation (pnst_activation (pn_status p)), ar_authority = Some auth\<rparr>"
    "as_provider (a_spec a) = ''codex'' \<and> codexRouteAuthority a (pnst_activation (pn_status p)) = Inr auth
     \<or> as_provider (a_spec a) = ''claude'' \<and> claudeRouteAuthority (pnst_activation (pn_status p)) = Inr auth"
proof -
  have m: "map_sum id f x = Inr y \<longleftrightarrow> (\<exists>z. x = Inr z \<and> f z = y)" for f :: "route_authority \<Rightarrow> agent_route" and x :: "string + route_authority" and y
    by (cases x) auto
  from assms show ?thesis
    unfolding ResolveAgentRoute_def resolveAgentRoute_def Let_def
    by (auto simp: m split: option.splits if_splits intro: that)
qed

lemma codexRouteAuthority_usable:
  "codexRouteAuthority a act = Inr auth \<Longrightarrow> authorityUsable auth \<and> routeProvider auth = ''codex''"
  by (auto simp: codexRouteAuthority_def split: option.splits if_splits)

lemma claudeRouteAuthority_usable:
  "claudeRouteAuthority act = Inr auth \<Longrightarrow> authorityUsable auth \<and> routeProvider auth = ''claude''"
  by (auto simp: claudeRouteAuthority_def split: option.splits if_splits)

lemma sameAuthority_refl: "sameAuthority a (Some a) \<longleftrightarrow> authorityUsable a"
  by (cases a) (auto simp: authorizes_def)

text \<open>a resolved route names one exact managed activation. \<open>ResolveAgentRoute\<close> answers only for a Running Agent
  whose managed Pane it owns both ways, with the Pane's current generation and a live runtime; the authority is
  usable and of the Agent's own provider, the route is the same as itself, and its incarnation is one its readers
  accept.\<close>

theorem resolved_route_is_exact:
  assumes "ResolveAgentRoute r u = Inr route" and "u \<noteq> ''''"
  shows "\<exists>a p. lookupAgent r u = Some a \<and> ast_phase (a_status a) = PhaseRunning \<and> ast_pane (a_status a) = ar_pane route
     \<and> lookupPane r (ar_pane route) = Some p \<and> OwnerUID (pn_meta p) = u \<and> pns_role (pn_spec p) = PaneRoleAgent
     \<and> ar_generation route = act_generation (pnst_activation (pn_status p)) \<and> act_runtime (pnst_activation (pn_status p)) \<noteq> ''''
     \<and> map_option routeProvider (ar_authority route) = Some (as_provider (a_spec a))
     \<and> sameRoute route route \<and> AcceptsIncarnation digest route (Incarnation digest route)"
proof (rule resolved [OF assms(1)])
  fix a p auth
  assume f: "lookupAgent r u = Some a" "ast_phase (a_status a) = PhaseRunning" "ast_pane (a_status a) \<noteq> ''''"
    "lookupPane r (ast_pane (a_status a)) = Some p" "pns_role (pn_spec p) = PaneRoleAgent"
    "om_owner (pn_meta p) = Some \<lparr>or_kind = KindAgent, or_uid = u\<rparr>" "act_generation (pnst_activation (pn_status p)) \<noteq> ''''"
    "act_runtime (pnst_activation (pn_status p)) \<noteq> ''''"
    "route = \<lparr>ar_agent = u, ar_pane = pn_uid p, ar_generation = act_generation (pnst_activation (pn_status p)), ar_authority = Some auth\<rparr>"
  assume au: "as_provider (a_spec a) = ''codex'' \<and> codexRouteAuthority a (pnst_activation (pn_status p)) = Inr auth
     \<or> as_provider (a_spec a) = ''claude'' \<and> claudeRouteAuthority (pnst_activation (pn_status p)) = Inr auth"
  have p: "pn_uid p = ast_pane (a_status a)" using lookup_Some(4) [OF f(4)] by simp
  have us: "authorityUsable auth" "routeProvider auth = as_provider (a_spec a)"
    using au codexRouteAuthority_usable claudeRouteAuthority_usable by metis+
  have "sameRoute route route" using f us assms(2) by (simp add: sameRoute_def p sameAuthority_refl)
  moreover have "AcceptsIncarnation digest route (Incarnation digest route)"
    using us by (simp add: AcceptsIncarnation_def Incarnation_def digested_def f(9))
  ultimately show ?thesis using f us by (simp add: p OwnerUID_def)
qed

section \<open>Routes and the newest claim\<close>

text \<open>no route leads to an overtaken helper. After a claim of a Claude lease succeeded on a Pane, whatever late
  calls of other helpers follow, every route that resolves to that Pane carries the registration generation and the
  session of the newest claim; a helper whose claim was overtaken is never routed to again.\<close>

theorem routes_follow_the_newest_claim:
  assumes "runClaude m (u, c) s = (Inr (), s')" and "claims c x"
    and "\<forall>d. (u, d) \<in> set cs \<longrightarrow> overtaken (cla_registration x) d"
    and "ResolveAgentRoute (ms_reg (runClaudes m cs s')) v = Inr route" and "ar_pane route = u"
    and "ar_authority route = Some (ClaudeRoute y)"
  shows "cla_registration y = cla_registration x \<and> cla_session y = cla_session x"
proof (rule resolved [OF assms(4)])
  fix a p auth
  let ?r = "ms_reg (runClaudes m cs s')"
  assume p: "lookupPane ?r (ast_pane (a_status a)) = Some p"
    and route: "route = \<lparr>ar_agent = v, ar_pane = pn_uid p, ar_generation = act_generation (pnst_activation (pn_status p)), ar_authority = Some auth\<rparr>"
    and au: "as_provider (a_spec a) = ''codex'' \<and> codexRouteAuthority a (pnst_activation (pn_status p)) = Inr auth
     \<or> as_provider (a_spec a) = ''claude'' \<and> claudeRouteAuthority (pnst_activation (pn_status p)) = Inr auth"
  have auth: "auth = ClaudeRoute y" and u: "pn_uid p = u" using assms(5,6) route by auto
  have "ast_pane (a_status a) = u" using lookup_Some(4) [OF p] u by simp
  with p have b: "claudeOf ?r u = act_claude (pnst_activation (pn_status p))" by (simp add: claudeOf_pane)
  obtain b where c: "claudeOf ?r u = Some b" "cb_generation b = cla_registration x" "cb_session b = cla_session x"
    by (rule claim_binding_stands [OF assms(1-3)])
  have "claudeRouteAuthority (pnst_activation (pn_status p)) = Inr (ClaudeRoute y)"
    using au codexRouteAuthority_usable by (fastforce simp: auth)
  with b c show ?thesis by (auto simp: claudeRouteAuthority_def split: option.splits if_splits)
qed

section \<open>Incarnations\<close>

text \<open>What an incarnation follows: the Claude session, and for Codex nothing.\<close>

fun conversationOf :: "route_authority \<Rightarrow> string option" where
  "conversationOf (ClaudeRoute a) = Some (cla_session a)"
| "conversationOf _ = None"

lemma sessionMaterial_inj: "sessionMaterial a = sessionMaterial b \<longleftrightarrow> conversationOf a = conversationOf b"
  by (cases a; cases b) auto

lemma fullMaterial_apart: "fullMaterial a \<noteq> sessionMaterial b"
  by (cases a; cases b) (auto simp: identityParts_def)

lemma formatInt_inj: "0 < i \<Longrightarrow> 0 < j \<Longrightarrow> formatInt i = formatInt j \<Longrightarrow> i = j"
  by (metis formatInt_def int_nat_eq not_less_iff_gr_or_eq order_less_imp_le parse_format)

lemma identity_no_nul: "identityProcessValid p \<Longrightarrow> \<forall>s \<in> set (identityParts p). CHR 0x00 \<notin> set s"
  by (auto simp: identityParts_def formatInt_def formatUint_no_nul identityProcessValid_def list_all_iff)

lemma identityParts_inj: "identityProcessValid p \<Longrightarrow> identityProcessValid q \<Longrightarrow> identityParts p = identityParts q \<Longrightarrow> p = q"
  by (cases p, cases q) (auto simp: identityParts_def identityProcessValid_def dest: formatInt_inj, metis parse_format word_unat_eq_iff)

lemma claudeMaterial_inj:
  assumes "fullMaterial (ClaudeRoute a) = fullMaterial (ClaudeRoute b)" and "claudeAuthorityValid a" and "claudeAuthorityValid b"
  shows "a = b"
proof -
  let ?parts = "\<lambda>a. [''claude'', cla_session a] @ identityParts (cla_process a) @ [cla_registration a] @ identityParts (cla_lease a)"
  have nul: "\<forall>s \<in> set (?parts a). CHR 0x00 \<notin> set s" if "claudeAuthorityValid a" for a
    using that identity_no_nul token_no_nul by (auto simp: claudeAuthorityValid_def)
  have "?parts a = ?parts b"
    using assms(1) nul [OF assms(2)] nul [OF assms(3)] by (intro joinNul_inj) (simp_all add: identityParts_def)
  then have "cla_session a = cla_session b" "identityParts (cla_process a) = identityParts (cla_process b)"
    "cla_registration a = cla_registration b" "identityParts (cla_lease a) = identityParts (cla_lease b)"
    by (simp_all add: identityParts_def)
  moreover from this assms(2,3) have "cla_process a = cla_process b" "cla_lease a = cla_lease b"
    by (simp_all add: claudeAuthorityValid_def identityParts_inj)
  ultimately show ?thesis by (cases a, cases b) simp
qed

text \<open>an incarnation follows the conversation and not the helper. When the digest has no collision, two usable
  routes carry the same incarnation exactly when they belong to the same conversation, whatever process or
  registration serves it; a reader accepts the other's incarnation in just that case; the full-authority value of
  older records is never taken for an incarnation; and two Claude routes share that older value only if they are
  one authority.\<close>

theorem incarnation_follows_the_conversation:
  assumes "inj digest" and "ar_authority r = Some a" and "ar_authority q = Some b"
    and "authorityUsable a" and "authorityUsable b"
  shows "(Incarnation digest r = Incarnation digest q \<longleftrightarrow> conversationOf a = conversationOf b)
    \<and> (AcceptsIncarnation digest r (Incarnation digest q) \<longleftrightarrow> conversationOf a = conversationOf b)
    \<and> FullIncarnation digest r \<noteq> Incarnation digest q
    \<and> (\<forall>x y. a = ClaudeRoute x \<and> b = ClaudeRoute y \<longrightarrow> (FullIncarnation digest r = FullIncarnation digest q \<longleftrightarrow> x = y))"
proof -
  have v: "Incarnation digest r = ''route-'' @ digest (sessionMaterial a)" "Incarnation digest q = ''route-'' @ digest (sessionMaterial b)"
    "FullIncarnation digest r = ''route-'' @ digest (fullMaterial a)" "FullIncarnation digest q = ''route-'' @ digest (fullMaterial b)"
    using assms(2-5) by (simp_all add: Incarnation_def FullIncarnation_def digested_def)
  have d: "digest x = digest y \<longleftrightarrow> x = y" for x y using assms(1) by (auto dest: injD)
  have "x = y" if "fullMaterial (ClaudeRoute x) = fullMaterial (ClaudeRoute y)" "a = ClaudeRoute x" "b = ClaudeRoute y" for x y
    using claudeMaterial_inj [OF that(1)] that assms(4,5) by simp
  moreover have "fullMaterial a \<noteq> sessionMaterial b" by (rule fullMaterial_apart)
  moreover have "sessionMaterial b \<noteq> fullMaterial a" by (rule fullMaterial_apart [symmetric])
  ultimately show ?thesis
    by (auto simp: v d AcceptsIncarnation_def sessionMaterial_inj)
qed

section \<open>A small route\<close>

definition demoLease :: "string \<Rightarrow> int \<Rightarrow> nat mstate" where
  "demoLease g pid = demoState\<lparr>ms_reg := updPane ''p'' (setActivation (emptyActivation\<lparr>act_generation := ''g'', act_runtime := ''r'',
     act_agent := ''a'', act_claude := Some \<lparr>cb_process = demoIdentity 2, cb_session = ''c'', cb_generation = g,
       cb_registration = Some \<lparr>cr_authority = demoHelper g pid, cr_ready = True\<rparr>\<rparr>\<rparr>)) demoRegistry\<rparr>"

definition demoRoute :: "string \<Rightarrow> int \<Rightarrow> agent_route" where
  "demoRoute g pid = \<lparr>ar_agent = ''a'', ar_pane = ''p'', ar_generation = ''g'', ar_authority = Some (ClaudeRoute (demoHelper g pid))\<rparr>"

lemma demoRoute_resolved: "ResolveAgentRoute (ms_reg (demoLease ''new'' 4)) ''a'' = Inr (demoRoute ''new'' 4)"
  by code_simp

lemma resolved_route_is_exact_witness:
  "\<exists>a p. lookupAgent (ms_reg (demoLease ''new'' 4)) ''a'' = Some a \<and> lookupPane (ms_reg (demoLease ''new'' 4)) ''p'' = Some p
     \<and> as_provider (a_spec a) = ''claude'' \<and> OwnerUID (pn_meta p) = ''a''"
  using resolved_route_is_exact [OF demoRoute_resolved, of "\<lambda>x. x"] by (simp add: demoRoute_def) auto

text \<open>The lease is claimed, recorded, and then attacked by a helper that was overtaken.\<close>

definition demoClaimed :: "nat mstate" where
  "demoClaimed = snd (runClaude (demoMutator 9) (''p'', Claim ''a'' ''g'' (demoHelper ''new'' 4)) (demoLease ''old'' 3))"

definition demoAttack :: "(string \<times> claude_call) list" where
  "demoAttack = [(''p'', ClearLease ''a'' ''g'' (demoHelper ''old'' 3)), (''p'', ClaimAfter ''a'' ''g'' '''' (demoHelper ''old'' 3))]"

text \<open>Before the new helper recorded its lease nothing resolves; the old lease does not.\<close>

lemma claimed_is_not_routed: "ResolveAgentRoute (ms_reg (runClaudes (demoMutator 9) demoAttack demoClaimed)) ''a''
    = Inl ClaudeRegistrationUnavailableReason"
  by code_simp

lemma routes_follow_the_newest_claim_witness:
  "ResolveAgentRoute (ms_reg (runClaudes (demoMutator 9) demoAttack (demoLease ''new'' 4))) ''a'' = Inr (demoRoute ''new'' 4)
   \<and> cla_registration (demoHelper ''new'' 4) = ''new'' \<and> cla_session (demoHelper ''new'' 4) = ''c''"
proof
  have "fst (runClaude (demoMutator 9) (''p'', ClaimAfter ''a'' ''g'' ''old'' (demoHelper ''new'' 4)) (demoLease ''new'' 4)) = Inr ()"
    "snd (runClaude (demoMutator 9) (''p'', ClaimAfter ''a'' ''g'' ''old'' (demoHelper ''new'' 4)) (demoLease ''new'' 4)) = demoLease ''new'' 4"
    by (code_simp)+
  then have run: "runClaude (demoMutator 9) (''p'', ClaimAfter ''a'' ''g'' ''old'' (demoHelper ''new'' 4)) (demoLease ''new'' 4)
      = (Inr (), demoLease ''new'' 4)" by (simp add: prod_eq_iff)
  show r: "ResolveAgentRoute (ms_reg (runClaudes (demoMutator 9) demoAttack (demoLease ''new'' 4))) ''a'' = Inr (demoRoute ''new'' 4)"
    by code_simp
  have o': "\<forall>d. (''p'', d) \<in> set demoAttack \<longrightarrow> overtaken (cla_registration (demoHelper ''new'' 4)) d"
    by (simp add: demoAttack_def demoHelper_def)
  have "cla_registration (demoHelper ''new'' 4) = cla_registration (demoHelper ''new'' 4)
      \<and> cla_session (demoHelper ''new'' 4) = cla_session (demoHelper ''new'' 4)"
    by (rule routes_follow_the_newest_claim [OF run _ o' r]) (simp_all add: demoRoute_def)
  then show "cla_registration (demoHelper ''new'' 4) = ''new'' \<and> cla_session (demoHelper ''new'' 4) = ''c''"
    by (simp add: demoHelper_def)
qed

lemma incarnation_follows_the_conversation_witness:
  "Incarnation (\<lambda>x. x) (demoRoute ''old'' 3) = Incarnation (\<lambda>x. x) (demoRoute ''new'' 4)
   \<and> FullIncarnation (\<lambda>x. x) (demoRoute ''old'' 3) \<noteq> FullIncarnation (\<lambda>x. x) (demoRoute ''new'' 4)"
proof -
  have v: "authorityUsable (ClaudeRoute (demoHelper ''old'' 3))" "authorityUsable (ClaudeRoute (demoHelper ''new'' 4))" by code_simp+
  have i: "inj (\<lambda>x::string. x)" by (simp add: inj_on_def)
  from incarnation_follows_the_conversation [OF i, of "demoRoute ''old'' 3" "ClaudeRoute (demoHelper ''old'' 3)" "demoRoute ''new'' 4"
      "ClaudeRoute (demoHelper ''new'' 4)"] v
  show ?thesis by (simp add: demoRoute_def demoHelper_def)
qed

end
