(* ===== verification/Agent_Settings.thy ===== *)
theory Agent_Settings
  imports Validation Agents
begin

text \<open>
  The writers of \<^verbatim>\<open>interaction.go\<close> and \<^verbatim>\<open>progress.go\<close>: the interaction and activation observations of an Agent, its
  progress, and the settings a launch records in its annotations (persona, profile, effort, model, guidance and
  link-rule digests, the question channel and the reply-only mode). An annotation map is a finite map; a nil
  and an empty Go map are one value, and reading a missing key gives the empty string.
\<close>

section \<open>The keys\<close>

definition AnnotationAgentTopic :: string where "AnnotationAgentTopic = ''projmux.io/agent-topic''"
definition AnnotationAgentPersona :: string where "AnnotationAgentPersona = ''projmux.io/persona''"
definition AnnotationAgentPersonaDigest :: string where "AnnotationAgentPersonaDigest = ''projmux.io/persona-digest''"
definition AnnotationAgentProfile :: string where "AnnotationAgentProfile = ''projmux.io/profile''"
definition AnnotationAgentProfileDigest :: string where "AnnotationAgentProfileDigest = ''projmux.io/profile-digest''"
definition AnnotationAgentSystemPromptSnapshot :: string where
  "AnnotationAgentSystemPromptSnapshot = ''projmux.io/system-prompt-snapshot''"
definition AnnotationAgentEffort :: string where "AnnotationAgentEffort = ''projmux.io/effort''"
definition AnnotationAgentModel :: string where "AnnotationAgentModel = ''projmux.io/model''"
definition AnnotationAgentProfileSource :: string where "AnnotationAgentProfileSource = ''projmux.io/profile-source''"
definition AnnotationAgentInstructionsSource :: string where
  "AnnotationAgentInstructionsSource = ''projmux.io/instructions-source''"
definition AnnotationAgentModelSource :: string where "AnnotationAgentModelSource = ''projmux.io/model-source''"
definition AnnotationAgentEffortSource :: string where "AnnotationAgentEffortSource = ''projmux.io/effort-source''"
definition AnnotationAgentProjectLinkRulesDigest :: string where
  "AnnotationAgentProjectLinkRulesDigest = ''projmux.io/project-link-rules-digest''"
definition AnnotationAgentGuidanceDigest :: string where "AnnotationAgentGuidanceDigest = ''projmux.io/agent-guidance-digest''"
definition AnnotationAgentQuestionChannel :: string where "AnnotationAgentQuestionChannel = ''projmux.io/question-channel''"
definition AnnotationAgentDialogueReplyOnly :: string where
  "AnnotationAgentDialogueReplyOnly = ''projmux.io/dialogue-reply-only''"
definition AnnotationAgentProjectGuidanceDigest :: string where
  "AnnotationAgentProjectGuidanceDigest = ''projmux.io/project-guidance-digest''"

lemmas annotation_keys = AnnotationAgentTopic_def AnnotationAgentPersona_def AnnotationAgentPersonaDigest_def
  AnnotationAgentProfile_def AnnotationAgentProfileDigest_def AnnotationAgentSystemPromptSnapshot_def
  AnnotationAgentEffort_def AnnotationAgentModel_def AnnotationAgentProfileSource_def AnnotationAgentInstructionsSource_def
  AnnotationAgentModelSource_def AnnotationAgentEffortSource_def AnnotationAgentProjectLinkRulesDigest_def
  AnnotationAgentGuidanceDigest_def AnnotationAgentQuestionChannel_def AnnotationAgentDialogueReplyOnly_def
  AnnotationAgentProjectGuidanceDigest_def

definition settingOn :: string where "settingOn = ''on''"
definition SystemPromptSnapshotOff :: string where "SystemPromptSnapshotOff = ''off''"
definition SettingSourceProfile :: string where "SettingSourceProfile = ''profile''"

definition ValidProfileSource :: "string \<Rightarrow> bool" where
  "ValidProfileSource source \<longleftrightarrow> source \<in> {''flag'', ''role'', ''inherited'', ''relaunch''}"

definition ValidSettingSource :: "string \<Rightarrow> bool" where
  "ValidSettingSource source \<longleftrightarrow>
     source \<in> {''profile'', ''flag'', ''resume'', ''relaunch'', ''attach'', ''inherited''}"

section \<open>One Agent at a time\<close>

definition ann :: "agent \<Rightarrow> string \<Rightarrow> string" where
  "ann a k = (case fmlookup (om_annotations (a_meta a)) k of None \<Rightarrow> '''' | Some v \<Rightarrow> v)"

definition hasAnn :: "agent \<Rightarrow> string \<Rightarrow> bool" where
  "hasAnn a k \<longleftrightarrow> fmlookup (om_annotations (a_meta a)) k \<noteq> None"

text \<open>An empty value removes the key.\<close>

definition putAnn :: "string \<times> string \<Rightarrow> agent \<Rightarrow> agent" where
  "putAnn kv a = a\<lparr>a_meta := (a_meta a)\<lparr>om_annotations :=
     (if snd kv = '''' then fmdrop (fst kv) else fmupd (fst kv) (snd kv)) (om_annotations (a_meta a))\<rparr>\<rparr>"

definition withAgent :: "string \<Rightarrow> string \<Rightarrow> (agent \<Rightarrow> ('w mstate, 'a) comp) \<Rightarrow> ('w mstate, 'a) comp" where
  "withAgent op uid f = andThen getReg (\<lambda>r. case lookupAgent r uid of
     None \<Rightarrow> throw (stateErr op ErrNotFound) | Some a \<Rightarrow> f a)"

definition writeAgent :: "'w mutator \<Rightarrow> string \<Rightarrow> (agent \<Rightarrow> agent) \<Rightarrow> agent \<Rightarrow> ('w mstate, agent) comp" where
  "writeAgent m uid f a = andThen (modReg (updAgent uid f)) (\<lambda>_. andThen (stamp m) (\<lambda>_. return (f a)))"

section \<open>Interaction and activation\<close>

definition AgentInteractionFreshFor :: time where
  "AgentInteractionFreshFor = 30 * 60 * 1000000000"

definition unknownInteraction :: interaction where
  "unknownInteraction = \<lparr>i_kind = InteractionUnknown, i_observed = zeroTime, i_source = ''''\<rparr>"

definition EffectiveInteraction :: "agent \<Rightarrow> time \<Rightarrow> interaction" where
  "EffectiveInteraction a now = (let observed = ast_interaction (a_status a) in
     if ast_phase (a_status a) \<noteq> PhaseRunning \<or> trimSpace (ast_pane (a_status a)) = '''' then unknownInteraction
     else if \<not> ValidAgentInteractionKind (i_kind observed) \<or> i_kind observed = InteractionUnknown then unknownInteraction
     else if timeIsZero (i_observed observed)
       \<or> (\<not> timeIsZero now \<and> now - i_observed observed > AgentInteractionFreshFor) then unknownInteraction
     else observed)"

definition SetAgentInteraction ::
  "'w mutator \<Rightarrow> string \<Rightarrow> interaction_kind \<Rightarrow> string \<Rightarrow> ('w mstate, agent) comp" where
  "SetAgentInteraction m uid k source0 = (let op = ''set agent interaction''; source = trimSpace source0 in
     withAgent op uid (\<lambda>a.
       if \<not> ValidAgentInteractionKind k then throw (inputErr op ErrInvalidPhase)
       else if \<not> ValidAgentInteractionSource source then throw (inputErr op ErrInvalidPhase)
       else andThen (clock m) (\<lambda>now.
         let f = (\<lambda>a. a\<lparr>a_status := (a_status a)\<lparr>ast_interaction := \<lparr>i_kind = k, i_observed = now, i_source = source\<rparr>\<rparr>\<rparr>)
         in andThen (modReg (\<lambda>r. (updAgent uid f r)\<lparr>r_updated := now\<rparr>)) (\<lambda>_. return (f a)))))"

definition validAgentActivationTransition :: "activation_state \<Rightarrow> activation_state \<Rightarrow> bool" where
  "validAgentActivationTransition from to \<longleftrightarrow> from = to
     \<or> (from = ActivationPending \<and> (to = ActivationUnconfirmed \<or> to = ActivationAcknowledged))
     \<or> (from = ActivationUnconfirmed \<and> to = ActivationAcknowledged)"

definition currentActivation :: "agent \<Rightarrow> activation_state" where
  "currentActivation a = (let st = av_state (ast_activation (a_status a)) in
     if st = ActivationUnset then ActivationNotRequested else st)"

definition setActivationOf :: "activation \<Rightarrow> agent \<Rightarrow> agent" where
  "setActivationOf v a = a\<lparr>a_status := (a_status a)\<lparr>ast_activation := v\<rparr>\<rparr>"

definition SetAgentActivation ::
  "'w mutator \<Rightarrow> string \<Rightarrow> activation_state \<Rightarrow> string \<Rightarrow> string \<Rightarrow> ('w mstate, agent) comp" where
  "SetAgentActivation m uid state source0 reason0 = (let op = ''set agent activation''; source = trimSpace source0;
       reason = trimSpace reason0 in withAgent op uid (\<lambda>a.
     if state \<notin> {ActivationNotRequested, ActivationPending, ActivationAcknowledged, ActivationUnconfirmed}
     then throw (inputErr op ErrInvalidPhase)
     else if source \<notin> {'''', ''provider-hook'', ''provider-control-plane''} then throw (inputErr op ErrInvalidPhase)
     else if \<not> ValidAgentActivationReason reason then throw (inputErr op ErrInvalidPhase)
     else if \<not> validAgentActivationTransition (currentActivation a) state then return a
     else andThen (clock m) (\<lambda>now.
       let f = setActivationOf \<lparr>av_state = state, av_observed = now, av_source = source, av_reason = reason\<rparr>
       in andThen (modReg (\<lambda>r. (updAgent uid f r)\<lparr>r_updated := now\<rparr>)) (\<lambda>_. return (f a)))))"

section \<open>Progress\<close>

definition setProgress :: "progress \<Rightarrow> agent \<Rightarrow> agent" where
  "setProgress p a = a\<lparr>a_status := (a_status a)\<lparr>ast_progress := p\<rparr>\<rparr>"

text \<open>The turn of the exact binding is read off the Agent's Pane; an empty projection only clears.\<close>

definition SetAgentProgress ::
  "'w mutator \<Rightarrow> string \<Rightarrow> string \<Rightarrow> progress \<Rightarrow> ('w mstate, agent \<times> bool) comp" where
  "SetAgentProgress m uid turn0 progress0 = (let op = ''set agent progress''; turn = trimSpace turn0 in
     withAgent op uid (\<lambda>a.
       if progressIsZero progress0 then
         (if progressIsZero (ast_progress (a_status a)) then return (a, False)
          else andThen (writeAgent m uid (setProgress emptyProgress) a) (\<lambda>a'. return (a', True)))
       else (let p = progress0\<lparr>pg_turn := trimSpace (pg_turn progress0)\<rparr> in
         if turn = '''' \<or> pg_turn p \<noteq> turn then throw (stateErr op ErrInvalidRegistry)
         else andThen getReg (\<lambda>r.
           if (case lookupPane r (ast_pane (a_status a)) of
                 None \<Rightarrow> True
               | Some pane \<Rightarrow> (case act_codex (pnst_activation (pn_status pane)) of
                   None \<Rightarrow> True | Some b \<Rightarrow> trimSpace (cxb_turn b) \<noteq> turn))
           then throw (stateErr op ErrInvalidRegistry)
           else andThen (liftE (validateAgentProgress op (setProgress p a))) (\<lambda>_.
             if ast_progress (a_status a) = p then return (a, False)
             else andThen (writeAgent m uid (setProgress p) a) (\<lambda>a'. return (a', True)))))))"

section \<open>Single annotations\<close>

definition SetAgentTopic :: "'w mutator \<Rightarrow> string \<Rightarrow> string \<Rightarrow> ('w mstate, agent) comp" where
  "SetAgentTopic m uid topic = withAgent ''set agent topic'' uid
     (writeAgent m uid (putAnn (AnnotationAgentTopic, trimSpace topic)))"

definition QuestionChannelEnabled :: "agent \<Rightarrow> bool" where
  "QuestionChannelEnabled a \<longleftrightarrow> ann a AnnotationAgentQuestionChannel = settingOn"

definition SetAgentQuestionChannel :: "'w mutator \<Rightarrow> string \<Rightarrow> bool \<Rightarrow> ('w mstate, agent) comp" where
  "SetAgentQuestionChannel m uid on = withAgent ''set agent question channel'' uid
     (writeAgent m uid (putAnn (AnnotationAgentQuestionChannel, if on then settingOn else '''')))"

definition RecordsDialogueReplyOnly :: "agent \<Rightarrow> bool" where
  "RecordsDialogueReplyOnly a \<longleftrightarrow> ann a AnnotationAgentDialogueReplyOnly = settingOn"

definition SetAgentDialogueReplyOnly :: "'w mutator \<Rightarrow> string \<Rightarrow> ('w mstate, agent) comp" where
  "SetAgentDialogueReplyOnly m uid = withAgent ''set agent dialogue reply-only'' uid (\<lambda>a.
     if RecordsDialogueReplyOnly a then return a
     else writeAgent m uid (putAnn (AnnotationAgentDialogueReplyOnly, settingOn)) a)"

section \<open>Persona and profile\<close>

record persona_annotations =
  pa_persona :: string
  pa_digest :: string
  pa_snapshot :: string
  pa_source :: string

definition SameLaunch :: "persona_annotations \<Rightarrow> persona_annotations \<Rightarrow> bool" where
  "SameLaunch a b \<longleftrightarrow> a\<lparr>pa_source := ''''\<rparr> = b\<lparr>pa_source := ''''\<rparr>"

definition PersonaAnnotationsOf :: "agent \<Rightarrow> persona_annotations" where
  "PersonaAnnotationsOf a = \<lparr>pa_persona = ann a AnnotationAgentPersona, pa_digest = ann a AnnotationAgentPersonaDigest,
     pa_snapshot = ann a AnnotationAgentSystemPromptSnapshot, pa_source = ann a AnnotationAgentInstructionsSource\<rparr>"

text \<open>The keys a write names are distinct, so the order in which Go visits the map does not matter.\<close>

definition putAnns :: "(string \<times> string) list \<Rightarrow> agent \<Rightarrow> agent" where
  "putAnns kvs a = fold putAnn kvs a"

definition SetAgentPersona :: "'w mutator \<Rightarrow> string \<Rightarrow> persona_annotations \<Rightarrow> ('w mstate, agent) comp" where
  "SetAgentPersona m uid want = (let op = ''set agent instructions''; name = trimSpace (pa_persona want);
       digest = trimSpace (pa_digest want); snapshot = trimSpace (pa_snapshot want); source = trimSpace (pa_source want) in
     withAgent op uid (\<lambda>a.
       if (name = '''') \<noteq> (digest = '''') then throw (inputErr op ErrInvalidRegistry)
       else if snapshot \<noteq> '''' \<and> snapshot \<noteq> SystemPromptSnapshotOff then throw (inputErr op ErrInvalidRegistry)
       else if source \<noteq> '''' \<and> \<not> ValidSettingSource source then throw (inputErr op ErrInvalidRegistry)
       else writeAgent m uid (putAnns [(AnnotationAgentPersona, name), (AnnotationAgentPersonaDigest, digest),
              (AnnotationAgentSystemPromptSnapshot, snapshot), (AnnotationAgentInstructionsSource, source)]) a))"

definition SetAgentProfileDigest :: "'w mutator \<Rightarrow> string \<Rightarrow> string \<Rightarrow> string \<Rightarrow> ('w mstate, agent) comp" where
  "SetAgentProfileDigest m uid name0 digest0 = (let op = ''set agent profile digest''; name = trimSpace name0;
       digest = trimSpace digest0 in withAgent op uid (\<lambda>a.
     if name = '''' \<or> digest = '''' then throw (inputErr op ErrInvalidRegistry)
     else if ann a AnnotationAgentProfile \<noteq> name then throw (inputErr op ErrInvalidRegistry)
     else if ann a AnnotationAgentProfileDigest = digest then return a
     else writeAgent m uid (putAnn (AnnotationAgentProfileDigest, digest)) a))"

definition SetAgentProfile ::
  "'w mutator \<Rightarrow> string \<Rightarrow> string \<Rightarrow> string \<Rightarrow> string \<Rightarrow> ('w mstate, agent) comp" where
  "SetAgentProfile m uid name0 digest0 source0 = (let op = ''set agent profile''; name = trimSpace name0;
       digest1 = trimSpace digest0; source1 = trimSpace source0 in withAgent op uid (\<lambda>a.
     if name \<noteq> '''' \<and> (digest1 = '''' \<or> \<not> ValidProfileSource source1) then throw (inputErr op ErrInvalidRegistry)
     else (let digest = (if name = '''' then '''' else digest1); source = (if name = '''' then '''' else source1);
             want = [(AnnotationAgentProfile, name), (AnnotationAgentProfileDigest, digest), (AnnotationAgentProfileSource, source)] in
       if list_all (\<lambda>(k, v). ann a k = v) want then return a else writeAgent m uid (putAnns want) a)))"

section \<open>Effort and model\<close>

definition clearAgentSetting :: "'w mutator \<Rightarrow> string \<Rightarrow> string \<Rightarrow> string \<Rightarrow> string \<Rightarrow> ('w mstate, agent) comp" where
  "clearAgentSetting m op uid valueKey sourceKey = withAgent op uid (\<lambda>a.
     if \<not> hasAnn a valueKey \<and> \<not> hasAnn a sourceKey then return a
     else writeAgent m uid (putAnns [(valueKey, ''''), (sourceKey, '''')]) a)"

definition ClearAgentEffort :: "'w mutator \<Rightarrow> string \<Rightarrow> ('w mstate, agent) comp" where
  "ClearAgentEffort m uid = clearAgentSetting m ''clear agent effort'' uid AnnotationAgentEffort AnnotationAgentEffortSource"

definition ClearAgentModel :: "'w mutator \<Rightarrow> string \<Rightarrow> ('w mstate, agent) comp" where
  "ClearAgentModel m uid = clearAgentSetting m ''clear agent model'' uid AnnotationAgentModel AnnotationAgentModelSource"

text \<open>A key that is present with an empty value is not the same as an absent one here.\<close>

definition sameRecorded :: "agent \<Rightarrow> string \<Rightarrow> string \<Rightarrow> bool" where
  "sameRecorded a k v \<longleftrightarrow> (hasAnn a k \<and> ann a k = v) \<or> (\<not> hasAnn a k \<and> v = '''')"

definition setAgentProfileSetting ::
  "'w mutator \<Rightarrow> string \<Rightarrow> string \<Rightarrow> string \<Rightarrow> string \<Rightarrow> string \<Rightarrow> ('w mstate, agent) comp" where
  "setAgentProfileSetting m op uid valueKey sourceKey value0 = (let v = trimSpace value0 in withAgent op uid (\<lambda>a.
     if sameRecorded a valueKey v \<and> ann a sourceKey = SettingSourceProfile then return a
     else writeAgent m uid (putAnns [(valueKey, v), (sourceKey, SettingSourceProfile)]) a))"

definition setAgentSetting ::
  "'w mutator \<Rightarrow> string \<Rightarrow> string \<Rightarrow> string \<Rightarrow> string \<Rightarrow> string \<Rightarrow> string \<Rightarrow> ('w mstate, agent) comp" where
  "setAgentSetting m op uid valueKey sourceKey value0 source = (let v = trimSpace value0 in withAgent op uid (\<lambda>a.
     if v = '''' then throw (inputErr op ErrInvalidRegistry)
     else if \<not> ValidSettingSource source then throw (inputErr op ErrInvalidRegistry)
     else if ann a valueKey = v \<and> ann a sourceKey = source then return a
     else writeAgent m uid (putAnns [(valueKey, v), (sourceKey, source)]) a))"

definition SetAgentEffort :: "'w mutator \<Rightarrow> string \<Rightarrow> string \<Rightarrow> string \<Rightarrow> ('w mstate, agent) comp" where
  "SetAgentEffort m uid = setAgentSetting m ''set agent effort'' uid AnnotationAgentEffort AnnotationAgentEffortSource"

definition SetAgentModel :: "'w mutator \<Rightarrow> string \<Rightarrow> string \<Rightarrow> string \<Rightarrow> ('w mstate, agent) comp" where
  "SetAgentModel m uid = setAgentSetting m ''set agent model'' uid AnnotationAgentModel AnnotationAgentModelSource"

definition SetAgentEffortFromProfile :: "'w mutator \<Rightarrow> string \<Rightarrow> string \<Rightarrow> ('w mstate, agent) comp" where
  "SetAgentEffortFromProfile m uid =
     setAgentProfileSetting m ''set agent effort'' uid AnnotationAgentEffort AnnotationAgentEffortSource"

definition SetAgentModelFromProfile :: "'w mutator \<Rightarrow> string \<Rightarrow> string \<Rightarrow> ('w mstate, agent) comp" where
  "SetAgentModelFromProfile m uid =
     setAgentProfileSetting m ''set agent model'' uid AnnotationAgentModel AnnotationAgentModelSource"

section \<open>Digests\<close>

text \<open>\<open>SetAgentProjectLinkRules\<close>, \<open>SetAgentGuidance\<close> and \<open>SetAgentProjectGuidance\<close> have one body over three keys.\<close>

definition setDigest :: "'w mutator \<Rightarrow> string \<Rightarrow> string \<Rightarrow> string \<Rightarrow> string \<Rightarrow> ('w mstate, agent) comp" where
  "setDigest m op key uid digest0 = (let digest = trimSpace digest0 in withAgent op uid (\<lambda>a.
     if sameRecorded a key digest \<and> ann a AnnotationAgentSystemPromptSnapshot = SystemPromptSnapshotOff then return a
     else writeAgent m uid (putAnns [(key, digest), (AnnotationAgentSystemPromptSnapshot, SystemPromptSnapshotOff)]) a))"

definition SetAgentProjectLinkRules :: "'w mutator \<Rightarrow> string \<Rightarrow> string \<Rightarrow> ('w mstate, agent) comp" where
  "SetAgentProjectLinkRules m = setDigest m ''set agent project link rules'' AnnotationAgentProjectLinkRulesDigest"

definition SetAgentGuidance :: "'w mutator \<Rightarrow> string \<Rightarrow> string \<Rightarrow> ('w mstate, agent) comp" where
  "SetAgentGuidance m = setDigest m ''set agent guidance'' AnnotationAgentGuidanceDigest"

definition SetAgentProjectGuidance :: "'w mutator \<Rightarrow> string \<Rightarrow> string \<Rightarrow> ('w mstate, agent) comp" where
  "SetAgentProjectGuidance m = setDigest m ''set Project guidance'' AnnotationAgentProjectGuidanceDigest"

end
