(* ===== verification/Setting_Steps.thy ===== *)
theory Setting_Steps
  imports Agent_Settings Process_Steps
begin

text \<open>
  Runs of the setting writers of \<^verbatim>\<open>interaction.go\<close>. A call either leaves the Registry as it was or puts a few
  annotations on one Agent; from that single fact follow the frame of every writer, the completeness of the
  pairs a launch reads, and the permanence of the reply-only mode. The activation writer is a state machine of
  its own: its evidence only grows.
\<close>

section \<open>Reading back\<close>

lemma ann_putAnn [simp]: "ann (putAnn (k, v) a) k' = (if k = k' then v else ann a k')"
  by (simp add: ann_def putAnn_def)

lemma putAnns_simps [simp]: "putAnns [] a = a" "putAnns (kv # kvs) a = putAnns kvs (putAnn kv a)"
  by (simp_all add: putAnns_def)

lemma ann_other: "k \<notin> fst ` set kvs \<Longrightarrow> ann (putAnns kvs a) k = ann a k"
  by (induction kvs arbitrary: a) auto

lemma putAnn_single: "putAnn kv = putAnns [kv]"
  by (rule ext) simp

definition settingKeys :: "string list" where
  "settingKeys = [AnnotationAgentTopic, AnnotationAgentPersona, AnnotationAgentPersonaDigest, AnnotationAgentProfile,
     AnnotationAgentProfileDigest, AnnotationAgentSystemPromptSnapshot, AnnotationAgentEffort, AnnotationAgentModel,
     AnnotationAgentProfileSource, AnnotationAgentInstructionsSource, AnnotationAgentModelSource, AnnotationAgentEffortSource,
     AnnotationAgentProjectLinkRulesDigest, AnnotationAgentGuidanceDigest, AnnotationAgentQuestionChannel,
     AnnotationAgentDialogueReplyOnly, AnnotationAgentProjectGuidanceDigest]"

lemma distinct_settingKeys: "distinct settingKeys"
  by code_simp

lemma distinct_rev_settingKeys: "distinct (rev settingKeys)"
  by (simp add: distinct_settingKeys)

lemmas keys_neq = distinct_settingKeys [unfolded settingKeys_def, simplified]
  distinct_rev_settingKeys [unfolded settingKeys_def rev.simps append.simps, simplified]

section \<open>Calls\<close>

datatype setting_call =
    CallTopic string
  | CallQuestions bool
  | CallReplyOnly
  | CallPersona persona_annotations
  | CallProfileDigest string string
  | CallProfile string string string
  | CallClearEffort
  | CallClearModel
  | CallEffort string string
  | CallModel string string
  | CallEffortFromProfile string
  | CallModelFromProfile string
  | CallLinkRules string
  | CallGuidance string
  | CallProjectGuidance string

fun runSetting :: "'w mutator \<Rightarrow> string \<times> setting_call \<Rightarrow> ('w mstate, agent) comp" where
  "runSetting m (u, CallTopic x) = SetAgentTopic m u x"
| "runSetting m (u, CallQuestions b) = SetAgentQuestionChannel m u b"
| "runSetting m (u, CallReplyOnly) = SetAgentDialogueReplyOnly m u"
| "runSetting m (u, CallPersona p) = SetAgentPersona m u p"
| "runSetting m (u, CallProfileDigest n d) = SetAgentProfileDigest m u n d"
| "runSetting m (u, CallProfile n d x) = SetAgentProfile m u n d x"
| "runSetting m (u, CallClearEffort) = ClearAgentEffort m u"
| "runSetting m (u, CallClearModel) = ClearAgentModel m u"
| "runSetting m (u, CallEffort v x) = SetAgentEffort m u v x"
| "runSetting m (u, CallModel v x) = SetAgentModel m u v x"
| "runSetting m (u, CallEffortFromProfile v) = SetAgentEffortFromProfile m u v"
| "runSetting m (u, CallModelFromProfile v) = SetAgentModelFromProfile m u v"
| "runSetting m (u, CallLinkRules d) = SetAgentProjectLinkRules m u d"
| "runSetting m (u, CallGuidance d) = SetAgentGuidance m u d"
| "runSetting m (u, CallProjectGuidance d) = SetAgentProjectGuidance m u d"

fun keysOf :: "setting_call \<Rightarrow> string list" where
  "keysOf (CallTopic _) = [AnnotationAgentTopic]"
| "keysOf (CallQuestions _) = [AnnotationAgentQuestionChannel]"
| "keysOf CallReplyOnly = [AnnotationAgentDialogueReplyOnly]"
| "keysOf (CallPersona _) = [AnnotationAgentPersona, AnnotationAgentPersonaDigest, AnnotationAgentSystemPromptSnapshot,
     AnnotationAgentInstructionsSource]"
| "keysOf (CallProfileDigest _ _) = [AnnotationAgentProfileDigest]"
| "keysOf (CallProfile _ _ _) = [AnnotationAgentProfile, AnnotationAgentProfileDigest, AnnotationAgentProfileSource]"
| "keysOf CallClearEffort = [AnnotationAgentEffort, AnnotationAgentEffortSource]"
| "keysOf CallClearModel = [AnnotationAgentModel, AnnotationAgentModelSource]"
| "keysOf (CallEffort _ _) = [AnnotationAgentEffort, AnnotationAgentEffortSource]"
| "keysOf (CallModel _ _) = [AnnotationAgentModel, AnnotationAgentModelSource]"
| "keysOf (CallEffortFromProfile _) = [AnnotationAgentEffort, AnnotationAgentEffortSource]"
| "keysOf (CallModelFromProfile _) = [AnnotationAgentModel, AnnotationAgentModelSource]"
| "keysOf (CallLinkRules _) = [AnnotationAgentProjectLinkRulesDigest, AnnotationAgentSystemPromptSnapshot]"
| "keysOf (CallGuidance _) = [AnnotationAgentGuidanceDigest, AnnotationAgentSystemPromptSnapshot]"
| "keysOf (CallProjectGuidance _) = [AnnotationAgentProjectGuidanceDigest, AnnotationAgentSystemPromptSnapshot]"

fun runSettings :: "'w mutator \<Rightarrow> (string \<times> setting_call) list \<Rightarrow> 'w mstate \<Rightarrow> 'w mstate" where
  "runSettings m [] s = s"
| "runSettings m (c # cs) s = runSettings m cs (snd (runSetting m c s))"

text \<open>What a launch may rely on: a name comes with its digest and its source, a snapshot mode is a known one.\<close>

definition settingsComplete :: "agent \<Rightarrow> bool" where
  "settingsComplete a \<longleftrightarrow>
     (ann a AnnotationAgentPersona = '''' \<longleftrightarrow> ann a AnnotationAgentPersonaDigest = '''')
   \<and> (ann a AnnotationAgentProfile \<noteq> '''' \<longrightarrow> ann a AnnotationAgentProfileDigest \<noteq> ''''
        \<and> ValidProfileSource (ann a AnnotationAgentProfileSource))
   \<and> (ann a AnnotationAgentEffort \<noteq> '''' \<longrightarrow> ValidSettingSource (ann a AnnotationAgentEffortSource))
   \<and> (ann a AnnotationAgentModel \<noteq> '''' \<longrightarrow> ValidSettingSource (ann a AnnotationAgentModelSource))
   \<and> ann a AnnotationAgentSystemPromptSnapshot \<in> {'''', SystemPromptSnapshotOff}
   \<and> (ann a AnnotationAgentInstructionsSource = '''' \<or> ValidSettingSource (ann a AnnotationAgentInstructionsSource))"

text \<open>One call, seen from outside.\<close>

definition annotates :: "(agent \<Rightarrow> (string \<times> string) list \<Rightarrow> bool) \<Rightarrow> string \<Rightarrow> ('w mstate, 'a) comp \<Rightarrow> bool" where
  "annotates ok' u c \<longleftrightarrow> (\<forall>s. ms_reg (snd (c s)) = ms_reg s \<or> (\<exists>a kvs now. lookupAgent (ms_reg s) u = Some a \<and> ok' a kvs
     \<and> ms_reg (snd (c s)) = (updAgent u (putAnns kvs) (ms_reg s))\<lparr>r_updated := now\<rparr>))"

lemma annotates_withAgent:
  assumes "\<And>a. (\<forall>s. ms_reg (snd (f a s)) = ms_reg s) \<or> (\<exists>kvs. f a = writeAgent m u (putAnns kvs) a \<and> ok' a kvs)"
  shows "annotates ok' u (withAgent op u f)"
  unfolding annotates_def withAgent_def getReg_run
proof
  fix s
  show "ms_reg (snd ((case lookupAgent (ms_reg s) u of None \<Rightarrow> throw (stateErr op ErrNotFound) | Some a \<Rightarrow> f a) s)) = ms_reg s
    \<or> (\<exists>a kvs now. lookupAgent (ms_reg s) u = Some a \<and> ok' a kvs
      \<and> ms_reg (snd ((case lookupAgent (ms_reg s) u of None \<Rightarrow> throw (stateErr op ErrNotFound) | Some a \<Rightarrow> f a) s))
        = (updAgent u (putAnns kvs) (ms_reg s))\<lparr>r_updated := now\<rparr>)"
  proof (cases "lookupAgent (ms_reg s) u")
    case (Some a)
    have w: "\<exists>now. ms_reg (snd (writeAgent m u g a s)) = (updAgent u g (ms_reg s))\<lparr>r_updated := now\<rparr>" for g
      by (cases "Now m (ms_world s)")
        (auto simp: writeAgent_def stamp_def clock_def andThen_def modReg_def return_def)
    show ?thesis using assms [of a] w Some by auto
  qed (simp add: throw_def)
qed

definition edits :: "(agent \<Rightarrow> (string \<times> string) list \<Rightarrow> bool) \<Rightarrow> 'w mutator \<Rightarrow> string \<Rightarrow> agent \<Rightarrow> ('w mstate, agent) comp \<Rightarrow> bool" where
  "edits ok' m u a c \<longleftrightarrow> (\<forall>s. ms_reg (snd (c s)) = ms_reg s) \<or> (\<exists>kvs. c = writeAgent m u (putAnns kvs) a \<and> ok' a kvs)"

named_theorems edit

lemma edits_pure [edit]: "edits ok' m u a (throw e)" "edits ok' m u a (return x)"
  by (simp_all add: edits_def throw_def return_def)

lemma edits_if [edit]:
  "(b \<Longrightarrow> edits ok' m u a c) \<Longrightarrow> (\<not> b \<Longrightarrow> edits ok' m u a d) \<Longrightarrow> edits ok' m u a (if b then c else d)"
  by simp

lemma edits_write [edit]:
  "ok' a kvs \<Longrightarrow> edits ok' m u a (writeAgent m u (putAnns kvs) a)"
  "ok' a [kv] \<Longrightarrow> edits ok' m u a (writeAgent m u (putAnn kv) a)"
  unfolding edits_def putAnn_single by blast+

lemma annotates_edits: "(\<And>a. edits ok' m u a (f a)) \<Longrightarrow> annotates ok' u (withAgent op u f)"
  unfolding edits_def by (rule annotates_withAgent)

definition settingOk :: "setting_call \<Rightarrow> agent \<Rightarrow> (string \<times> string) list \<Rightarrow> bool" where
  "settingOk c a kvs \<longleftrightarrow> map fst kvs = keysOf c \<and> (settingsComplete a \<longrightarrow> settingsComplete (putAnns kvs a))
     \<and> (\<forall>v. (AnnotationAgentDialogueReplyOnly, v) \<in> set kvs \<longrightarrow> v = settingOn)"

lemma profile_source: "ValidSettingSource SettingSourceProfile"
  by (simp add: ValidSettingSource_def SettingSourceProfile_def)

lemmas setting_facts = settingOk_def settingsComplete_def keys_neq SystemPromptSnapshotOff_def settingOn_def profile_source

lemma runSetting_plain:
  "annotates (settingOk (CallTopic x)) u (SetAgentTopic m u x)"
  "annotates (settingOk (CallQuestions b)) u (SetAgentQuestionChannel m u b)"
  "annotates (settingOk CallReplyOnly) u (SetAgentDialogueReplyOnly m u)"
  unfolding SetAgentTopic_def SetAgentQuestionChannel_def SetAgentDialogueReplyOnly_def
  by (rule annotates_edits [where m = m], intro edit, simp add: setting_facts)+

lemma runSetting_persona: "annotates (settingOk (CallPersona p)) u (SetAgentPersona m u p)"
  unfolding SetAgentPersona_def Let_def
  by (rule annotates_edits [where m = m], intro edit) (auto simp: setting_facts)

lemma runSetting_profile:
  "annotates (settingOk (CallProfileDigest n d)) u (SetAgentProfileDigest m u n d)"
  "annotates (settingOk (CallProfile n d x)) u (SetAgentProfile m u n d x)"
  unfolding SetAgentProfileDigest_def SetAgentProfile_def Let_def
  by (rule annotates_edits [where m = m], intro edit, force simp: setting_facts)+

lemma runSetting_clear:
  "annotates (settingOk CallClearEffort) u (ClearAgentEffort m u)"
  "annotates (settingOk CallClearModel) u (ClearAgentModel m u)"
  unfolding ClearAgentEffort_def ClearAgentModel_def clearAgentSetting_def
  by (rule annotates_edits [where m = m], intro edit, simp add: setting_facts)+

lemma runSetting_value:
  "annotates (settingOk (CallEffort v x)) u (SetAgentEffort m u v x)"
  "annotates (settingOk (CallModel v x)) u (SetAgentModel m u v x)"
  "annotates (settingOk (CallEffortFromProfile v)) u (SetAgentEffortFromProfile m u v)"
  "annotates (settingOk (CallModelFromProfile v)) u (SetAgentModelFromProfile m u v)"
  unfolding SetAgentEffort_def SetAgentModel_def SetAgentEffortFromProfile_def SetAgentModelFromProfile_def
    setAgentSetting_def setAgentProfileSetting_def Let_def
  by (rule annotates_edits [where m = m], intro edit, simp add: setting_facts)+

lemma runSetting_digest:
  "annotates (settingOk (CallLinkRules d)) u (SetAgentProjectLinkRules m u d)"
  "annotates (settingOk (CallGuidance d)) u (SetAgentGuidance m u d)"
  "annotates (settingOk (CallProjectGuidance d)) u (SetAgentProjectGuidance m u d)"
  unfolding SetAgentProjectLinkRules_def SetAgentGuidance_def SetAgentProjectGuidance_def setDigest_def Let_def
  by (rule annotates_edits [where m = m], intro edit, simp add: setting_facts)+

lemma runSetting_annotates: "annotates (settingOk (snd c)) (fst c) (runSetting m c)"
  by (cases c; cases "snd c")
    (simp_all add: runSetting_plain runSetting_persona runSetting_profile runSetting_clear runSetting_value runSetting_digest)

section \<open>What every call keeps\<close>

text \<open>The Registry without the annotations of its Agents and without its update time.\<close>

definition unannotated :: "registry \<Rightarrow> registry" where
  "unannotated r = r\<lparr>r_updated := zeroTime,
     r_agents := map (\<lambda>a. a\<lparr>a_meta := (a_meta a)\<lparr>om_annotations := fmempty\<rparr>\<rparr>) (r_agents r)\<rparr>"

lemma putAnns_masked:
  "(putAnns kvs a)\<lparr>a_meta := (a_meta (putAnns kvs a))\<lparr>om_annotations := fmempty\<rparr>\<rparr> = a\<lparr>a_meta := (a_meta a)\<lparr>om_annotations := fmempty\<rparr>\<rparr>"
  by (induction kvs arbitrary: a) (auto simp: putAnn_def)

lemma putAnns_uid [simp]: "a_uid (putAnns kvs a) = a_uid a"
  by (induction kvs arbitrary: a) (auto simp: putAnn_def)

lemma unannotated_write: "unannotated ((updAgent u (putAnns kvs) r)\<lparr>r_updated := now\<rparr>) = unannotated r"
  by (simp add: unannotated_def updAgent_def map_updFirst putAnns_masked)

lemma lookup_write:
  "lookupAgent ((updAgent u (putAnns kvs) r)\<lparr>r_updated := now\<rparr>) v
   = (if u = v then map_option (putAnns kvs) (lookupAgent r v) else lookupAgent r v)"
  by (simp add: lookupAgent_updAgent)

lemma runSetting_outcome:
  obtains "ms_reg (snd (runSetting m (u, c) s)) = ms_reg s"
  | a kvs now where "lookupAgent (ms_reg s) u = Some a" "settingOk c a kvs"
      "ms_reg (snd (runSetting m (u, c) s)) = (updAgent u (putAnns kvs) (ms_reg s))\<lparr>r_updated := now\<rparr>"
  using runSetting_annotates [of "(u, c)" m, unfolded annotates_def, THEN spec [of _ s]] by auto

text \<open>An invariant of single Agents that every call keeps holds after every run.\<close>

lemma runSettings_inv:
  assumes "\<And>c a kvs. settingOk c a kvs \<Longrightarrow> P a \<Longrightarrow> P (putAnns kvs a)" and "lookupAgent (ms_reg s) v = Some a" and "P a"
  shows "\<exists>a'. lookupAgent (ms_reg (runSettings m cs s)) v = Some a' \<and> P a'"
  using assms(2,3)
proof (induction cs arbitrary: s a)
  case (Cons uc cs)
  obtain u c where uc: "uc = (u, c)" by fastforce
  have "\<exists>a'. lookupAgent (ms_reg (snd (runSetting m uc s))) v = Some a' \<and> P a'"
  proof (rule runSetting_outcome [of m u c s])
    assume "ms_reg (snd (runSetting m (u, c) s)) = ms_reg s"
    then show ?thesis using Cons.prems uc by simp
  next
    fix b kvs now
    assume b: "lookupAgent (ms_reg s) u = Some b" "settingOk c b kvs"
      "ms_reg (snd (runSetting m (u, c) s)) = (updAgent u (putAnns kvs) (ms_reg s))\<lparr>r_updated := now\<rparr>"
    show ?thesis
      using Cons.prems b(1) assms(1) [OF b(2)] unfolding uc b(3) lookup_write by (cases "u = v") simp_all
  qed
  then show ?case using Cons.IH by auto
qed simp

section \<open>Activation evidence\<close>

fun evidenceRank :: "activation_state \<Rightarrow> nat" where
  "evidenceRank ActivationPending = 1"
| "evidenceRank ActivationUnconfirmed = 2"
| "evidenceRank ActivationAcknowledged = 3"
| "evidenceRank _ = 0"

fun runActivations :: "'w mutator \<Rightarrow> (string \<times> activation_state \<times> string \<times> string) list \<Rightarrow> 'w mstate \<Rightarrow> 'w mstate" where
  "runActivations m [] s = s"
| "runActivations m ((u, st, src, why) # cs) s = runActivations m cs (snd (SetAgentActivation m u st src why s))"

lemma setActivation_uid [simp]: "a_uid (setActivationOf v a) = a_uid a"
  by (simp add: setActivationOf_def)

lemma activation_step:
  assumes "lookupAgent (ms_reg s) v = Some a"
  shows "\<exists>a'. lookupAgent (ms_reg (snd (SetAgentActivation m u st src why s))) v = Some a'
    \<and> validAgentActivationTransition (currentActivation a) (currentActivation a')"
proof -
  obtain now w where n: "Now m (ms_world s) = (now, w)" by fastforce
  let ?v = "\<lparr>av_state = st, av_observed = now, av_source = trimSpace src, av_reason = trimSpace why\<rparr>"
  have refl: "validAgentActivationTransition x x" for x by (simp add: validAgentActivationTransition_def)
  have "ms_reg (snd (SetAgentActivation m u st src why s)) = ms_reg s
    \<or> (\<exists>b. lookupAgent (ms_reg s) u = Some b \<and> validAgentActivationTransition (currentActivation b) st \<and> st \<noteq> ActivationUnset
        \<and> ms_reg (snd (SetAgentActivation m u st src why s)) = (updAgent u (setActivationOf ?v) (ms_reg s))\<lparr>r_updated := now\<rparr>)"
    unfolding SetAgentActivation_def withAgent_def Let_def getReg_run
    by (auto simp: comp_defs clock_def modReg_def n split: option.split)
  then show ?thesis
  proof (elim disjE exE conjE)
    fix b
    assume b: "lookupAgent (ms_reg s) u = Some b" "validAgentActivationTransition (currentActivation b) st" "st \<noteq> ActivationUnset"
      and r: "ms_reg (snd (SetAgentActivation m u st src why s)) = (updAgent u (setActivationOf ?v) (ms_reg s))\<lparr>r_updated := now\<rparr>"
    have "currentActivation (setActivationOf ?v b) = st" using b(3) by (simp add: currentActivation_def setActivationOf_def)
    then show ?thesis using b assms refl unfolding r by (cases "u = v") (simp_all add: lookupAgent_updAgent)
  qed (use assms refl in simp)
qed

lemma rank_step: "validAgentActivationTransition x y \<Longrightarrow> evidenceRank x \<le> evidenceRank y \<and> (evidenceRank x = 0 \<longrightarrow> y = x)"
  by (cases x) (auto simp: validAgentActivationTransition_def)

section \<open>Properties\<close>

text \<open>C14: What a launch reads from an Agent's annotations is never torn. Over every sequence of setting writers on any
  Agents, refused calls included, an Agent whose recorded settings were complete keeps them complete: a persona
  has a digest exactly when it has a name, a profile has a digest and a known source, an effort or model value
  has a known source, and the snapshot mode is one of the two known ones.\<close>

theorem settings_stay_complete:
  assumes "lookupAgent (ms_reg s) u = Some a" and "settingsComplete a"
  shows "\<exists>a'. lookupAgent (ms_reg (runSettings m cs s)) u = Some a' \<and> settingsComplete a'"
  using assms by (intro runSettings_inv) (simp_all add: settingOk_def)

text \<open>C15: A setting writer changes nothing but the annotations it names. After one call the Registry with every
  annotation blanked is the same; an Agent other than the target is exactly as before; and on the target every
  key outside the call's own keys has its old value. The reply-only mode, once recorded, survives every
  sequence of calls: no writer clears it.\<close>

theorem settings_touch_only_their_keys:
  assumes "lookupAgent (ms_reg s) v = Some a"
  shows "unannotated (ms_reg (snd (runSetting m (u, c) s))) = unannotated (ms_reg s)
    \<and> (\<exists>a'. lookupAgent (ms_reg (snd (runSetting m (u, c) s))) v = Some a' \<and> (u \<noteq> v \<longrightarrow> a' = a)
        \<and> (\<forall>k. k \<notin> set (keysOf c) \<longrightarrow> ann a' k = ann a k))
    \<and> (RecordsDialogueReplyOnly a \<longrightarrow>
        (\<exists>a'. lookupAgent (ms_reg (runSettings m cs s)) v = Some a' \<and> RecordsDialogueReplyOnly a'))"
proof (intro conjI impI)
  show "unannotated (ms_reg (snd (runSetting m (u, c) s))) = unannotated (ms_reg s)"
    by (rule runSetting_outcome [of m u c s]) (simp_all add: unannotated_write)
  show "\<exists>a'. lookupAgent (ms_reg (snd (runSetting m (u, c) s))) v = Some a' \<and> (u \<noteq> v \<longrightarrow> a' = a)
        \<and> (\<forall>k. k \<notin> set (keysOf c) \<longrightarrow> ann a' k = ann a k)"
  proof (rule runSetting_outcome [of m u c s])
    fix b kvs now
    assume b: "lookupAgent (ms_reg s) u = Some b" "settingOk c b kvs"
      and r: "ms_reg (snd (runSetting m (u, c) s)) = (updAgent u (putAnns kvs) (ms_reg s))\<lparr>r_updated := now\<rparr>"
    from b(2) have "fst ` set kvs = set (keysOf c)" by (metis list.set_map settingOk_def)
    then show ?thesis using assms ann_other [of _ kvs a] unfolding r lookup_write by simp
  qed (simp add: assms)
  assume on: "RecordsDialogueReplyOnly a"
  have keep: "RecordsDialogueReplyOnly (putAnns kvs b)" if "settingOk c b kvs" "RecordsDialogueReplyOnly b" for c b kvs
  proof -
    have "ann (putAnns kvs b) AnnotationAgentDialogueReplyOnly = settingOn"
      if "\<And>v. (AnnotationAgentDialogueReplyOnly, v) \<in> set kvs \<Longrightarrow> v = settingOn" "ann b AnnotationAgentDialogueReplyOnly = settingOn" for kvs b
      using that by (induction kvs arbitrary: b) (auto split: if_splits)
    with that show ?thesis by (auto simp: settingOk_def RecordsDialogueReplyOnly_def)
  qed
  show "\<exists>a'. lookupAgent (ms_reg (runSettings m cs s)) v = Some a' \<and> RecordsDialogueReplyOnly a'"
    using keep assms on by (rule runSettings_inv)
qed

text \<open>C16: Activation evidence is a lattice, not a field: over every sequence of activation writes, from any writer and
  in any order, the evidence recorded for an Agent never gets weaker (pending, then unconfirmed, then
  acknowledged), so a timeout that races a provider hook cannot erase the acknowledgement; and an Agent for
  which no activation was requested stays so.\<close>

theorem activation_evidence_is_monotone:
  assumes "lookupAgent (ms_reg s) u = Some a"
  shows "\<exists>a'. lookupAgent (ms_reg (runActivations m cs s)) u = Some a'
    \<and> evidenceRank (currentActivation a) \<le> evidenceRank (currentActivation a')
    \<and> (evidenceRank (currentActivation a) = 0 \<longrightarrow> currentActivation a' = currentActivation a)"
  using assms
proof (induction m cs s arbitrary: a rule: runActivations.induct)
  case (2 m v st src why cs s)
  from activation_step [OF "2.prems"] obtain b where b: "lookupAgent (ms_reg (snd (SetAgentActivation m v st src why s))) u = Some b"
    and t: "validAgentActivationTransition (currentActivation a) (currentActivation b)" by blast
  from "2.IH" [OF b] rank_step [OF t] show ?case by fastforce
qed simp

theorem settings_stay_complete_witness:
  "\<exists>a'. lookupAgent (ms_reg (runSettings (demoMutator 9)
       [(''a'', CallProfile ''p'' ''d'' ''flag''), (''a'', CallEffort ''high'' ''nowhere''), (''a'', CallReplyOnly)] demoClaude)) ''a'' = Some a'
     \<and> settingsComplete a'"
proof -
  have "lookupAgent (ms_reg demoClaude) ''a'' = Some (hd (r_agents (ms_reg demoClaude)))" by code_simp
  moreover have "settingsComplete (hd (r_agents (ms_reg demoClaude)))" by code_simp
  ultimately show ?thesis by (rule settings_stay_complete)
qed

theorem settings_touch_only_their_keys_witness:
  "unannotated (ms_reg (snd (runSetting (demoMutator 9) (''a'', CallTopic ''t'') demoClaude))) = unannotated (ms_reg demoClaude)
   \<and> ann (hd (r_agents (ms_reg (snd (runSetting (demoMutator 9) (''a'', CallTopic ''t'') demoClaude))))) AnnotationAgentTopic = ''t''"
proof
  have "lookupAgent (ms_reg demoClaude) ''a'' = Some (hd (r_agents (ms_reg demoClaude)))" by code_simp
  from settings_touch_only_their_keys [OF this, of "demoMutator 9" "''a''" "CallTopic ''t''"]
  show "unannotated (ms_reg (snd (runSetting (demoMutator 9) (''a'', CallTopic ''t'') demoClaude))) = unannotated (ms_reg demoClaude)"
    by blast
  show "ann (hd (r_agents (ms_reg (snd (runSetting (demoMutator 9) (''a'', CallTopic ''t'') demoClaude))))) AnnotationAgentTopic = ''t''"
    by code_simp
qed

definition demoPending :: "nat mstate" where
  "demoPending = demoState\<lparr>ms_reg := updAgent ''a'' (setActivationOf
     \<lparr>av_state = ActivationPending, av_observed = 0, av_source = [], av_reason = []\<rparr>) demoRegistry\<rparr>"

theorem activation_evidence_is_monotone_witness:
  "\<exists>a'. lookupAgent (ms_reg (runActivations (demoMutator 9) [(''a'', ActivationAcknowledged, ''provider-hook'', ''''),
         (''a'', ActivationUnconfirmed, '''', '''')] demoPending)) ''a'' = Some a'
     \<and> 1 \<le> evidenceRank (currentActivation a')"
proof -
  have a: "lookupAgent (ms_reg demoPending) ''a'' = Some (hd (r_agents (ms_reg demoPending)))" by code_simp
  have r: "evidenceRank (currentActivation (hd (r_agents (ms_reg demoPending)))) = 1" by code_simp
  show ?thesis using activation_evidence_is_monotone [OF a] unfolding r by blast
qed

end
