(* ===== verification/Codex_Binding.thy ===== *)
theory Codex_Binding
  imports Setting_Steps
begin

text \<open>
  The conversation an Agent belongs to and the Codex generation it runs on: the session references of
  \<^verbatim>\<open>agentsession.go\<close> and the native bindings of \<^verbatim>\<open>nativebinding.go\<close>. A handover moves one exact thread from
  its old endpoint generation to a successor; the theorems say that it happens at most once, that a retry of it
  is recognised, and that nothing which still presents the old endpoint writes anything afterwards.
\<close>

section \<open>Session references\<close>

record session_observation =
  so_provider :: string
  so_session :: string
  so_thread :: string
  so_transcript :: string
  so_endpoint :: "codex_endpoint option"

definition emptyRef :: "string \<Rightarrow> time \<Rightarrow> session_ref" where
  "emptyRef provider now = \<lparr>sr_provider = provider, sr_observed = now, sr_claude = None, sr_codex = None,
     sr_antigravity = None\<rparr>"

definition NewAgentSessionRef :: "session_observation \<Rightarrow> time \<Rightarrow> session_ref option" where
  "NewAgentSessionRef obs now =
     (let provider = NormalizeProvider (so_provider obs); session = trimSpace (so_session obs);
          thread = trimSpace (so_thread obs); transcript = trimSpace (so_transcript obs); ref = emptyRef provider now in
      if provider = ''claude'' then
        (if session = '''' then None
         else Some (ref\<lparr>sr_claude := Some \<lparr>cls_session = session, cls_transcript = transcript\<rparr>\<rparr>))
      else if provider = ''codex'' then
        (if thread = '''' \<and> session = '''' then None
         else if map_option endpointValid (so_endpoint obs) = Some False then None
         else Some (ref\<lparr>sr_codex := Some \<lparr>cxs_thread = thread, cxs_session = session, cxs_started = False,
                cxs_endpoint = so_endpoint obs, cxs_lifecycle = None, cxs_handover = None\<rparr>\<rparr>))
      else if provider = ''antigravity'' then
        (let conversation = (if thread = '''' then session else thread) in
         if conversation = '''' then None
         else Some (ref\<lparr>sr_antigravity := Some \<lparr>ag_conversation = conversation, ag_transcript = transcript\<rparr>\<rparr>))
      else None)"

definition refEmpty :: "session_ref option \<Rightarrow> bool" where
  "refEmpty r \<longleftrightarrow> (case r of None \<Rightarrow> True
     | Some r \<Rightarrow> sr_claude r = None \<and> sr_codex r = None \<and> sr_antigravity r = None)"

definition sameCodexSessionRef :: "codex_session option \<Rightarrow> codex_session option \<Rightarrow> bool" where
  "sameCodexSessionRef x y \<longleftrightarrow> (case (x, y) of
     (Some a, Some b) \<Rightarrow> cxs_thread a = cxs_thread b \<and> cxs_session a = cxs_session b \<and> cxs_endpoint a = cxs_endpoint b
   | (None, None) \<Rightarrow> True
   | _ \<Rightarrow> False)"

definition SameConversation :: "session_ref option \<Rightarrow> session_ref option \<Rightarrow> bool" where
  "SameConversation x y \<longleftrightarrow> (case (x, y) of
     (Some r, Some o') \<Rightarrow>
       sr_provider r = sr_provider o' \<and>
       (if sr_claude r \<noteq> None \<or> sr_claude o' \<noteq> None
        then sr_claude r \<noteq> None \<and> sr_claude o' \<noteq> None \<and> sr_claude r = sr_claude o'
        else if sr_codex r \<noteq> None \<or> sr_codex o' \<noteq> None then sameCodexSessionRef (sr_codex r) (sr_codex o')
        else if sr_antigravity r \<noteq> None \<or> sr_antigravity o' \<noteq> None
        then sr_antigravity r \<noteq> None \<and> sr_antigravity o' \<noteq> None \<and> sr_antigravity r = sr_antigravity o'
        else True)
   | (None, None) \<Rightarrow> True
   | _ \<Rightarrow> False)"

definition ConversationID :: "session_ref option \<Rightarrow> string" where
  "ConversationID r = (case r of None \<Rightarrow> '''' | Some r \<Rightarrow>
     (case sr_claude r of Some c \<Rightarrow> cls_session c | None \<Rightarrow>
     (case sr_codex r of Some c \<Rightarrow> if cxs_thread c \<noteq> '''' then cxs_thread c else cxs_session c | None \<Rightarrow>
     (case sr_antigravity r of Some a \<Rightarrow> ag_conversation a | None \<Rightarrow> ''''))))"

definition refSummary :: "session_ref option \<Rightarrow> string" where
  "refSummary r = (if refEmpty r then '''' else sr_provider (the r) @ '':'' @ ConversationID r)"

definition shownFields :: "(string \<times> string) list \<Rightarrow> (string \<times> string) list" where
  "shownFields = filter (\<lambda>(k, v). trimSpace v \<noteq> '''')"

definition refFields :: "session_ref option \<Rightarrow> (string \<times> string) list" where
  "refFields r = (case r of None \<Rightarrow> [] | Some r \<Rightarrow> shownFields
     (case sr_claude r of Some c \<Rightarrow> [(''SessionID'', cls_session c), (''TranscriptPath'', cls_transcript c)] | None \<Rightarrow>
     (case sr_codex r of
        Some c \<Rightarrow> [(''ThreadID'', cxs_thread c), (''SessionID'', cxs_session c)]
          @ (case cxs_endpoint c of None \<Rightarrow> []
             | Some e \<Rightarrow> [(''StateDomainID'', ce_domain e), (''EndpointGenerationID'', ce_generation e)])
      | None \<Rightarrow>
     (case sr_antigravity r of
        Some a \<Rightarrow> [(''ConversationID'', ag_conversation a), (''TranscriptPath'', ag_transcript a)]
      | None \<Rightarrow> []))))"

section \<open>Recording a session reference\<close>

definition setRef :: "session_ref option \<Rightarrow> agent \<Rightarrow> agent" where
  "setRef ref a = a\<lparr>a_status := (a_status a)\<lparr>ast_session := ref\<rparr>\<rparr>"

definition codexOf :: "agent \<Rightarrow> codex_session option" where
  "codexOf a = Option.bind (ast_session (a_status a)) sr_codex"

definition mapCodex :: "(codex_session \<Rightarrow> codex_session) \<Rightarrow> agent \<Rightarrow> agent" where
  "mapCodex f a = setRef (map_option (\<lambda>r. r\<lparr>sr_codex := map_option f (sr_codex r)\<rparr>) (ast_session (a_status a))) a"

definition endpointOf :: "agent \<Rightarrow> codex_endpoint option" where
  "endpointOf a = Option.bind (codexOf a) cxs_endpoint"

definition sameCodexThreadObservation :: "codex_session option \<Rightarrow> codex_session option \<Rightarrow> bool" where
  "sameCodexThreadObservation previous observed \<longleftrightarrow> (case (previous, observed) of
     (Some p, Some q) \<Rightarrow> cxs_thread p \<noteq> '''' \<and> cxs_thread p = cxs_thread q | _ \<Rightarrow> False)"

text \<open>A re-observation that knows no endpoint keeps what a generation-aware producer stored.\<close>

definition carryCodex :: "session_ref option \<Rightarrow> session_ref \<Rightarrow> session_ref" where
  "carryCodex stored ref = (case (sr_codex ref, Option.bind stored sr_codex) of
     (Some c, Some previous) \<Rightarrow>
       if cxs_endpoint c = None \<and> sameCodexThreadObservation (Some previous) (Some c) \<and> cxs_endpoint previous \<noteq> None
       then ref\<lparr>sr_codex := Some (c\<lparr>cxs_endpoint := cxs_endpoint previous, cxs_started := cxs_started previous,
              cxs_lifecycle := cxs_lifecycle previous, cxs_handover := cxs_handover previous,
              cxs_session := (if cxs_session c = '''' then cxs_session previous else cxs_session c)\<rparr>)\<rparr>
       else ref
   | _ \<Rightarrow> ref)"

definition RecordAgentSessionRef ::
  "'w mutator \<Rightarrow> string \<Rightarrow> session_observation \<Rightarrow> ('w mstate, agent \<times> bool) comp" where
  "RecordAgentSessionRef m uid obs = (let op = ''record agent session ref'' in withAgent op uid (\<lambda>a.
     andThen (clock m) (\<lambda>now. case NewAgentSessionRef obs now of
       None \<Rightarrow> throw (inputErr op ErrInvalidRegistry)
     | Some ref0 \<Rightarrow>
         if as_provider (a_spec a) \<noteq> '''' \<and> as_provider (a_spec a) \<noteq> sr_provider ref0
         then throw (inputErr op ErrInvalidRegistry)
         else (let ref = carryCodex (ast_session (a_status a)) ref0 in
           if SameConversation (ast_session (a_status a)) (Some ref) then return (a, False)
           else andThen (modReg (updAgent uid (setRef (Some ref)))) (\<lambda>_. andThen (stamp m) (\<lambda>_.
                return (setRef (Some ref) a, True)))))))"

definition sameCodexGenerationLifecycle :: "codex_lifecycle option \<Rightarrow> codex_lifecycle option \<Rightarrow> bool" where
  "sameCodexGenerationLifecycle x y \<longleftrightarrow> (case (x, y) of
     (Some a, Some b) \<Rightarrow>
       if cl_state a \<noteq> cl_state b \<or> (cl_operation a = None) \<noteq> (cl_operation b = None) then False
       else cl_operation a = None \<or> cl_operation a = cl_operation b
   | (None, None) \<Rightarrow> True
   | _ \<Rightarrow> False)"

definition SetCodexGenerationLifecycle ::
  "'w mutator \<Rightarrow> string \<Rightarrow> codex_endpoint \<Rightarrow> codex_lifecycle \<Rightarrow> ('w mstate, agent \<times> bool) comp" where
  "SetCodexGenerationLifecycle m uid e lifecycle = (let op = ''set Codex generation lifecycle'' in withAgent op uid (\<lambda>a.
     if map_option sr_provider (ast_session (a_status a)) \<noteq> Some ''codex''
       \<or> map_option (\<lambda>x. endpointSame x e) (endpointOf a) \<noteq> Some True then throw (inputErr op ErrInvalidRegistry)
     else if \<not> lifecycleValidFor lifecycle (Some e) then throw (inputErr op ErrInvalidRegistry)
     else if sameCodexGenerationLifecycle (Option.bind (codexOf a) cxs_lifecycle) (Some lifecycle) then return (a, False)
     else andThen (modReg (updAgent uid (mapCodex (\<lambda>c. c\<lparr>cxs_lifecycle := Some lifecycle\<rparr>)))) (\<lambda>_. andThen (stamp m) (\<lambda>_.
       return (mapCodex (\<lambda>c. c\<lparr>cxs_lifecycle := Some lifecycle\<rparr>) a, True)))))"

section \<open>The handover of a thread\<close>

record activation_observation =
  ob_agent :: string
  ob_pane :: string
  ob_generation :: string
  ob_thread :: string
  ob_turn :: string
  ob_endpoint :: codex_endpoint

record handover_target =
  ht_agent :: string
  ht_pane :: string
  ht_runtime :: string
  ht_generation :: string
  ht_relaunch :: string
  ht_thread :: string

text \<open>The Agent runs in the Pane it owns: the guard the native writers share.\<close>

definition boundPair :: "registry \<Rightarrow> string \<Rightarrow> string \<Rightarrow> string \<Rightarrow> string \<Rightarrow> (agent \<times> pane) option" where
  "boundPair r agentAt paneAt agentUID paneUID = (case (lookupAgent r agentAt, lookupPane r paneAt) of
     (Some a, Some p) \<Rightarrow>
       if ast_phase (a_status a) \<noteq> PhaseRunning \<or> ast_pane (a_status a) \<noteq> paneUID
         \<or> om_owner (pn_meta p) \<noteq> Some \<lparr>or_kind = KindAgent, or_uid = agentUID\<rparr>
         \<or> act_agent (pnst_activation (pn_status p)) \<noteq> agentUID
       then None else Some (a, p)
   | _ \<Rightarrow> None)"

definition activeThread :: "pane \<Rightarrow> string option" where
  "activeThread p = map_option cxb_thread (act_codex (pnst_activation (pn_status p)))"

definition RecordCodexHandoverResume ::
  "'w mutator \<Rightarrow> handover_target \<Rightarrow> codex_endpoint \<Rightarrow> codex_endpoint \<Rightarrow> string \<Rightarrow> ('w mstate, bool) comp" where
  "RecordCodexHandoverResume m target oldEndpoint successor operationID =
     (let op = ''record Codex generation handover resume'' in andThen getReg (\<lambda>r.
      case boundPair r (trimSpace (ht_agent target)) (trimSpace (ht_pane target)) (ht_agent target) (ht_pane target) of
        None \<Rightarrow> throw (stateErr op ErrInvalidRegistry)
      | Some (a, p) \<Rightarrow>
          if act_runtime (pnst_activation (pn_status p)) \<noteq> ht_runtime target
            \<or> act_generation (pnst_activation (pn_status p)) \<noteq> ht_generation target
            \<or> activeThread p \<noteq> Some (ht_thread target)
            \<or> map_option (\<lambda>e. endpointSame e oldEndpoint) (endpointOf a) \<noteq> Some True
            \<or> map_option cxs_thread (codexOf a) \<noteq> Some (ht_thread target)
            \<or> map_option cxs_started (codexOf a) \<noteq> Some True
          then throw (stateErr op ErrInvalidRegistry)
          else (let receipt = \<lparr>crr_operation = trimSpace operationID, crr_successor = successor, crr_agent = ht_agent target,
                  crr_pane = ht_pane target, crr_runtime = ht_runtime target, crr_generation = ht_generation target,
                  crr_thread = ht_thread target\<rparr> in
            if \<not> receiptValidFor receipt (Some oldEndpoint) then throw (inputErr op ErrInvalidRegistry)
            else (case Option.bind (codexOf a) cxs_handover of
              Some current \<Rightarrow> if current = receipt then return False else throw (stateErr op ErrInvalidRegistry)
            | None \<Rightarrow> andThen (modReg (updAgent (a_uid a) (mapCodex (\<lambda>c. c\<lparr>cxs_handover := Some receipt\<rparr>)))) (\<lambda>_.
                andThen (stamp m) (\<lambda>_. return True))))))"

definition trimTarget :: "handover_target \<Rightarrow> handover_target" where
  "trimTarget t = \<lparr>ht_agent = trimSpace (ht_agent t), ht_pane = trimSpace (ht_pane t), ht_runtime = trimSpace (ht_runtime t),
     ht_generation = trimSpace (ht_generation t), ht_relaunch = trimSpace (ht_relaunch t), ht_thread = trimSpace (ht_thread t)\<rparr>"

definition relaunched :: "handover_target \<Rightarrow> string \<Rightarrow> time \<Rightarrow> pane \<Rightarrow> pane" where
  "relaunched t operationID now p = p\<lparr>pn_status := (pn_status p)\<lparr>pnst_activation := emptyActivation\<lparr>
       act_generation := ht_relaunch t, act_runtime := ht_runtime t, act_agent := ht_agent t,
       act_operation := trimSpace operationID, act_started := now,
       act_codex := Some \<lparr>cxb_thread = ht_thread t, cxb_turn = '''', cxb_authority = None\<rparr>\<rparr>,
     pnst_termination := None, pnst_teardown := None\<rparr>\<rparr>"

definition onEndpoint :: "codex_endpoint \<Rightarrow> codex_session \<Rightarrow> codex_session" where
  "onEndpoint e c = c\<lparr>cxs_endpoint := Some e, cxs_lifecycle := Some \<lparr>cl_state = StateCurrent, cl_operation = None\<rparr>,
     cxs_handover := None\<rparr>"

definition threadTaken :: "registry \<Rightarrow> handover_target \<Rightarrow> codex_endpoint \<Rightarrow> bool" where
  "threadTaken r t successor \<longleftrightarrow> list_ex (\<lambda>other. a_uid other \<noteq> ht_agent t \<and> (case codexOf other of
      None \<Rightarrow> False
    | Some c \<Rightarrow> (case cxs_endpoint c of
        None \<Rightarrow> False | Some e \<Rightarrow> trimSpace (cxs_thread c) = ht_thread t \<and> endpointSame e successor))) (r_agents r)"

definition CASCodexHandoverTarget ::
  "'w mutator \<Rightarrow> handover_target \<Rightarrow> codex_endpoint \<Rightarrow> codex_endpoint \<Rightarrow> string \<Rightarrow> ('w mstate, bool) comp" where
  "CASCodexHandoverTarget m target0 oldEndpoint successor operationID =
     (let op = ''CAS Codex generation handover''; t = trimTarget target0 in
      if ht_agent t = '''' \<or> ht_pane t = '''' \<or> ht_runtime t = '''' \<or> ht_generation t = '''' \<or> ht_relaunch t = ''''
        \<or> ht_thread t = '''' \<or> \<not> endpointValid oldEndpoint \<or> \<not> endpointValid successor
        \<or> ce_domain oldEndpoint \<noteq> ce_domain successor \<or> endpointSame oldEndpoint successor \<or> trimSpace operationID = ''''
      then throw (inputErr op ErrInvalidRegistry)
      else andThen getReg (\<lambda>r. case boundPair r (ht_agent t) (ht_pane t) (ht_agent t) (ht_pane t) of
        None \<Rightarrow> throw (stateErr op ErrInvalidRegistry)
      | Some (a, p) \<Rightarrow>
          if act_runtime (pnst_activation (pn_status p)) \<noteq> ht_runtime t then throw (stateErr op ErrInvalidRegistry)
          else if map_option sr_provider (ast_session (a_status a)) \<noteq> Some ''codex'' \<or> endpointOf a = None
            \<or> map_option (\<lambda>c. trimSpace (cxs_thread c)) (codexOf a) \<noteq> Some (ht_thread t)
            \<or> map_option cxs_started (codexOf a) \<noteq> Some True then throw (stateErr op ErrInvalidRegistry)
          else if threadTaken r t successor then throw (stateErr op ErrInvalidRegistry)
          else if endpointSame (the (endpointOf a)) successor
            \<and> act_generation (pnst_activation (pn_status p)) = ht_relaunch t
            \<and> act_operation (pnst_activation (pn_status p)) = operationID \<and> activeThread p = Some (ht_thread t)
          then return False
          else if \<not> endpointSame (the (endpointOf a)) oldEndpoint
            \<or> act_generation (pnst_activation (pn_status p)) \<noteq> ht_generation t \<or> activeThread p \<noteq> Some (ht_thread t)
          then throw (stateErr op ErrInvalidRegistry)
          else andThen (modReg (updAgent (ht_agent t) (mapCodex (onEndpoint successor)))) (\<lambda>_. andThen (clock m) (\<lambda>now.
            andThen (modReg (\<lambda>r. (updAgent (ht_agent t) clearAgentTermination
              (updPane (ht_pane t) (relaunched t operationID now) r))\<lparr>r_updated := now\<rparr>)) (\<lambda>_. return True)))))"

section \<open>Endpoints and native bindings\<close>

definition StageCodexEndpoint :: "'w mutator \<Rightarrow> string \<Rightarrow> codex_endpoint \<Rightarrow> ('w mstate, unit) comp" where
  "StageCodexEndpoint m uid0 e = (let op = ''prepare Codex endpoint''; uid = trimSpace uid0 in
     if uid = '''' \<or> \<not> endpointValid e then throw (inputErr op ErrInvalidRegistry)
     else andThen getReg (\<lambda>r. case lookupAgent r uid of
       None \<Rightarrow> throw (stateErr op ErrInvalidRegistry)
     | Some a \<Rightarrow>
         if as_provider (a_spec a) \<noteq> ''codex'' \<or> ast_phase (a_status a) \<noteq> PhaseRunning then throw (stateErr op ErrInvalidRegistry)
         else if \<not> refEmpty (ast_session (a_status a)) then throw (stateErr op ErrInvalidRegistry)
         else andThen (clock m) (\<lambda>now. andThen (modReg (updAgent uid (setRef (Some ((emptyRef ''codex'' now)\<lparr>sr_codex :=
             Some \<lparr>cxs_thread = '''', cxs_session = '''', cxs_started = False, cxs_endpoint = Some e,
               cxs_lifecycle = Some \<lparr>cl_state = StateCurrent, cl_operation = None\<rparr>, cxs_handover = None\<rparr>\<rparr>))))) (\<lambda>_. stamp m))))"

definition AdoptCodexResumeEndpoint :: "'w mutator \<Rightarrow> string \<Rightarrow> codex_endpoint \<Rightarrow> ('w mstate, bool) comp" where
  "AdoptCodexResumeEndpoint m uid0 e = (let op = ''adopt Codex resume endpoint''; uid = trimSpace uid0 in
     if uid = '''' \<or> \<not> endpointValid e then throw (inputErr op ErrInvalidRegistry)
     else withAgent op uid (\<lambda>a. case (codexOf a, endpointOf a) of
       (Some c, Some current) \<Rightarrow>
         if map_option sr_provider (ast_session (a_status a)) \<noteq> Some ''codex'' \<or> \<not> endpointValid current
           \<or> trimSpace (cxs_thread c) = '''' then throw (stateErr op ErrInvalidRegistry)
         else if ce_domain current \<noteq> ce_domain e then throw (stateErr op ErrInvalidRegistry)
         else if endpointSame current e \<and> cxs_handover c = None
           \<and> cxs_lifecycle c = Some \<lparr>cl_state = StateCurrent, cl_operation = None\<rparr> then return False
         else andThen (modReg (updAgent uid (mapCodex (onEndpoint e)))) (\<lambda>_. andThen (stamp m) (\<lambda>_. return True))
     | _ \<Rightarrow> throw (stateErr op ErrInvalidRegistry)))"

definition normalizeCodexActivationObservation :: "activation_observation \<Rightarrow> activation_observation" where
  "normalizeCodexActivationObservation x = \<lparr>ob_agent = trimSpace (ob_agent x), ob_pane = trimSpace (ob_pane x),
     ob_generation = trimSpace (ob_generation x), ob_thread = trimSpace (ob_thread x), ob_turn = trimSpace (ob_turn x),
     ob_endpoint = \<lparr>ce_domain = trimSpace (ce_domain (ob_endpoint x)), ce_generation = trimSpace (ce_generation (ob_endpoint x))\<rparr>\<rparr>"

definition exactCodexActivationTarget :: "registry \<Rightarrow> activation_observation \<Rightarrow> (agent \<times> pane) option" where
  "exactCodexActivationTarget r obs = (case boundPair r (ob_agent obs) (ob_pane obs) (ob_agent obs) (ob_pane obs) of
     None \<Rightarrow> None
   | Some (a, p) \<Rightarrow> if act_generation (pnst_activation (pn_status p)) \<noteq> ob_generation obs then None else Some (a, p))"

definition setCodexBinding :: "string \<Rightarrow> string \<Rightarrow> pane \<Rightarrow> pane" where
  "setCodexBinding thread turn p = setActivation ((pnst_activation (pn_status p))\<lparr>act_codex :=
     Some \<lparr>cxb_thread = thread, cxb_turn = turn, cxb_authority = None\<rparr>\<rparr>) p"

definition startTurn :: "codex_session \<Rightarrow> codex_session" where
  "startTurn c = c\<lparr>cxs_started := True\<rparr>"

text \<open>
  The session reference a native binding fills in or confirms. A first thread also refreshes the observation
  time, with a clock reading of its own.
\<close>

definition bindThread :: "'w mutator \<Rightarrow> activation_observation \<Rightarrow> agent \<Rightarrow> ('w mstate, unit) comp" where
  "bindThread m obs a = (let op = ''bind Codex activation''; uid = ob_agent obs in
     if \<not> refEmpty (ast_session (a_status a)) then
       (case codexOf a of
          None \<Rightarrow> throw (stateErr op ErrInvalidRegistry)
        | Some c \<Rightarrow>
            if map_option sr_provider (ast_session (a_status a)) \<noteq> Some ''codex''
              \<or> map_option (\<lambda>e. endpointSame e (ob_endpoint obs)) (cxs_endpoint c) \<noteq> Some True
              \<or> (trimSpace (cxs_thread c) \<noteq> '''' \<and> trimSpace (cxs_thread c) \<noteq> ob_thread obs)
            then throw (stateErr op ErrInvalidRegistry)
            else andThen (modReg (updAgent uid (mapCodex (\<lambda>c. c\<lparr>cxs_thread := ob_thread obs,
                   cxs_started := cxs_started c \<or> ob_turn obs \<noteq> ''''\<rparr>)))) (\<lambda>_.
              if trimSpace (cxs_thread c) = '''' then andThen (clock m) (\<lambda>now. modReg (updAgent uid (\<lambda>a.
                setRef (map_option (\<lambda>r. r\<lparr>sr_observed := now\<rparr>) (ast_session (a_status a))) a)))
              else return ()))
     else andThen (clock m) (\<lambda>now.
       case NewAgentSessionRef \<lparr>so_provider = ''codex'', so_session = '''', so_thread = ob_thread obs, so_transcript = '''',
              so_endpoint = Some (ob_endpoint obs)\<rparr> now of
         None \<Rightarrow> throw (inputErr op ErrInvalidRegistry)
       | Some ref \<Rightarrow> modReg (updAgent uid (setRef (Some ref)))))"

definition BindCodexActivation :: "'w mutator \<Rightarrow> activation_observation \<Rightarrow> ('w mstate, bool) comp" where
  "BindCodexActivation m obs0 = (let op = ''bind Codex activation''; obs = normalizeCodexActivationObservation obs0 in
     if ob_agent obs = '''' \<or> ob_pane obs = '''' \<or> ob_generation obs = '''' \<or> ob_thread obs = ''''
       \<or> \<not> endpointValid (ob_endpoint obs) then throw (inputErr op ErrInvalidRegistry)
     else andThen getReg (\<lambda>r. case exactCodexActivationTarget r obs of
       None \<Rightarrow> throw (stateErr op ErrInvalidRegistry)
     | Some (a, p) \<Rightarrow> andThen (bindThread m obs a) (\<lambda>_.
         if map_option (\<lambda>b. (cxb_thread b, cxb_turn b)) (act_codex (pnst_activation (pn_status p))) = Some (ob_thread obs, ob_turn obs)
         then return False
         else andThen (modReg (\<lambda>r. updPane (ob_pane obs) (setCodexBinding (ob_thread obs) (ob_turn obs))
                (updAgent (ob_agent obs) (setProgress emptyProgress) r))) (\<lambda>_.
           andThen (if ob_turn obs \<noteq> ''''
             then andThen (SetAgentActivation m (ob_agent obs) ActivationAcknowledged ''provider-control-plane'' '''') (\<lambda>_. return ())
             else return ()) (\<lambda>_. andThen (stamp m) (\<lambda>_. return True))))))"

definition RefineCodexActivation :: "'w mutator \<Rightarrow> activation_observation \<Rightarrow> ('w mstate, bool) comp" where
  "RefineCodexActivation m obs0 = (let obs = normalizeCodexActivationObservation obs0 in andThen getReg (\<lambda>r.
     case exactCodexActivationTarget r obs of
       None \<Rightarrow> return False
     | Some (a, p) \<Rightarrow>
         if activeThread p \<noteq> Some (ob_thread obs) \<or> ob_thread obs = '''' \<or> ob_turn obs = ''''
           \<or> map_option (\<lambda>e. endpointSame e (ob_endpoint obs)) (endpointOf a) \<noteq> Some True
           \<or> map_option (\<lambda>c. trimSpace (cxs_thread c)) (codexOf a) \<noteq> Some (ob_thread obs) then return False
         else if map_option cxb_turn (act_codex (pnst_activation (pn_status p))) = Some (ob_turn obs) then
           (if map_option cxs_started (codexOf a) = Some True then return False
            else andThen (modReg (updAgent (ob_agent obs) (mapCodex startTurn))) (\<lambda>_. andThen (stamp m) (\<lambda>_. return True)))
         else andThen (modReg (\<lambda>r. updAgent (ob_agent obs) (\<lambda>a. mapCodex startTurn (setProgress emptyProgress a))
             (updPane (ob_pane obs) (\<lambda>p. setActivation ((pnst_activation (pn_status p))\<lparr>act_codex :=
                map_option (\<lambda>b. b\<lparr>cxb_turn := ob_turn obs\<rparr>) (act_codex (pnst_activation (pn_status p)))\<rparr>) p) r))) (\<lambda>_.
           andThen (stamp m) (\<lambda>_. return True))))"

section \<open>Calls that present an endpoint\<close>

datatype native_call =
    HandoverResume handover_target codex_endpoint codex_endpoint string
  | Handover handover_target codex_endpoint codex_endpoint string
  | BindThread activation_observation
  | RefineTurn activation_observation
  | MarkLifecycle string codex_endpoint codex_lifecycle

fun runNative :: "'w mutator \<Rightarrow> native_call \<Rightarrow> 'w mstate \<Rightarrow> 'w mstate" where
  "runNative m (HandoverResume t e e' x) s = snd (RecordCodexHandoverResume m t e e' x s)"
| "runNative m (Handover t e e' x) s = snd (CASCodexHandoverTarget m t e e' x s)"
| "runNative m (BindThread obs) s = snd (BindCodexActivation m obs s)"
| "runNative m (RefineTurn obs) s = snd (RefineCodexActivation m obs s)"
| "runNative m (MarkLifecycle u e l) s = snd (SetCodexGenerationLifecycle m u e l s)"

fun namesAgent :: "native_call \<Rightarrow> string" where
  "namesAgent (HandoverResume t e e' x) = trimSpace (ht_agent t)"
| "namesAgent (Handover t e e' x) = trimSpace (ht_agent t)"
| "namesAgent (BindThread obs) = trimSpace (ob_agent obs)"
| "namesAgent (RefineTurn obs) = trimSpace (ob_agent obs)"
| "namesAgent (MarkLifecycle u e l) = u"

fun presents :: "native_call \<Rightarrow> codex_endpoint" where
  "presents (HandoverResume t e e' x) = e"
| "presents (Handover t e e' x) = e"
| "presents (BindThread obs) = ob_endpoint (normalizeCodexActivationObservation obs)"
| "presents (RefineTurn obs) = ob_endpoint (normalizeCodexActivationObservation obs)"
| "presents (MarkLifecycle u e l) = e"

definition runNatives :: "'w mutator \<Rightarrow> native_call list \<Rightarrow> 'w mstate \<Rightarrow> 'w mstate" where
  "runNatives m cs s = foldl (\<lambda>s c. runNative m c s) s cs"

lemma boundPair_agent: "boundPair r u v x y = Some (a, p) \<Longrightarrow> lookupAgent r u = Some a \<and> lookupPane r v = Some p"
  by (auto simp: boundPair_def split: option.splits if_splits)

lemma snd_pure [simp]: "snd (throw e s) = s" "snd (return v s) = s"
  by (simp_all add: comp_defs)

lemma endpointOf_codex: "endpointOf a = Some e \<Longrightarrow> \<exists>c. codexOf a = Some c \<and> cxs_endpoint c = Some e"
  by (simp add: endpointOf_def Option.bind_eq_Some_conv)

lemma refEmpty_codex: "codexOf a = Some c \<Longrightarrow> \<not> refEmpty (ast_session (a_status a))"
  by (auto simp: codexOf_def refEmpty_def Option.bind_eq_Some_conv)

lemma endpointSame_sym: "endpointSame e f \<longleftrightarrow> endpointSame f e"
  by (auto simp: endpointSame_def)

text \<open>A call that presents another endpoint than the one its Agent is on writes nothing.\<close>

lemma foreign_resume:
  assumes "lookupAgent (ms_reg s) (trimSpace (ht_agent t)) = Some a" "endpointOf a = Some e" "\<not> endpointSame e old"
  shows "snd (RecordCodexHandoverResume m t old succ x s) = s"
  using assms unfolding RecordCodexHandoverResume_def Let_def getReg_run
  by (auto split: option.split dest: boundPair_agent)

lemma foreign_handover:
  assumes "lookupAgent (ms_reg s) (trimSpace (ht_agent t)) = Some a" "endpointOf a = Some e" "\<not> endpointSame e old"
  shows "snd (CASCodexHandoverTarget m t old succ x s) = s"
proof -
  have "ht_agent (trimTarget t) = trimSpace (ht_agent t)" by (simp add: trimTarget_def)
  then show ?thesis
    using assms unfolding CASCodexHandoverTarget_def Let_def getReg_run
    by (auto simp: getReg_run split: option.split dest: boundPair_agent)
qed

lemma exactTarget_agent: "exactCodexActivationTarget r obs = Some (a, p) \<Longrightarrow> lookupAgent r (ob_agent obs) = Some a"
  by (auto simp: exactCodexActivationTarget_def split: option.splits if_splits dest: boundPair_agent)

lemma normalize_agent [simp]: "ob_agent (normalizeCodexActivationObservation x) = trimSpace (ob_agent x)"
  by (simp add: normalizeCodexActivationObservation_def)

lemma foreign_bind:
  assumes "lookupAgent (ms_reg s) (trimSpace (ob_agent obs)) = Some a" "endpointOf a = Some e"
    "\<not> endpointSame e (ob_endpoint (normalizeCodexActivationObservation obs))"
  shows "snd (BindCodexActivation m obs s) = s"
proof -
  from endpointOf_codex [OF assms(2)] obtain c where c: "codexOf a = Some c" "cxs_endpoint c = Some e" by blast
  then have "bindThread m (normalizeCodexActivationObservation obs) a = throw (stateErr ''bind Codex activation'' ErrInvalidRegistry)"
    using assms(3) refEmpty_codex [OF c(1)] by (simp add: bindThread_def Let_def)
  then show ?thesis
    unfolding BindCodexActivation_def Let_def
    by (auto simp: getReg_run split: option.split) (auto simp: assms(1) comp_defs dest!: exactTarget_agent)
qed

lemma foreign_refine:
  assumes "lookupAgent (ms_reg s) (trimSpace (ob_agent obs)) = Some a" "endpointOf a = Some e"
    "\<not> endpointSame e (ob_endpoint (normalizeCodexActivationObservation obs))"
  shows "snd (RefineCodexActivation m obs s) = s"
  unfolding RefineCodexActivation_def Let_def getReg_run
  using assms by (auto split: option.split dest!: exactTarget_agent)

lemma foreign_lifecycle:
  assumes "lookupAgent (ms_reg s) u = Some a" "endpointOf a = Some e" "\<not> endpointSame e f"
  shows "snd (SetCodexGenerationLifecycle m u f l s) = s"
  unfolding SetCodexGenerationLifecycle_def withAgent_def Let_def getReg_run
  using assms by simp

lemma foreign_inert:
  assumes "lookupAgent (ms_reg s) (namesAgent c) = Some a" "endpointOf a = Some e" "\<not> endpointSame e (presents c)"
  shows "runNative m c s = s"
  using assms by (cases c)
    (simp_all add: foreign_resume foreign_handover foreign_bind foreign_refine foreign_lifecycle)

lemma foreign_run:
  assumes "lookupAgent (ms_reg s) u = Some a" "endpointOf a = Some e"
    and "\<forall>c \<in> set cs. namesAgent c = u \<and> \<not> endpointSame e (presents c)"
  shows "runNatives m cs s = s"
  using assms(3)
proof (induction cs)
  case (Cons c cs)
  then have "runNative m c s = s" by (intro foreign_inert [where a = a and e = e]) (simp_all add: assms(1,2))
  with Cons show ?case by (simp add: runNatives_def)
qed (simp add: runNatives_def)

section \<open>A handover that succeeded\<close>

definition handedOver :: "handover_target \<Rightarrow> codex_endpoint \<Rightarrow> string \<Rightarrow> time \<Rightarrow> registry \<Rightarrow> registry" where
  "handedOver t successor operationID now r = (updAgent (ht_agent t) clearAgentTermination
     (updPane (ht_pane t) (relaunched t operationID now) (updAgent (ht_agent t) (mapCodex (onEndpoint successor)) r)))\<lparr>r_updated := now\<rparr>"

lemma CAS_success:
  assumes "CASCodexHandoverTarget m t0 old succ x s = (Inr True, s')" and t: "t = trimTarget t0"
  obtains a p c now where "boundPair (ms_reg s) (ht_agent t) (ht_pane t) (ht_agent t) (ht_pane t) = Some (a, p)"
    "act_runtime (pnst_activation (pn_status p)) = ht_runtime t" "codexOf a = Some c"
    "map_option sr_provider (ast_session (a_status a)) = Some ''codex''" "trimSpace (cxs_thread c) = ht_thread t"
    "cxs_started c" "\<not> threadTaken (ms_reg s) t succ" "\<not> endpointSame old succ" "endpointValid succ" "ht_agent t \<noteq> ''''"
    "ms_reg s' = handedOver t succ x now (ms_reg s)"
proof -
  let ?t = "trimTarget t0"
  let ?wr = "andThen (modReg (updAgent (ht_agent ?t) (mapCodex (onEndpoint succ)))) (\<lambda>_. andThen (clock m) (\<lambda>now.
            andThen (modReg (\<lambda>r. (updAgent (ht_agent ?t) clearAgentTermination
              (updPane (ht_pane ?t) (relaunched ?t x now) r))\<lparr>r_updated := now\<rparr>)) (\<lambda>_. return True)))"
  from assms obtain a p where b: "boundPair (ms_reg s) (ht_agent ?t) (ht_pane ?t) (ht_agent ?t) (ht_pane ?t) = Some (a, p)"
    and g: "act_runtime (pnst_activation (pn_status p)) = ht_runtime ?t" "map_option sr_provider (ast_session (a_status a)) = Some ''codex''"
      "map_option (\<lambda>c. trimSpace (cxs_thread c)) (codexOf a) = Some (ht_thread ?t)" "map_option cxs_started (codexOf a) = Some True"
      "\<not> threadTaken (ms_reg s) ?t succ" "\<not> endpointSame old succ" "endpointValid succ" "ht_agent ?t \<noteq> ''''"
    and w: "?wr s = (Inr True, s')"
    unfolding CASCodexHandoverTarget_def Let_def
    by (auto simp: run_simps getReg_run split: if_splits option.splits)
  from g(3,4) obtain c where "codexOf a = Some c" "trimSpace (cxs_thread c) = ht_thread ?t" "cxs_started c" by auto
  moreover from w obtain now where "ms_reg s' = handedOver ?t succ x now (ms_reg s)"
    by (auto simp: handedOver_def comp_defs modReg_def clock_def split: prod.splits)
  ultimately show ?thesis using b g that unfolding t by blast
qed

lemma codex_rows [simp]:
  "a_uid (mapCodex f a) = a_uid a" "a_uid (clearAgentTermination a) = a_uid a" "pn_uid (relaunched t x now p) = pn_uid p"
  "codexOf (mapCodex f a) = map_option f (codexOf a)" "codexOf (clearAgentTermination a) = codexOf a"
  "pn_meta (relaunched t x now p) = pn_meta p" "ast_phase (a_status (mapCodex f a)) = ast_phase (a_status a)"
  "ast_pane (a_status (mapCodex f a)) = ast_pane (a_status a)"
  "ast_phase (a_status (clearAgentTermination a)) = ast_phase (a_status a)"
  "ast_pane (a_status (clearAgentTermination a)) = ast_pane (a_status a)"
  "map_option sr_provider (ast_session (a_status (mapCodex f a))) = map_option sr_provider (ast_session (a_status a))"
  "ast_session (a_status (clearAgentTermination a)) = ast_session (a_status a)"
  by (simp_all add: mapCodex_def setRef_def clearAgentTermination_def relaunched_def codexOf_def option.map_comp comp_def
      split: bind_splits option.splits)

lemma handedOver_lookup:
  "lookupAgent (handedOver t e x now r) u = (if ht_agent t = u
     then map_option (\<lambda>a. clearAgentTermination (mapCodex (onEndpoint e) a)) (lookupAgent r u) else lookupAgent r u)"
  "lookupPane (handedOver t e x now r) v = (if ht_pane t = v then map_option (relaunched t x now) (lookupPane r v) else lookupPane r v)"
  by (simp_all add: handedOver_def lookupAgent_updAgent lookupPane_updPane option.map_comp comp_def)

lemma list_ex_updFirst:
  "(\<And>x. p x \<Longrightarrow> \<not> q x \<and> \<not> q (f x)) \<Longrightarrow> list_ex q (updFirst p f xs) = list_ex q xs"
  by (induction xs) auto

lemma threadTaken_handedOver: "threadTaken (handedOver t e x now r) t f = threadTaken r t f"
proof -
  have "r_agents (handedOver t e x now r) = updFirst (\<lambda>a. a_uid a = ht_agent t) clearAgentTermination
      (updFirst (\<lambda>a. a_uid a = ht_agent t) (mapCodex (onEndpoint e)) (r_agents r))"
    by (simp add: handedOver_def upd_defs)
  then show ?thesis by (simp add: threadTaken_def list_ex_updFirst)
qed

lemma endpointSame_refl: "endpointValid e \<Longrightarrow> endpointSame e e"
  by (simp add: endpointSame_def)

text \<open>a handover happens once. After \<open>CASCodexHandoverTarget\<close> moved a thread to its successor endpoint, every
  call of a native writer on that Agent that still presents the old endpoint (a late receipt, a second handover to
  another successor, a binding, a turn, a lifecycle marker), in any number and order, leaves the whole state as it
  is, and the same handover with the same operation id is recognised as a retry that changes nothing.\<close>

theorem handover_happens_once:
  assumes "CASCodexHandoverTarget m t old succ x s = (Inr True, s')" and "trimSpace x = x"
    and "\<forall>c \<in> set cs. namesAgent c = trimSpace (ht_agent t) \<and> presents c = old"
  shows "runNatives m cs s' = s' \<and> CASCodexHandoverTarget m t old succ x s' = (Inr False, s')"
proof
  let ?t = "trimTarget t"
  obtain a p c now where b: "boundPair (ms_reg s) (ht_agent ?t) (ht_pane ?t) (ht_agent ?t) (ht_pane ?t) = Some (a, p)"
    and rt: "act_runtime (pnst_activation (pn_status p)) = ht_runtime ?t" and c: "codexOf a = Some c"
    and pr: "map_option sr_provider (ast_session (a_status a)) = Some ''codex''" and th: "trimSpace (cxs_thread c) = ht_thread ?t"
    and st: "cxs_started c" and nt: "\<not> threadTaken (ms_reg s) ?t succ" and ne: "\<not> endpointSame old succ"
    and ev: "endpointValid succ" and "ht_agent ?t \<noteq> ''''" and s': "ms_reg s' = handedOver ?t succ x now (ms_reg s)"
    by (rule CAS_success [OF assms(1) refl])
  let ?a = "clearAgentTermination (mapCodex (onEndpoint succ) a)" and ?p = "relaunched ?t x now p"
  from boundPair_agent [OF b] have la: "lookupAgent (ms_reg s') (ht_agent ?t) = Some ?a"
    and lp: "lookupPane (ms_reg s') (ht_pane ?t) = Some ?p"
    by (simp_all add: s' handedOver_lookup)
  have ce: "codexOf ?a = Some (onEndpoint succ c)" using c by simp
  have ee: "endpointOf ?a = Some succ" by (simp add: endpointOf_def c) (simp add: onEndpoint_def)
  have u: "ht_agent ?t = trimSpace (ht_agent t)" by (simp add: trimTarget_def)
  show "runNatives m cs s' = s'"
    by (rule foreign_run [OF la ee]) (use assms(3) ne in \<open>auto simp: u endpointSame_sym\<close>)
  have b': "boundPair (ms_reg s') (ht_agent ?t) (ht_pane ?t) (ht_agent ?t) (ht_pane ?t) = Some (?a, ?p)"
    using b by (auto simp: boundPair_def la lp relaunched_def split: option.splits if_splits)
  have act: "pnst_activation (pn_status ?p) = emptyActivation\<lparr>act_generation := ht_relaunch ?t, act_runtime := ht_runtime ?t,
      act_agent := ht_agent ?t, act_operation := x, act_started := now,
      act_codex := Some \<lparr>cxb_thread = ht_thread ?t, cxb_turn = '''', cxb_authority = None\<rparr>\<rparr>"
    by (simp add: relaunched_def assms(2))
  show "CASCodexHandoverTarget m t old succ x s' = (Inr False, s')"
  proof -
    have open_guard: "\<not> (ht_agent ?t = '''' \<or> ht_pane ?t = '''' \<or> ht_runtime ?t = '''' \<or> ht_generation ?t = '''' \<or> ht_relaunch ?t = ''''
        \<or> ht_thread ?t = '''' \<or> \<not> endpointValid old \<or> \<not> endpointValid succ
        \<or> ce_domain old \<noteq> ce_domain succ \<or> endpointSame old succ \<or> trimSpace x = '''')"
      using assms(1) unfolding CASCodexHandoverTarget_def Let_def by (auto simp: run_simps split: if_splits)
    have nt': "\<not> threadTaken (ms_reg s') ?t succ" by (simp add: s' threadTaken_handedOver nt)
    have th': "map_option (\<lambda>c. trimSpace (cxs_thread c)) (codexOf ?a) = Some (ht_thread ?t)"
      and st': "map_option cxs_started (codexOf ?a) = Some True"
      using th st by (simp_all only: ce) (simp_all add: onEndpoint_def)
    have pr': "map_option sr_provider (ast_session (a_status ?a)) = Some ''codex''" using pr by simp
    have rt': "act_runtime (pnst_activation (pn_status ?p)) = ht_runtime ?t"
      and retry: "act_generation (pnst_activation (pn_status ?p)) = ht_relaunch ?t"
        "act_operation (pnst_activation (pn_status ?p)) = x" "activeThread ?p = Some (ht_thread ?t)"
      by (simp_all only: act activeThread_def) simp_all
    show ?thesis
      unfolding CASCodexHandoverTarget_def Let_def
      by (simp only: if_not_P [OF open_guard] getReg_run b' option.case prod.case rt' pr' th' st' ee nt' retry option.sel
          endpointSame_refl [OF ev] simp_thms if_False if_True option.distinct return_def)
  qed
qed

section \<open>Observing a conversation again\<close>

lemma SameConversation_refl [simp]: "SameConversation r r"
  by (auto simp: SameConversation_def sameCodexSessionRef_def split: option.split)

text \<open>Observations of one hook differ in their time only.\<close>

definition sameRef :: "session_ref \<Rightarrow> session_ref \<Rightarrow> bool" where
  "sameRef x y \<longleftrightarrow> x\<lparr>sr_observed := zeroTime\<rparr> = y\<lparr>sr_observed := zeroTime\<rparr>"

lemma sameRef_fields: "sameRef x y \<longleftrightarrow> sr_provider x = sr_provider y \<and> sr_claude x = sr_claude y \<and> sr_codex x = sr_codex y
    \<and> sr_antigravity x = sr_antigravity y"
  by (cases x, cases y) (auto simp: sameRef_def)

lemma NewAgentSessionRef_time:
  "NewAgentSessionRef obs now = Some ref \<Longrightarrow> \<exists>ref'. NewAgentSessionRef obs now' = Some ref' \<and> sameRef ref ref'"
  by (auto simp: NewAgentSessionRef_def Let_def emptyRef_def sameRef_def split: if_splits)

lemma SameConversation_sameRef: "sameRef x y \<Longrightarrow> SameConversation (Some x) (Some y)"
  by (auto simp: sameRef_fields SameConversation_def sameCodexSessionRef_def split: option.split)

text \<open>Carrying what is stored is idempotent: a reference that was carried is carried onto itself.\<close>

lemma carryCodex_again:
  assumes "sameRef ref ref'"
  shows "sameRef (carryCodex stored ref) (carryCodex (Some (carryCodex stored ref)) ref')"
  using assms
  by (auto simp: carryCodex_def sameRef_fields sameCodexThreadObservation_def split: option.splits if_splits)

lemma SameConversation_carry:
  assumes "SameConversation stored (Some (carryCodex stored ref))" and "sameRef ref ref'"
  shows "SameConversation stored (Some (carryCodex stored ref'))"
proof -
  have "sameRef (carryCodex stored ref) (carryCodex stored ref')"
    using assms(2) by (auto simp: carryCodex_def sameRef_fields split: option.split)
  with assms(1) show ?thesis by (cases stored) (auto simp: SameConversation_def sameRef_fields)
qed

lemma carryCodex_provider [simp]: "sr_provider (carryCodex stored ref) = sr_provider ref"
  by (auto simp: carryCodex_def split: option.split)

lemma recorded_ref:
  assumes "RecordAgentSessionRef m u obs s = (Inr (a', ch), s')"
  obtains a now ref t where "lookupAgent (ms_reg s) u = Some a" "NewAgentSessionRef obs now = Some ref"
    "as_provider (a_spec a) = '''' \<or> as_provider (a_spec a) = sr_provider ref"
    "SameConversation (ast_session (a_status a)) (Some (carryCodex (ast_session (a_status a)) ref)) \<and> ms_reg s' = ms_reg s \<and> \<not> ch
     \<or> ch \<and> ms_reg s' = (updAgent u (setRef (Some (carryCodex (ast_session (a_status a)) ref))) (ms_reg s))\<lparr>r_updated := t\<rparr>"
  using assms unfolding RecordAgentSessionRef_def withAgent_def Let_def getReg_run
  by (auto simp: comp_defs clock_def modReg_def stamp_def split: option.splits prod.splits if_splits)

lemma observe_again:
  assumes "lookupAgent (ms_reg s) u = Some a" "NewAgentSessionRef obs now = Some ref"
    and "as_provider (a_spec a) = '''' \<or> as_provider (a_spec a) = sr_provider ref"
    and "\<And>ref'. sameRef ref ref' \<Longrightarrow> SameConversation (ast_session (a_status a)) (Some (carryCodex (ast_session (a_status a)) ref'))"
  shows "\<exists>w. RecordAgentSessionRef m u obs s = (Inr (a, False), s\<lparr>ms_world := w\<rparr>)"
proof -
  obtain now' w where n: "Now m (ms_world s) = (now', w)" by fastforce
  from NewAgentSessionRef_time [OF assms(2)] obtain ref' where ref': "NewAgentSessionRef obs now' = Some ref'" "sameRef ref ref'" by blast
  have "sr_provider ref' = sr_provider ref" using ref'(2) by (simp add: sameRef_fields)
  with assms(3) have p: "\<not> (as_provider (a_spec a) \<noteq> '''' \<and> as_provider (a_spec a) \<noteq> sr_provider ref')" by auto
  show ?thesis
    unfolding RecordAgentSessionRef_def withAgent_def Let_def getReg_run assms(1)
    by (simp add: andThen_def clock_def n ref'(1) if_not_P [OF p] assms(4) [OF ref'(2)] return_def, rule exI, rule refl)
qed

text \<open>observing a conversation is idempotent. After a hook's observation was recorded, the same observation at
  any later time reports no change and leaves the Registry exactly as it is, for every provider, whether the first
  one wrote or not; a hook that fires on every turn does not rewrite the Registry.\<close>

theorem observation_is_idempotent:
  assumes "RecordAgentSessionRef m u obs s = (Inr (a, changed), s')"
  shows "\<exists>a' w. RecordAgentSessionRef m u obs s' = (Inr (a', False), s'\<lparr>ms_world := w\<rparr>)"
proof -
  obtain b now ref t where b: "lookupAgent (ms_reg s) u = Some b" and ref: "NewAgentSessionRef obs now = Some ref"
    and prov: "as_provider (a_spec b) = '''' \<or> as_provider (a_spec b) = sr_provider ref"
    and out: "SameConversation (ast_session (a_status b)) (Some (carryCodex (ast_session (a_status b)) ref)) \<and> ms_reg s' = ms_reg s \<and> \<not> changed
     \<or> changed \<and> ms_reg s' = (updAgent u (setRef (Some (carryCodex (ast_session (a_status b)) ref))) (ms_reg s))\<lparr>r_updated := t\<rparr>"
    by (rule recorded_ref [OF assms])
  from out show ?thesis
  proof (elim disjE conjE)
    assume "SameConversation (ast_session (a_status b)) (Some (carryCodex (ast_session (a_status b)) ref))" "ms_reg s' = ms_reg s"
    then show ?thesis using observe_again [of s' u b obs now ref m] b ref prov SameConversation_carry by auto
  next
    assume s': "ms_reg s' = (updAgent u (setRef (Some (carryCodex (ast_session (a_status b)) ref))) (ms_reg s))\<lparr>r_updated := t\<rparr>"
    let ?b = "setRef (Some (carryCodex (ast_session (a_status b)) ref)) b"
    have "lookupAgent (ms_reg s') u = Some ?b"
      by (simp add: s' lookupAgent_updAgent b) (simp add: setRef_def lookupAgent_updAgent b)
    moreover have "as_provider (a_spec ?b) = '''' \<or> as_provider (a_spec ?b) = sr_provider ref" using prov by (simp add: setRef_def)
    moreover have "SameConversation (ast_session (a_status ?b)) (Some (carryCodex (ast_session (a_status ?b)) ref'))"
      if "sameRef ref ref'" for ref'
      using SameConversation_sameRef [OF carryCodex_again [OF that]] by (simp add: setRef_def)
    ultimately show ?thesis using observe_again [of s' u ?b obs now ref m] ref by blast
  qed
qed

section \<open>A small handover\<close>

definition demoEndpoint :: "string \<Rightarrow> codex_endpoint" where
  "demoEndpoint g = \<lparr>ce_domain = ''d'', ce_generation = g\<rparr>"

definition demoCodex :: "nat mstate" where
  "demoCodex = demoState\<lparr>ms_reg :=
     updPane ''p'' (setActivation (emptyActivation\<lparr>act_generation := ''g'', act_runtime := ''r'', act_agent := ''a'',
       act_codex := Some \<lparr>cxb_thread = ''t'', cxb_turn = ''n'', cxb_authority = None\<rparr>\<rparr>))
     (updAgent ''a'' (\<lambda>a. setRef (Some ((emptyRef ''codex'' 7)\<lparr>sr_codex := Some \<lparr>cxs_thread = ''t'', cxs_session = '''',
         cxs_started = True, cxs_endpoint = Some (demoEndpoint ''1''), cxs_lifecycle = None, cxs_handover = None\<rparr>\<rparr>))
         (a\<lparr>a_spec := (a_spec a)\<lparr>as_provider := ''codex''\<rparr>\<rparr>)) demoRegistry)\<rparr>"

definition demoTarget :: handover_target where
  "demoTarget = \<lparr>ht_agent = ''a'', ht_pane = ''p'', ht_runtime = ''r'', ht_generation = ''g'', ht_relaunch = ''h'', ht_thread = ''t''\<rparr>"

definition demoHandover :: "string \<Rightarrow> nat mstate \<Rightarrow> (error + bool) \<times> nat mstate" where
  "demoHandover x = CASCodexHandoverTarget (demoMutator 9) demoTarget (demoEndpoint ''1'') (demoEndpoint ''2'') x"

lemma handover_happens_once_witness:
  "runNatives (demoMutator 9)
      [Handover demoTarget (demoEndpoint ''1'') (demoEndpoint ''3'') ''o'',
       RefineTurn \<lparr>ob_agent = ''a'', ob_pane = ''p'', ob_generation = ''g'', ob_thread = ''t'', ob_turn = ''m'', ob_endpoint = demoEndpoint ''1''\<rparr>]
      (snd (demoHandover ''o'' demoCodex)) = snd (demoHandover ''o'' demoCodex)
   \<and> demoHandover ''o'' (snd (demoHandover ''o'' demoCodex)) = (Inr False, snd (demoHandover ''o'' demoCodex))"
proof -
  have "fst (demoHandover ''o'' demoCodex) = Inr True" by code_simp
  then have run: "CASCodexHandoverTarget (demoMutator 9) demoTarget (demoEndpoint ''1'') (demoEndpoint ''2'') ''o'' demoCodex
      = (Inr True, snd (demoHandover ''o'' demoCodex))"
    by (simp add: demoHandover_def prod_eq_iff)
  have "trimSpace ''o'' = ''o''" "trimSpace ''a'' = ''a''" "trimSpace ''d'' = ''d''" "trimSpace ''1'' = ''1''" by code_simp+
  then show ?thesis
    using handover_happens_once [OF run, of "[Handover demoTarget (demoEndpoint ''1'') (demoEndpoint ''3'') ''o'',
       RefineTurn \<lparr>ob_agent = ''a'', ob_pane = ''p'', ob_generation = ''g'', ob_thread = ''t'', ob_turn = ''m'', ob_endpoint = demoEndpoint ''1''\<rparr>]"]
    by (simp add: demoHandover_def demoTarget_def demoEndpoint_def normalizeCodexActivationObservation_def)
qed

text \<open>
  The retry test compares the stored operation id, which is trimmed, with the argument, which is not: a handover
  whose operation id is padded succeeds, and the very same call afterwards is refused instead of recognised.
\<close>

lemma padded_handover_is_no_retry:
  "fst (demoHandover '' o'' demoCodex) = Inr True \<and> isl (fst (demoHandover '' o'' (snd (demoHandover '' o'' demoCodex))))"
  by code_simp

definition demoObservation :: session_observation where
  "demoObservation = \<lparr>so_provider = ''codex'', so_session = ''c'', so_thread = ''t'', so_transcript = '''', so_endpoint = None\<rparr>"

lemma observation_is_idempotent_witness:
  "\<exists>a' w. RecordAgentSessionRef (demoMutator 9) ''a'' demoObservation (snd (RecordAgentSessionRef (demoMutator 9) ''a'' demoObservation demoCodex))
    = (Inr (a', False), (snd (RecordAgentSessionRef (demoMutator 9) ''a'' demoObservation demoCodex))\<lparr>ms_world := w\<rparr>)"
proof -
  have "map_sum id snd (fst (RecordAgentSessionRef (demoMutator 9) ''a'' demoObservation demoCodex)) = Inr True" by code_simp
  then obtain a where "fst (RecordAgentSessionRef (demoMutator 9) ''a'' demoObservation demoCodex) = Inr (a, True)"
    by (cases "fst (RecordAgentSessionRef (demoMutator 9) ''a'' demoObservation demoCodex)") auto
  then have "RecordAgentSessionRef (demoMutator 9) ''a'' demoObservation demoCodex
      = (Inr (a, True), snd (RecordAgentSessionRef (demoMutator 9) ''a'' demoObservation demoCodex))" by (simp add: prod_eq_iff)
  then show ?thesis by (rule observation_is_idempotent)
qed

end
