(* ===== verification/Linkage.thy ===== *)
theory Linkage
  imports Adoption Codex_Binding
begin

text \<open>
  Linking a live tmux Pane that runs an Agent to the Agent resource whose runtime it is: \<^verbatim>\<open>agentlinkage.go\<close>. A
  Pane that projmux launched is promoted from a Window shell to the managed Pane of an existing or a minted
  Agent; a Pane that an Agent already owns only has its reverse pointer repaired. The observed legacy Pane is
  the part of it the linkage reads. A binding matcher that the source mutates is threaded.
\<close>

section \<open>What was observed of the Pane\<close>

record linked_pane =
  lp_provider :: string
  lp_launch :: string
  lp_topic :: string
  lp_session :: string
  lp_thread :: string

datatype pane_authority =
    AgentPaneAuthorityNoMarker | AgentPaneAuthorityHookOnly | AgentPaneAuthorityLaunch | AgentPaneAuthorityAmbiguous

definition ResolveAgentPaneAuthority :: "linked_pane \<Rightarrow> pane_authority" where
  "ResolveAgentPaneAuthority ob = (let launch = trimSpace (lp_launch ob); provider = trimSpace (lp_provider ob) in
     if launch = '''' \<and> provider = '''' then AgentPaneAuthorityNoMarker
     else if launch = '''' \<and> provider \<noteq> '''' then AgentPaneAuthorityHookOnly
     else if launch = ''1'' \<and> provider \<noteq> '''' then AgentPaneAuthorityLaunch
     else AgentPaneAuthorityAmbiguous)"

datatype link_kind = AgentLinkNone | AgentLinkRebound | AgentLinkAttached | AgentLinkMinted

record linkage =
  lk_kind :: link_kind
  lk_agent :: string
  lk_promoted :: bool

definition noLink :: linkage where
  "noLink = \<lparr>lk_kind = AgentLinkNone, lk_agent = '''', lk_promoted = False\<rparr>"

definition Linked :: "linkage \<Rightarrow> bool" where
  "Linked l \<longleftrightarrow> lk_kind l \<noteq> AgentLinkNone \<and> lk_agent l \<noteq> ''''"

section \<open>Refusals\<close>

text \<open>The empty string is no refusal.\<close>

definition AgentPanePromotionRefusal :: "registry \<Rightarrow> string \<Rightarrow> string \<Rightarrow> linked_pane \<Rightarrow> string" where
  "AgentPanePromotionRefusal r windowUID paneUID ob = (case (lookupWindow r windowUID, lookupPane r paneUID) of
     (Some w, Some p) \<Rightarrow> (case om_owner (pn_meta p) of
       None \<Rightarrow> ''''
     | Some owner \<Rightarrow>
         if ResolveAgentPaneAuthority ob = AgentPaneAuthorityAmbiguous
         then ''launch authorship marker and provider do not form one canonical receipt''
         else if or_kind owner = KindAgent then (case lookupAgent r (or_uid owner) of
             None \<Rightarrow> ''launch authorship conflicts with the exact Agent/Pane owner chain''
           | Some a \<Rightarrow>
               if OwnerUID (a_meta a) \<noteq> windowUID \<or> ast_pane (a_status a) \<noteq> '''' \<and> ast_pane (a_status a) \<noteq> paneUID
               then ''launch authorship conflicts with the exact Agent/Pane owner chain''
               else if NormalizeProvider (lp_provider ob) \<noteq> '''' \<and> NormalizeProvider (lp_provider ob) \<noteq> as_provider (a_spec a)
               then ''launch provider conflicts with the exact Agent owner provider'' else '''')
         else if or_kind owner \<noteq> KindWindow \<or> or_uid owner \<noteq> windowUID \<or> pns_role (pn_spec p) \<noteq> PaneRoleShell then
           (if trimSpace (lp_launch ob) \<noteq> '''' then ''launch authorship conflicts with the exact Window/Pane owner chain'' else '''')
         else if ResolveAgentPaneAuthority ob = AgentPaneAuthorityHookOnly \<and> paneUID = trimSpace (ws_shell (w_spec w))
         then ''runtime Agent marker cannot reparent the canonical Window default shell Pane''
         else '''')
   | _ \<Rightarrow> '''')"

definition linkTuple :: "registry \<Rightarrow> string \<Rightarrow> string \<Rightarrow> string \<Rightarrow> bool" where
  "linkTuple r windowUID paneUID agentUID = (case (lookupWindow r windowUID, lookupPane r paneUID, lookupAgent r agentUID) of
     (Some w, Some p, Some a) \<Rightarrow>
       om_owner (a_meta a) = Some \<lparr>or_kind = KindWindow, or_uid = windowUID\<rparr>
       \<and> om_owner (pn_meta p) = Some \<lparr>or_kind = KindAgent, or_uid = agentUID\<rparr>
       \<and> pns_role (pn_spec p) = PaneRoleAgent \<and> ast_pane (a_status a) = paneUID
       \<and> \<not> (ws_anchor (w_spec w) = paneUID \<and> ws_shell (w_spec w) = paneUID)
   | _ \<Rightarrow> False)"

definition validateAgentPaneLinkPostState :: "registry \<Rightarrow> string \<Rightarrow> string \<Rightarrow> string \<Rightarrow> check" where
  "validateAgentPaneLinkPostState r windowUID paneUID agentUID =
     guardErr (\<not> linkTuple r windowUID paneUID agentUID) (EnvError ''post-state'')"

section \<open>Writers\<close>

definition bindAgentToPane :: "string \<Rightarrow> time \<Rightarrow> agent \<Rightarrow> agent" where
  "bindAgentToPane paneUID now a =
     (if ast_phase (a_status a) = PhaseRunning \<and> ast_pane (a_status a) = paneUID then a
      else if \<not> CanTransitionAgent (ast_phase (a_status a)) PhaseRunning then a
      else a\<lparr>a_status := (a_status a)\<lparr>ast_phase := PhaseRunning, ast_pane := paneUID, ast_progress := emptyProgress,
             ast_reason := '''', ast_transition := now\<rparr>\<rparr>)"

definition linkedAgent :: "string \<Rightarrow> string \<Rightarrow> string \<Rightarrow> linked_pane \<Rightarrow> time \<Rightarrow> agent" where
  "linkedAgent uid name windowUID ob now =
     \<lparr>a_api = APIVersion, a_kind = KindAgent,
      a_meta = newMeta uid name fmempty
        (if trimSpace (lp_topic ob) = '''' then fmempty else fmupd AnnotationAgentTopic (trimSpace (lp_topic ob)) fmempty)
        (ownedBy KindWindow windowUID) now,
      a_spec = \<lparr>as_provider = NormalizeProvider (lp_provider ob), as_workspace = \<lparr>wk_cwd = '''', wk_roots = []\<rparr>\<rparr>,
      a_status = \<lparr>ast_phase = PhasePending, ast_pane = '''', ast_session = None,
        ast_interaction = \<lparr>i_kind = InteractionUnset, i_observed = zeroTime, i_source = ''''\<rparr>,
        ast_activation = \<lparr>av_state = ActivationUnset, av_observed = zeroTime, av_source = '''', av_reason = ''''\<rparr>,
        ast_progress = emptyProgress, ast_reason = '''', ast_termination = None, ast_transition = now\<rparr>\<rparr>"

definition mintLinkedAgentTx ::
  "'w mutator \<Rightarrow> string \<Rightarrow> string \<Rightarrow> linked_pane \<Rightarrow> time \<Rightarrow> ('w mstate, string) comp" where
  "mintLinkedAgentTx m op windowUID ob now =
     andThen (mintAndReserveName m op windowUID KindAgent '''') (\<lambda>(uid, name).
     andThen (modReg (\<lambda>r. r\<lparr>r_agents := r_agents r @ [linkedAgent uid name windowUID ob now]\<rparr>)) (\<lambda>_.
     andThen (record_created KindAgent uid) (\<lambda>_. return uid)))"

definition ownedByAgent :: "string \<Rightarrow> pane \<Rightarrow> pane" where
  "ownedByAgent agentUID p = p\<lparr>pn_meta := (pn_meta p)\<lparr>om_owner := Some \<lparr>or_kind = KindAgent, or_uid = agentUID\<rparr>\<rparr>,
     pn_spec := (pn_spec p)\<lparr>pns_role := PaneRoleAgent\<rparr>\<rparr>"

definition promotePaneToAgent :: "string \<Rightarrow> string \<Rightarrow> string \<Rightarrow> registry \<Rightarrow> registry \<times> bool" where
  "promotePaneToAgent paneUID windowUID agentUID r = (case lookupPane r paneUID of
     None \<Rightarrow> (r, False)
   | Some p \<Rightarrow> (case rescopeName windowUID agentUID KindPane (om_name (pn_meta p)) paneUID r of
       (r', moved) \<Rightarrow>
         if \<not> moved then (r', False)
         else (updWindow windowUID (\<lambda>w. if ws_shell (w_spec w) = paneUID then setShell '''' w else w)
                (updPane paneUID (ownedByAgent agentUID) r'), True)))"

definition canHoldPaneName :: "registry \<Rightarrow> string \<Rightarrow> string \<Rightarrow> string \<Rightarrow> bool" where
  "canHoldPaneName r agentUID name paneUID = (case scopeFor r KindPane agentUID of
     Inl _ \<Rightarrow> False
   | Inr scope \<Rightarrow> (case nameOwner r scope KindPane name of None \<Rightarrow> True | Some owner \<Rightarrow> owner = paneUID))"

text \<open>The loop over the candidates: a second one is ambiguous.\<close>

fun soleUID :: "string \<Rightarrow> agent list \<Rightarrow> string option" where
  "soleUID found [] = (if found = '''' then None else Some found)"
| "soleUID found (a # as) = (if found \<noteq> '''' then None else soleUID (a_uid a) as)"

definition recordsConversation :: "session_ref \<Rightarrow> agent \<Rightarrow> bool" where
  "recordsConversation ref a \<longleftrightarrow> \<not> refEmpty (ast_session (a_status a))
     \<and> map_option sr_provider (ast_session (a_status a)) = Some (sr_provider ref)
     \<and> ConversationID (ast_session (a_status a)) = ConversationID (Some ref)"

definition agentForConversation :: "registry \<Rightarrow> string \<Rightarrow> linked_pane \<Rightarrow> matcher \<Rightarrow> time \<Rightarrow> string option" where
  "agentForConversation r windowUID ob b now =
     (case NewAgentSessionRef \<lparr>so_provider = lp_provider ob, so_session = lp_session ob, so_thread = lp_thread ob,
          so_transcript = '''', so_endpoint = None\<rparr> now of
        None \<Rightarrow> None
      | Some ref \<Rightarrow>
          if ConversationID (Some ref) = '''' then None
          else soleUID '''' (filter (\<lambda>a. recordsConversation ref a \<and> \<not> Claimed b (a_uid a) \<and> ast_pane (a_status a) = '''')
            (AgentsOf r windowUID)))"

definition linkAgentPaneTx ::
  "'w mutator \<Rightarrow> string \<Rightarrow> string \<Rightarrow> string \<Rightarrow> linked_pane \<Rightarrow> matcher \<Rightarrow> time \<Rightarrow> ('w mstate, linkage \<times> matcher) comp" where
  "linkAgentPaneTx m op windowUID paneUID ob b now = andThen getReg (\<lambda>r. case lookupPane r paneUID of
     None \<Rightarrow> return (noLink, b)
   | Some p \<Rightarrow>
       if map_option or_kind (om_owner (pn_meta p)) = Some KindAgent then
         (if AgentPanePromotionRefusal r windowUID paneUID ob \<noteq> '''' then return (noLink, b)
          else (case lookupAgent r (OwnerUID (pn_meta p)) of
            None \<Rightarrow> return (noLink, b)
          | Some a \<Rightarrow>
              if NormalizeProvider (lp_provider ob) \<noteq> '''' \<and> NormalizeProvider (lp_provider ob) \<noteq> as_provider (a_spec a)
              then return (noLink, b)
              else andThen (modReg (updAgent (a_uid a) (bindAgentToPane paneUID now))) (\<lambda>_.
                return (\<lparr>lk_kind = AgentLinkRebound, lk_agent = a_uid a, lk_promoted = False\<rparr>, Claim (a_uid a) b))))
       else if OwnerUID (pn_meta p) \<noteq> windowUID then return (noLink, b)
       else if ResolveAgentPaneAuthority ob \<noteq> AgentPaneAuthorityLaunch then return (noLink, b)
       else if AgentPanePromotionRefusal r windowUID paneUID ob \<noteq> '''' then return (noLink, b)
       else (let existing = Option.bind (agentForConversation r windowUID ob b now)
                  (\<lambda>u. if canHoldPaneName r u (om_name (pn_meta p)) paneUID then Some u else None)
         in andThen (case existing of
              Some u \<Rightarrow> return (AgentLinkAttached, u)
            | None \<Rightarrow> andThen (mintLinkedAgentTx m op windowUID ob now) (\<lambda>u. return (AgentLinkMinted, u))) (\<lambda>(kind, agentUID).
            andThen getReg (\<lambda>r. case promotePaneToAgent paneUID windowUID agentUID r of
              (r', promoted) \<Rightarrow>
                if \<not> promoted then throw (stateErr op ErrNameConflict)
                else andThen (modReg (\<lambda>_. r')) (\<lambda>_. case lookupAgent r' agentUID of
                  None \<Rightarrow> return (noLink, Claim agentUID b)
                | Some a \<Rightarrow> andThen (modReg (updAgent agentUID (bindAgentToPane paneUID now))) (\<lambda>_.
                    return (\<lparr>lk_kind = kind, lk_agent = agentUID, lk_promoted = True\<rparr>, Claim agentUID b)))))))"

text \<open>\<open>*reg = before\<close> on every error. A matcher is shared with the caller, so what a failed call claimed on it stays:
  the result is the outcome and the matcher the call leaves.\<close>

definition emptyObservation :: runtime_observation where
  "emptyObservation = \<lparr>ro_process = {}, ro_windows = {}, ro_panes = {}, ro_sessions = {}, ro_sessions_observed = False, ro_unobserved = {}\<rparr>"

definition linkChecked :: "string \<Rightarrow> registry \<Rightarrow> registry \<Rightarrow> string \<Rightarrow> string \<Rightarrow> linkage \<Rightarrow> check" where
  "linkChecked op before after windowUID paneUID l =
     (if \<not> Linked l then ok
      else if validateAgentPaneLinkPostState after windowUID paneUID (lk_agent l) \<noteq> ok then Inl (stateErr op ErrInvalidRegistry)
      else guardErr (Validate before = ok \<and> Validate after \<noteq> ok) (stateErr op ErrInvalidRegistry))"

definition LinkAgentPane ::
  "'w mutator \<Rightarrow> string \<Rightarrow> string \<Rightarrow> linked_pane \<Rightarrow> matcher option \<Rightarrow> string \<Rightarrow> 'w mstate
   \<Rightarrow> ((error + linkage) \<times> matcher option) \<times> 'w mstate" where
  "LinkAgentPane m windowUID paneUID ob binder opid s =
     (let op = ''link agent pane''; before = ms_reg s in
      if lookupWindow before windowUID = None then ((Inl (stateErr op ErrNotFound), binder), s)
      else if lookupPane before paneUID = None then ((Inl (stateErr op ErrNotFound), binder), s)
      else (let b = (case binder of None \<Rightarrow> NewBindingMatcher emptyObservation | Some b \<Rightarrow> b) in
        case andThen (clock m) (\<lambda>now. andThen (Begin opid) (\<lambda>_. andThen (linkAgentPaneTx m op windowUID paneUID ob b now)
               (\<lambda>x. return (now, x)))) s of
          (Inl e, s') \<Rightarrow> ((Inl e, binder), s'\<lparr>ms_reg := before\<rparr>)
        | (Inr (now, l, b'), s') \<Rightarrow> (let left = map_option (\<lambda>_. b') binder in
            (case linkChecked op before (ms_reg s') windowUID paneUID l of
               Inl e \<Rightarrow> ((Inl e, left), s'\<lparr>ms_reg := before\<rparr>)
             | Inr _ \<Rightarrow> ((Inr l, left), snd (Commit (s'\<lparr>ms_reg := (if Linked l then (ms_reg s')\<lparr>r_updated := now\<rparr> else ms_reg s')\<rparr>)))))))"

text \<open>\<open>strings.Compare\<close> orders by bytes; the sort is stable.\<close>

fun bytesLess :: "string \<Rightarrow> string \<Rightarrow> bool" where
  "bytesLess [] ys \<longleftrightarrow> ys \<noteq> []"
| "bytesLess (x # xs) [] \<longleftrightarrow> False"
| "bytesLess (x # xs) (y # ys) \<longleftrightarrow> byte x < byte y \<or> byte x = byte y \<and> bytesLess xs ys"

fun insertByUID :: "agent \<Rightarrow> agent list \<Rightarrow> agent list" where
  "insertByUID a [] = [a]"
| "insertByUID a (b # bs) = (if bytesLess (a_uid b) (a_uid a) then b # insertByUID a bs else a # b # bs)"

definition AgentsRecordingConversation :: "registry \<Rightarrow> session_observation \<Rightarrow> agent list" where
  "AgentsRecordingConversation r ob = (case NewAgentSessionRef ob zeroTime of
     None \<Rightarrow> []
   | Some ref \<Rightarrow> if ConversationID (Some ref) = '''' then [] else foldr insertByUID (filter (recordsConversation ref) (r_agents r)) [])"

section \<open>What the transaction leaves\<close>

lemma bindAgentToPane_again: "bindAgentToPane p now' (bindAgentToPane p now a) = bindAgentToPane p now a"
  by (simp add: bindAgentToPane_def)

lemma bindAgentToPane_uid [simp]: "a_uid (bindAgentToPane p now a) = a_uid a"
  by (simp add: bindAgentToPane_def)

lemma rescope_agents: "r_agents (fst (rescopeName o1 o2 k n u r)) = r_agents r"
  by (auto simp: rescopeName_def putReservation_def split: sum.split)

lemma promote_agents: "promotePaneToAgent p w a r = (r', x) \<Longrightarrow> lookupAgent r' = lookupAgent r"
proof -
  assume e: "promotePaneToAgent p w a r = (r', x)"
  have "r_agents r' = r_agents r"
  proof (cases "lookupPane r p")
    case (Some q)
    then show ?thesis
      using e rescope_agents [of w a KindPane "om_name (pn_meta q)" p r]
      by (auto simp: promotePaneToAgent_def upd_defs split: prod.splits if_splits)
  qed (use e in \<open>simp add: promotePaneToAgent_def\<close>)
  then show ?thesis by (simp add: fun_eq_iff lookupAgent_def)
qed

lemma soleUID_mem: "soleUID f as = Some u \<Longrightarrow> u = f \<or> u \<in> a_uid ` set as"
  by (induction f as rule: soleUID.induct) (auto split: if_splits)

lemma soleUID_nonempty: "soleUID f as = Some u \<Longrightarrow> u \<noteq> ''''"
  by (induction f as rule: soleUID.induct) (auto split: if_splits)

lemma agentForConversation_known:
  assumes "agentForConversation r w ob b now = Some u"
  shows "lookupAgent r u \<noteq> None"
proof -
  from assms obtain q where "soleUID '''' (filter q (AgentsOf r w)) = Some u"
    by (auto simp: agentForConversation_def split: option.splits if_splits)
  with soleUID_mem soleUID_nonempty have "u \<in> a_uid ` set (filter q (AgentsOf r w))" by blast
  then show ?thesis by (auto simp: AgentsOf_def lookup_None)
qed

lemma mintLinked_known:
  assumes "mintLinkedAgentTx m op w ob now s = (Inr u, s')"
  shows "lookupAgent (ms_reg s') u \<noteq> None"
  using assms
  by (auto simp: mintLinkedAgentTx_def andThen_Inr modReg_def record_created_def return_def lookup_None linkedAgent_def newMeta_def)

lemma branch_run:
  "(if c then return v else case x of None \<Rightarrow> return v
      | Some a \<Rightarrow> if d a then return v else andThen (modReg (f a)) (\<lambda>_. return (g a))) s = (Inr y, s')
   \<Longrightarrow> y = v \<and> s' = s \<or> (\<exists>a. x = Some a \<and> y = g a \<and> s' = s\<lparr>ms_reg := f a (ms_reg s)\<rparr>)"
  by (auto simp: andThen_def return_def modReg_def split: if_splits option.splits)

text \<open>Every successful run: nothing was linked and nothing written, or the Agent named in the result is bound to the
  Pane.\<close>

lemma linkAgentPaneTx_ok:
  assumes "linkAgentPaneTx m op w p ob b now s = (Inr (l, b'), s')"
  shows "l = noLink \<and> ms_reg s' = ms_reg s
    \<or> lk_kind l \<noteq> AgentLinkNone \<and> (\<exists>a. lookupAgent (ms_reg s') (lk_agent l) = Some (bindAgentToPane p now a))"
proof (cases "lookupPane (ms_reg s) p")
  case None
  with assms show ?thesis by (simp add: linkAgentPaneTx_def getReg_run return_def)
next
  case (Some q)
  show ?thesis
  proof (cases "map_option or_kind (om_owner (pn_meta q)) = Some KindAgent")
    case True
    have "linkAgentPaneTx m op w p ob b now s = (if AgentPanePromotionRefusal (ms_reg s) w p ob \<noteq> '''' then return (noLink, b)
          else (case lookupAgent (ms_reg s) (OwnerUID (pn_meta q)) of
            None \<Rightarrow> return (noLink, b)
          | Some a \<Rightarrow>
              if NormalizeProvider (lp_provider ob) \<noteq> '''' \<and> NormalizeProvider (lp_provider ob) \<noteq> as_provider (a_spec a)
              then return (noLink, b)
              else andThen (modReg (updAgent (a_uid a) (bindAgentToPane p now))) (\<lambda>_.
                return (\<lparr>lk_kind = AgentLinkRebound, lk_agent = a_uid a, lk_promoted = False\<rparr>, Claim (a_uid a) b)))) s"
      unfolding linkAgentPaneTx_def getReg_run by (simp only: Some option.case if_P [OF True])
    with assms consider "l = noLink" "s' = s"
      | a where "lookupAgent (ms_reg s) (OwnerUID (pn_meta q)) = Some a"
          "l = \<lparr>lk_kind = AgentLinkRebound, lk_agent = a_uid a, lk_promoted = False\<rparr>"
          "ms_reg s' = updAgent (a_uid a) (bindAgentToPane p now) (ms_reg s)"
      by (auto dest!: branch_run)
    then show ?thesis
    proof cases
      case (2 a)
      then have "lookupAgent (ms_reg s) (a_uid a) = Some a" using lookup_Some(5) by fastforce
      with 2 show ?thesis by (auto simp: lookupAgent_updAgent)
    qed simp
  next
    case False
    let ?existing = "Option.bind (agentForConversation (ms_reg s) w ob b now)
                  (\<lambda>u. if canHoldPaneName (ms_reg s) u (om_name (pn_meta q)) p then Some u else None)"
    let ?pick = "case ?existing of Some u \<Rightarrow> return (AgentLinkAttached, u)
            | None \<Rightarrow> andThen (mintLinkedAgentTx m op w ob now) (\<lambda>u. return (AgentLinkMinted, u))"
    from assms Some False consider (none) "l = noLink" "s' = s"
      | (linked) k u t where "?pick s = (Inr (k, u), t)"
          "andThen getReg (\<lambda>r. case promotePaneToAgent p w u r of
              (r', promoted) \<Rightarrow>
                if \<not> promoted then throw (stateErr op ErrNameConflict)
                else andThen (modReg (\<lambda>_. r')) (\<lambda>_. case lookupAgent r' u of
                  None \<Rightarrow> return (noLink, Claim u b)
                | Some a \<Rightarrow> andThen (modReg (updAgent u (bindAgentToPane p now))) (\<lambda>_.
                    return (\<lparr>lk_kind = k, lk_agent = u, lk_promoted = True\<rparr>, Claim u b)))) t = (Inr (l, b'), s')"
      unfolding linkAgentPaneTx_def getReg_run Let_def
      by (auto simp: andThen_Inr [of ?pick] return_def split: if_splits)
    then show ?thesis
    proof cases
      case (linked k u t)
      have known: "lookupAgent (ms_reg t) u \<noteq> None" and k: "k \<noteq> AgentLinkNone"
        using linked(1) agentForConversation_known mintLinked_known
        by (auto simp: return_def andThen_Inr Option.bind_eq_Some_conv split: option.splits if_splits)
      obtain r' x where pr: "promotePaneToAgent p w u (ms_reg t) = (r', x)" by fastforce
      from known obtain a where a: "lookupAgent r' u = Some a" using promote_agents [OF pr] by auto
      from linked(2) have "x \<and> l = \<lparr>lk_kind = k, lk_agent = u, lk_promoted = True\<rparr> \<and> ms_reg s' = updAgent u (bindAgentToPane p now) r'"
        unfolding getReg_run pr by (auto simp: a andThen_def modReg_def return_def throw_def split: if_splits)
      with k a show ?thesis by (auto simp: lookupAgent_updAgent)
    qed simp
  qed
qed

lemma linkTuple_updated [simp]: "linkTuple (r\<lparr>r_updated := t\<rparr>) w p a = linkTuple r w p a"
  by (simp add: linkTuple_def)

lemma LinkAgentPane_run:
  obtains (failed) e left s' where "LinkAgentPane m w p ob b opid s = ((Inl e, left), s')" "ms_reg s' = ms_reg s"
  | (unlinked) left s' where "LinkAgentPane m w p ob b opid s = ((Inr noLink, left), s')" "ms_reg s' = ms_reg s"
  | (linked) l left s' now a where "LinkAgentPane m w p ob b opid s = ((Inr l, left), s')" "lk_kind l \<noteq> AgentLinkNone"
      "lookupAgent (ms_reg s') (lk_agent l) = Some (bindAgentToPane p now a)"
      "Linked l \<Longrightarrow> linkTuple (ms_reg s') w p (lk_agent l) \<and> (Validate (ms_reg s) = ok \<longrightarrow> Validate (ms_reg s') = ok)"
proof (cases "lookupWindow (ms_reg s) w = None \<or> lookupPane (ms_reg s) p = None")
  case True
  then show thesis by (intro failed) (auto simp: LinkAgentPane_def Let_def)
next
  case False
  let ?b = "case b of None \<Rightarrow> NewBindingMatcher emptyObservation | Some b \<Rightarrow> b"
  obtain now s1 where c: "clock m s = (Inr now, s1)" and s1: "ms_reg s1 = ms_reg s"
    by (cases "Now m (ms_world s)") (simp add: clock_def)
  obtain s2 where beg: "Begin opid s1 = (Inr (), s2)" and s2: "ms_reg s2 = ms_reg s" using s1 by (simp add: Begin_def)
  obtain x s3 where tx: "linkAgentPaneTx m ''link agent pane'' w p ob ?b now s2 = (x, s3)" by fastforce
  show thesis
  proof (cases x)
    case (Inl e)
    with False c beg tx have "LinkAgentPane m w p ob b opid s = ((Inl e, b), s3\<lparr>ms_reg := ms_reg s\<rparr>)"
      by (auto simp: LinkAgentPane_def Let_def andThen_def)
    then show thesis by (rule failed) simp
  next
    case (Inr y)
    obtain l b' where y: "y = (l, b')" by fastforce
    note out = linkAgentPaneTx_ok [OF tx [unfolded Inr y], unfolded s2]
    have run: "LinkAgentPane m w p ob b opid s = (let left = map_option (\<lambda>_. b') b in
            (case linkChecked ''link agent pane'' (ms_reg s) (ms_reg s3) w p l of
               Inl e \<Rightarrow> ((Inl e, left), s3\<lparr>ms_reg := ms_reg s\<rparr>)
             | Inr _ \<Rightarrow> ((Inr l, left), snd (Commit (s3\<lparr>ms_reg := (if Linked l then (ms_reg s3)\<lparr>r_updated := now\<rparr> else ms_reg s3)\<rparr>)))))"
    proof -
      from False have "\<not> lookupWindow (ms_reg s) w = None" "\<not> lookupPane (ms_reg s) p = None" by simp_all
      then show ?thesis
        unfolding LinkAgentPane_def Let_def
        by (simp only: if_False andThen_def c beg tx Inr y return_def sum.case prod.case)
    qed
    show thesis
    proof (cases "linkChecked ''link agent pane'' (ms_reg s) (ms_reg s3) w p l")
      case (Inl e)
      then have "LinkAgentPane m w p ob b opid s = ((Inl e, map_option (\<lambda>_. b') b), s3\<lparr>ms_reg := ms_reg s\<rparr>)"
        using run by (simp add: Let_def)
      then show thesis by (rule failed) simp
    next
      case (Inr z)
      from out show thesis
      proof (elim disjE conjE exE)
        assume "l = noLink" "ms_reg s3 = ms_reg s"
        with run Inr have "LinkAgentPane m w p ob b opid s = ((Inr noLink, map_option (\<lambda>_. b') b), snd (Commit (s3\<lparr>ms_reg := ms_reg s\<rparr>)))"
          by (simp add: Let_def noLink_def Linked_def)
        then show thesis by (rule unlinked) (simp add: Commit_def)
      next
        fix a assume k: "lk_kind l \<noteq> AgentLinkNone" and a: "lookupAgent (ms_reg s3) (lk_agent l) = Some (bindAgentToPane p now a)"
        have checked: "Linked l \<Longrightarrow> linkTuple (ms_reg s3) w p (lk_agent l) \<and> (Validate (ms_reg s) = ok \<longrightarrow> Validate (ms_reg s3) = ok)"
        proof -
          assume lk: "Linked l"
          from Inr have "linkChecked ''link agent pane'' (ms_reg s) (ms_reg s3) w p l = ok" by (simp add: ok_def)
          with lk show ?thesis
            by (simp add: linkChecked_def validateAgentPaneLinkPostState_def split: if_splits)
        qed
        define s4 where "s4 = snd (Commit (s3\<lparr>ms_reg := (if Linked l then (ms_reg s3)\<lparr>r_updated := now\<rparr> else ms_reg s3)\<rparr>))"
        have r4: "ms_reg s4 = (if Linked l then (ms_reg s3)\<lparr>r_updated := now\<rparr> else ms_reg s3)" by (simp add: s4_def Commit_def)
        have "LinkAgentPane m w p ob b opid s = ((Inr l, map_option (\<lambda>_. b') b), s4)"
          using run by (simp only: Inr Let_def sum.case s4_def)
        then show thesis
        proof (rule linked [OF _ k])
          show "lookupAgent (ms_reg s4) (lk_agent l) = Some (bindAgentToPane p now a)" using a by (simp add: r4)
          assume "Linked l"
          then show "linkTuple (ms_reg s4) w p (lk_agent l) \<and> (Validate (ms_reg s) = ok \<longrightarrow> Validate (ms_reg s4) = ok)"
            using checked by (simp add: r4)
        qed
      qed
    qed
  qed
qed

section \<open>Linking converges\<close>

lemma updAgent_same: "lookupAgent r u = Some a \<Longrightarrow> f a = a \<Longrightarrow> updAgent u f r = r"
proof -
  assume a: "lookupAgent r u = Some a" and f: "f a = a"
  have "find p xs = Some a \<Longrightarrow> updFirst p f xs = xs" for p xs
    by (induction xs) (auto simp: f split: if_splits)
  with a have "updFirst (\<lambda>a. a_uid a = u) f (r_agents r) = r_agents r" by (simp add: lookupAgent_def)
  then show ?thesis by (simp add: updAgent_def)
qed

lemma linkTuple_parts:
  assumes "linkTuple r w p u"
  obtains q a where "lookupPane r p = Some q" "om_owner (pn_meta q) = Some \<lparr>or_kind = KindAgent, or_uid = u\<rparr>" "lookupAgent r u = Some a"
    "lookupWindow r w \<noteq> None"
  using assms by (auto simp: linkTuple_def split: option.splits)

text \<open>A Pane that its Agent already owns and is bound to: the transaction writes nothing.\<close>

lemma relink_tx:
  assumes t: "linkTuple (ms_reg s) w p u" and a: "lookupAgent (ms_reg s) u = Some (bindAgentToPane p now0 a0)"
  shows "\<exists>b'. linkAgentPaneTx m op w p ob b now s = (Inr (noLink, b'), s)
     \<or> linkAgentPaneTx m op w p ob b now s = (Inr (\<lparr>lk_kind = AgentLinkRebound, lk_agent = u, lk_promoted = False\<rparr>, b'), s)"
proof -
  obtain q where q: "lookupPane (ms_reg s) p = Some q" "om_owner (pn_meta q) = Some \<lparr>or_kind = KindAgent, or_uid = u\<rparr>"
    using t by (auto elim: linkTuple_parts)
  have ow: "OwnerUID (pn_meta q) = u" and kd: "map_option or_kind (om_owner (pn_meta q)) = Some KindAgent"
    using q(2) by (simp_all add: OwnerUID_def)
  have ua: "a_uid a0 = u" using lookup_Some(5) [OF a] by simp
  have same: "updAgent u (bindAgentToPane p now) (ms_reg s) = ms_reg s"
    by (rule updAgent_same [OF a]) (simp add: bindAgentToPane_again)
  show ?thesis
    unfolding linkAgentPaneTx_def getReg_run
    by (simp add: q(1) kd ow a ua same andThen_def modReg_def return_def) auto
qed

lemma relink:
  assumes t: "linkTuple (ms_reg s) w p u" and a: "lookupAgent (ms_reg s) u = Some (bindAgentToPane p now0 a0)" and u: "u \<noteq> ''''"
  shows "\<exists>l left s'. LinkAgentPane m w p ob b opid s = ((Inr l, left), s')
     \<and> (ms_reg s')\<lparr>r_updated := zeroTime\<rparr> = (ms_reg s)\<lparr>r_updated := zeroTime\<rparr>
     \<and> (l = noLink \<or> l = \<lparr>lk_kind = AgentLinkRebound, lk_agent = u, lk_promoted = False\<rparr>)"
proof -
  obtain now s1 where c: "clock m s = (Inr now, s1)" and s1: "ms_reg s1 = ms_reg s"
    by (cases "Now m (ms_world s)") (simp add: clock_def)
  obtain s2 where beg: "Begin opid s1 = (Inr (), s2)" and s2: "ms_reg s2 = ms_reg s" using s1 by (simp add: Begin_def)
  let ?b = "case b of None \<Rightarrow> NewBindingMatcher emptyObservation | Some b \<Rightarrow> b"
  from relink_tx [of s2 w p u now0 a0 m "''link agent pane''" ob ?b now] t a
  obtain l b' where tx: "linkAgentPaneTx m ''link agent pane'' w p ob ?b now s2 = (Inr (l, b'), s2)"
    and l: "l = noLink \<or> l = \<lparr>lk_kind = AgentLinkRebound, lk_agent = u, lk_promoted = False\<rparr>" by (auto simp: s2)
  have chk: "linkChecked ''link agent pane'' (ms_reg s) (ms_reg s2) w p l = ok"
    using l t by (auto simp: linkChecked_def validateAgentPaneLinkPostState_def Linked_def noLink_def s2)
  from t have ex: "\<not> lookupWindow (ms_reg s) w = None" "\<not> lookupPane (ms_reg s) p = None" by (auto elim!: linkTuple_parts)
  have "LinkAgentPane m w p ob b opid s = ((Inr l, map_option (\<lambda>_. b') b),
      snd (Commit (s2\<lparr>ms_reg := (if Linked l then (ms_reg s2)\<lparr>r_updated := now\<rparr> else ms_reg s2)\<rparr>)))"
    unfolding LinkAgentPane_def Let_def
    by (simp only: ex if_False andThen_def c beg tx return_def sum.case prod.case chk, simp add: ok_def)
  moreover have "(ms_reg (snd (Commit (s2\<lparr>ms_reg := (if Linked l then (ms_reg s2)\<lparr>r_updated := now\<rparr> else ms_reg s2)\<rparr>))))\<lparr>r_updated := zeroTime\<rparr>
      = (ms_reg s)\<lparr>r_updated := zeroTime\<rparr>" by (simp add: Commit_def s2)
  ultimately show ?thesis using l by blast
qed

text \<open>linking a live Pane to its Agent is exact and converges. A call that fails or links nothing leaves the
  Registry as it was. A call that links leaves one exact tuple: the Agent owned by the Window, the managed Pane owned
  by the Agent, the Agent's pointer on the Pane, the Window's default shell another Pane; a Registry that was valid
  still is. And a later pass over the same Pane, whatever it observed and whatever its matcher holds, mints and
  promotes nothing: apart from the update time it writes nothing.\<close>

theorem linking_is_exact_and_converges:
  assumes "LinkAgentPane m w p ob b opid s = ((out, left), s')"
  shows "(case out of
      Inl e \<Rightarrow> ms_reg s' = ms_reg s
    | Inr l \<Rightarrow> if \<not> Linked l then lk_kind l = AgentLinkNone \<longrightarrow> ms_reg s' = ms_reg s
        else linkTuple (ms_reg s') w p (lk_agent l) \<and> (Validate (ms_reg s) = ok \<longrightarrow> Validate (ms_reg s') = ok)
          \<and> (\<forall>ob2 b2 op2. \<exists>l2 left2 s2. LinkAgentPane m w p ob2 b2 op2 s' = ((Inr l2, left2), s2)
               \<and> (ms_reg s2)\<lparr>r_updated := zeroTime\<rparr> = (ms_reg s')\<lparr>r_updated := zeroTime\<rparr> \<and> \<not> lk_promoted l2
               \<and> lk_kind l2 \<in> {AgentLinkNone, AgentLinkRebound}))"
proof (cases rule: LinkAgentPane_run [of m w p ob b opid s])
  case (linked l left2 s2 now a)
  with assms have eq: "out = Inr l" "s' = s2" by simp_all
  show ?thesis
  proof (cases "Linked l")
    case True
    note post = linked(4) [OF True]
    have "lk_agent l \<noteq> ''''" using True by (simp add: Linked_def)
    then have "\<exists>l2 left2 s3. LinkAgentPane m w p ob2 b2 op2 s2 = ((Inr l2, left2), s3)
       \<and> (ms_reg s3)\<lparr>r_updated := zeroTime\<rparr> = (ms_reg s2)\<lparr>r_updated := zeroTime\<rparr> \<and> \<not> lk_promoted l2
       \<and> lk_kind l2 \<in> {AgentLinkNone, AgentLinkRebound}" for ob2 b2 op2
      using relink [OF conjunct1 [OF post] linked(3), of m ob2 b2 op2] by (auto simp: noLink_def)
    with True post show ?thesis by (simp add: eq)
  qed (use linked(2) in \<open>simp add: eq\<close>)
qed (use assms in \<open>auto simp: noLink_def Linked_def\<close>)

section \<open>A small link\<close>

definition demoLaunched :: linked_pane where
  "demoLaunched = \<lparr>lp_provider = ''claude'', lp_launch = ''1'', lp_topic = ''t'', lp_session = ''c'', lp_thread = ''''\<rparr>"

definition demoLink :: "nat mstate \<Rightarrow> ((error + linkage) \<times> matcher option) \<times> nat mstate" where
  "demoLink = LinkAgentPane (demoMutator 9) ''w'' ''s'' demoLaunched None ''op''"

lemma linking_is_exact_and_converges_witness:
  "\<exists>l. fst (fst (demoLink demoClaude)) = Inr l \<and> Linked l \<and> lk_promoted l
     \<and> linkTuple (ms_reg (snd (demoLink demoClaude))) ''w'' ''s'' (lk_agent l)
     \<and> (\<exists>l2 left2 s2. LinkAgentPane (demoMutator 9) ''w'' ''s'' demoLaunched None ''op'' (snd (demoLink demoClaude)) = ((Inr l2, left2), s2)
          \<and> \<not> lk_promoted l2)"
proof -
  have "map_sum id (\<lambda>l. (Linked l, lk_promoted l)) (fst (fst (demoLink demoClaude))) = Inr (True, True)" by code_simp
  then obtain l where l: "fst (fst (demoLink demoClaude)) = Inr l" "Linked l" "lk_promoted l"
    by (cases "fst (fst (demoLink demoClaude))") auto
  then obtain left s' where run: "LinkAgentPane (demoMutator 9) ''w'' ''s'' demoLaunched None ''op'' demoClaude = ((Inr l, left), s')"
    by (cases "demoLink demoClaude"; cases "fst (demoLink demoClaude)") (auto simp: demoLink_def)
  from linking_is_exact_and_converges [OF run] l(2)
  have all: "linkTuple (ms_reg s') ''w'' ''s'' (lk_agent l) \<and> (\<exists>l2 left2 s2.
      LinkAgentPane (demoMutator 9) ''w'' ''s'' demoLaunched None ''op'' s' = ((Inr l2, left2), s2) \<and> \<not> lk_promoted l2)"
    by (simp only: sum.case simp_thms if_False) blast
  have s': "snd (demoLink demoClaude) = s'" by (simp add: demoLink_def run)
  from all have t: "linkTuple s'' ''w'' ''s'' (lk_agent l)" if "s'' = ms_reg s'" for s'' using that by simp
  from all obtain l2 left2 s2 where "LinkAgentPane (demoMutator 9) ''w'' ''s'' demoLaunched None ''op'' s' = ((Inr l2, left2), s2)"
    "\<not> lk_promoted l2" by blast
  with l t show ?thesis unfolding s' by blast
qed

end
