(* ===== verification/Spec2Isabelle.thy ===== *)
theory Spec2Isabelle
  imports Delivery Observations Agent_Routes Linkage
begin

text \<open>
  projmux.
\<close>

end
